theory Spec2Isabelle
  imports Main "HOL-Library.Word"
begin

section \<open>CPC System Endpoint: data model\<close>

text \<open>
  The two System Endpoint implementations of the repository are embedded here:
  \<^verbatim>\<open>src/server_core/system_endpoint/system.c\<close> (Information Poll, with the
  poll-acknowledged hook) and \<^verbatim>\<open>src/server_core/server/system/system.c\<close>
  (Unnumbered Poll, timer armed at issue time). Functions of the second file carry the
  suffix \<open>_uframe\<close>; all others are from the first file.

  Module-level variables become fields of one state record; every heap object
  (\<^verbatim>\<open>malloc\<close>) is an address in an explicit store; calls into Core, the epoll
  loop, the timer file descriptors, the log and the user callbacks append to a trace of
  events in call order. A \<^verbatim>\<open>FATAL\<close>/\<^verbatim>\<open>BUG\<close> stops the process: the
  result is \<open>Inl\<close> of the error and the state reached at that point.
  \<^verbatim>\<open>TRACE_SYSTEM\<close> lines are not recorded. \<^verbatim>\<open>malloc\<close>,
  \<^verbatim>\<open>timerfd_create\<close> and the read of an expired timer are taken to succeed;
  \<^verbatim>\<open>timerfd_settime\<close> fails on a timer value it refuses, which is fatal.
\<close>

type_synonym u8 = "8 word"
type_synonym u16 = "16 word"
type_synonym u32 = "32 word"
type_synonym u64 = "64 word"
type_synonym size_t = "64 word"
type_synonym handle = nat

subsection \<open>Byte order\<close>

fun le_bytes :: "nat \<Rightarrow> nat \<Rightarrow> u8 list" where
  "le_bytes 0 v = []"
| "le_bytes (Suc n) v = of_nat (v mod 256) # le_bytes n (v div 256)"

fun le_value :: "u8 list \<Rightarrow> nat" where
  "le_value [] = 0"
| "le_value (b # bs) = unat b + 256 * le_value bs"

text \<open>
  Host memory: an object of \<open>n\<close> bytes holding the number \<open>v\<close> is the byte list
  \<open>host_bytes be n v\<close>, where \<open>be\<close> says that the host is big-endian. The byte
  order of the host is a parameter of every function that touches memory.
\<close>

definition host_bytes :: "bool \<Rightarrow> nat \<Rightarrow> nat \<Rightarrow> u8 list" where
  "host_bytes be n v = (if be then rev (le_bytes n v) else le_bytes n v)"

definition host_value :: "bool \<Rightarrow> u8 list \<Rightarrow> nat" where
  "host_value be bs = le_value (if be then rev bs else bs)"

definition store :: "bool \<Rightarrow> 'a::len word \<Rightarrow> u8 list" where
  "store be w = host_bytes be (LENGTH('a) div 8) (unat w)"

definition load :: "bool \<Rightarrow> u8 list \<Rightarrow> 'a::len word" where
  "load be bs = of_nat (host_value be bs)"

definition bswap :: "'a::len word \<Rightarrow> 'a word" where
  "bswap w = of_nat (le_value (rev (le_bytes (LENGTH('a) div 8) (unat w))))"

text \<open>
  Modelled from the spec: the conversion macros \<^verbatim>\<open>cpu_to_le16/32/64\<close>,
  \<^verbatim>\<open>cpu_to_le16p/32p/64p\<close> and \<^verbatim>\<open>le32_to_cpu\<close> are not in the
  sources at hand. They swap the bytes on a big-endian host and are the identity on a
  little-endian one.
\<close>

definition cpu_to_le :: "bool \<Rightarrow> 'a::len word \<Rightarrow> 'a word" where
  "cpu_to_le be w = (if be then bswap w else w)"

definition le_to_cpu :: "bool \<Rightarrow> 'a::len word \<Rightarrow> 'a word" where
  "le_to_cpu be w = (if be then bswap w else w)"

subsection \<open>Wire frame and constants\<close>

text \<open>
  \<^verbatim>\<open>sl_cpc_system_cmd_t\<close>: three header bytes and the payload bytes that follow
  them in memory.
\<close>

record sl_cpc_system_cmd =
  cmd_command_id :: u8
  cmd_command_seq :: u8
  cmd_length :: u8
  cmd_payload :: "u8 list"

text \<open>
  Modelled from the spec: the header \<^verbatim>\<open>system.h\<close> is not in the sources at hand.
  The command identifiers, \<^verbatim>\<open>sizeof(sl_cpc_system_cmd_t)\<close> (3),
  \<^verbatim>\<open>sizeof(sl_cpc_system_property_cmd_t)\<close> and
  \<^verbatim>\<open>sizeof(sl_cpc_property_id_t)\<close> (4), and \<^verbatim>\<open>PROP_LAST_STATUS\<close> (0)
  follow the frame layout of the specification.
\<close>

definition CMD_SYSTEM_NOOP :: u8 where "CMD_SYSTEM_NOOP = 1"
definition CMD_SYSTEM_RESET :: u8 where "CMD_SYSTEM_RESET = 2"
definition CMD_SYSTEM_PROP_VALUE_GET :: u8 where "CMD_SYSTEM_PROP_VALUE_GET = 3"
definition CMD_SYSTEM_PROP_VALUE_SET :: u8 where "CMD_SYSTEM_PROP_VALUE_SET = 4"
definition CMD_SYSTEM_PROP_VALUE_IS :: u8 where "CMD_SYSTEM_PROP_VALUE_IS = 5"

definition sizeof_sl_cpc_system_cmd_t :: nat where "sizeof_sl_cpc_system_cmd_t = 3"
definition sizeof_sl_cpc_property_id_t :: nat where "sizeof_sl_cpc_property_id_t = 4"
definition sizeof_sl_cpc_system_property_cmd_t :: nat where
  "sizeof_sl_cpc_system_property_cmd_t = 4"

definition PROP_LAST_STATUS :: u32 where "PROP_LAST_STATUS = 0"

definition SL_CPC_ENDPOINT_SYSTEM :: u8 where "SL_CPC_ENDPOINT_SYSTEM = 0"

text \<open>
  What the build fixes and the sources at hand do not show: the byte order of the host,
  the first endpoint-state property identifier, and the number that stands for the
  closed endpoint state.
\<close>

record platform =
  host_big_endian :: bool
  PROP_ENDPOINT_STATE_0 :: u32
  SL_CPC_STATE_CLOSED_value :: u32

text \<open>
  Modelled from the spec: \<^verbatim>\<open>PROP_ENDPOINT_STATE_255\<close> and
  \<^verbatim>\<open>PROPERTY_ID_TO_EP_ID\<close> are not in the sources at hand. The range is
  \<open>PROP_ENDPOINT_STATE_0 .. PROP_ENDPOINT_STATE_0 + 255\<close> and the endpoint is
  \<open>property_id - PROP_ENDPOINT_STATE_0\<close>.
\<close>

definition PROP_ENDPOINT_STATE_255 :: "platform \<Rightarrow> u32" where
  "PROP_ENDPOINT_STATE_255 pf = PROP_ENDPOINT_STATE_0 pf + 255"

definition PROPERTY_ID_TO_EP_ID :: "platform \<Rightarrow> u32 \<Rightarrow> u8" where
  "PROPERTY_ID_TO_EP_ID pf property_id = ucast (property_id - PROP_ENDPOINT_STATE_0 pf)"

datatype sl_status = SL_STATUS_OK | SL_STATUS_IN_PROGRESS | SL_STATUS_TIMEOUT

datatype cpc_endpoint_state =
  SL_CPC_STATE_OPEN
| SL_CPC_STATE_CLOSED
| SL_CPC_STATE_ERROR_DESTINATION_UNREACHABLE
| SL_CPC_STATE_OTHER

datatype write_flag =
  SL_CPC_FLAG_INFORMATION_POLL
| SL_CPC_FLAG_UNNUMBERED_POLL
| SL_CPC_FLAG_UNNUMBERED_RESET_COMMAND

datatype endpoint_option =
  SL_CPC_ENDPOINT_ON_FINAL
| SL_CPC_ENDPOINT_ON_UFRAME_RECEIVE

datatype callback =
  NULL_callback
| User_callback nat
| reply_to_closing_endpoint_on_secondary_callback

datatype reset_status = STATUS_FAILURE | Status u32

datatype error =
  MalformedFrame
| IllegalCommand
| IllegalArgument
| BugCheck
| InvalidPointer
| SyscallFailure

subsection \<open>Command handle, events and state\<close>

text \<open>
  \<^verbatim>\<open>sl_cpc_system_command_handle_t\<close>. The command buffer is owned by the handle
  and kept by value. The timer's file descriptor is not initialised by the issuers of the
  Information Poll file: \<open>None\<close> until a timer is created.
\<close>

record sl_cpc_system_command_handle =
  command :: sl_cpc_system_cmd
  on_final :: callback
  retry_count :: u8
  retry_timeout_us :: u32
  error_status :: sl_status
  command_seq :: u8
  file_descriptor :: "nat option"

datatype event =
  Core_write u8 "u8 list" write_flag
| Core_process_transmit_queue
| Core_close_endpoint u8
| Core_open_endpoint u8 bool
| Core_set_endpoint_option u8 endpoint_option
| Core_set_endpoint_in_error u8 cpc_endpoint_state
| Timerfd_create nat
| Timerfd_settime "nat option" u32 u32
| Timerfd_read "nat option"
| Epoll_register handle
| Epoll_unregister handle
| Close_fd "nat option"
| Noop_callback callback handle sl_status
| Reset_callback callback handle sl_status reset_status
| Property_callback callback handle u32 "u8 list option" size_t sl_status
| Last_status_callback callback u32
| Warn string
| Free_command handle
| Free_handle handle

record system_state =
  next_command_seq :: u8
  commands :: "handle list"
  heap :: "handle \<rightharpoonup> sl_cpc_system_command_handle"
  next_handle :: handle
  timer_fds :: "nat list"
  next_fd :: nat
  epoll_set :: "handle list"
  prop_last_status_callbacks :: "callback list"
  ignore_reset_reason :: bool
  endpoint_state :: "u8 \<Rightarrow> cpc_endpoint_state"
  listener_list_empty :: "u8 \<Rightarrow> bool"
  trace :: "event list"

type_synonym result = "(error \<times> system_state) + system_state"

definition emit :: "event list \<Rightarrow> system_state \<Rightarrow> system_state" where
  "emit es s = s\<lparr>trace := trace s @ es\<rparr>"

text \<open>
  Modelled from the spec: the list primitives \<^verbatim>\<open>sl_slist_push_back\<close>,
  \<^verbatim>\<open>sl_slist_remove\<close> and \<^verbatim>\<open>sl_slist_pop\<close> are not in the sources at
  hand. They are the Command Table's insert at the tail, removal of a node, and removal
  of the head.
\<close>

definition sl_slist_push_back :: "handle list \<Rightarrow> handle \<Rightarrow> handle list" where
  "sl_slist_push_back xs h = xs @ [h]"

definition sl_slist_remove :: "handle list \<Rightarrow> handle \<Rightarrow> handle list" where
  "sl_slist_remove xs h = remove1 h xs"

definition sl_slist_pop :: "handle list \<Rightarrow> (handle \<times> handle list) option" where
  "sl_slist_pop xs = (case xs of [] \<Rightarrow> None | h # rest \<Rightarrow> Some (h, rest))"

text \<open>
  The search loop \<^verbatim>\<open>SL_SLIST_FOR_EACH_ENTRY\<close> over \<^verbatim>\<open>commands\<close> with
  the test on \<^verbatim>\<open>command_seq\<close>: the first handle of the table with that
  sequence number.
\<close>

definition find_command :: "system_state \<Rightarrow> u8 \<Rightarrow> handle option" where
  "find_command s seq =
     find (\<lambda>h. case heap s h of None \<Rightarrow> False | Some d \<Rightarrow> command_seq d = seq) (commands s)"

text \<open>
  Modelled from the spec: the Timer Service and the epoll loop are not in the sources at
  hand. A timer is a file descriptor that is created, set, read, registered on the loop
  under its owner's private data, unregistered and closed.
\<close>

definition timerfd_create :: "system_state \<Rightarrow> nat \<times> system_state" where
  "timerfd_create s =
     (next_fd s,
      emit [Timerfd_create (next_fd s)]
        (s\<lparr>timer_fds := timer_fds s @ [next_fd s], next_fd := Suc (next_fd s)\<rparr>))"

definition epoll_register :: "handle \<Rightarrow> system_state \<Rightarrow> system_state" where
  "epoll_register h s = emit [Epoll_register h] (s\<lparr>epoll_set := epoll_set s @ [h]\<rparr>)"

definition epoll_unregister :: "handle \<Rightarrow> system_state \<Rightarrow> system_state" where
  "epoll_unregister h s =
     emit [Epoll_unregister h] (s\<lparr>epoll_set := removeAll h (epoll_set s)\<rparr>)"

definition close_fd :: "nat option \<Rightarrow> system_state \<Rightarrow> system_state" where
  "close_fd fd s =
     emit [Close_fd fd]
       (case fd of None \<Rightarrow> s | Some n \<Rightarrow> s\<lparr>timer_fds := removeAll n (timer_fds s)\<rparr>)"

text \<open>
  Modelled from the spec: \<^verbatim>\<open>timerfd_settime\<close> is not in the sources at hand.
  Both files hand it a timer value of 0 seconds and
  \<^verbatim>\<open>(long int)retry_timeout_us * 1000\<close> nanoseconds (a \<^verbatim>\<open>long int\<close> of 64
  bits holds the product). The call refuses nanoseconds that are not below \<open>10\<^sup>9\<close>
  with \<^verbatim>\<open>EINVAL\<close>; \<^verbatim>\<open>FATAL_SYSCALL_ON(ret < 0)\<close> then ends the process.
\<close>

definition timeout_tv_nsec :: "u32 \<Rightarrow> nat" where
  "timeout_tv_nsec retry_timeout = unat retry_timeout * 1000"

definition timerfd_settime_fails :: "nat \<Rightarrow> bool" where
  "timerfd_settime_fails tv_nsec = (999999999 < tv_nsec)"

text \<open>\<^verbatim>\<open>malloc\<close> of a command handle and its buffer, and their \<^verbatim>\<open>free\<close>.\<close>

definition malloc_handle ::
  "sl_cpc_system_command_handle \<Rightarrow> system_state \<Rightarrow> handle \<times> system_state" where
  "malloc_handle d s =
     (next_handle s,
      s\<lparr>heap := (heap s)(next_handle s \<mapsto> d), next_handle := Suc (next_handle s)\<rparr>)"

definition free_command_and_handle :: "handle \<Rightarrow> system_state \<Rightarrow> system_state" where
  "free_command_and_handle h s =
     emit [Free_command h, Free_handle h] (s\<lparr>heap := (heap s)(h := None)\<rparr>)"

definition free_handle :: "handle \<Rightarrow> system_state \<Rightarrow> system_state" where
  "free_handle h s = emit [Free_handle h] (s\<lparr>heap := (heap s)(h := None)\<rparr>)"


section \<open>Information Poll implementation (system\_endpoint/system.c)\<close>

text \<open>
  \<^verbatim>\<open>SIZEOF_SYSTEM_COMMAND\<close> bytes of a command buffer: the header and
  \<^verbatim>\<open>length\<close> payload bytes.
\<close>

definition command_bytes :: "sl_cpc_system_cmd \<Rightarrow> u8 list" where
  "command_bytes c =
     [cmd_command_id c, cmd_command_seq c, cmd_length c] @ take (unat (cmd_length c)) (cmd_payload c)"

definition sl_cpc_system_open_endpoint :: "system_state \<Rightarrow> system_state" where
  "sl_cpc_system_open_endpoint s =
     emit [Core_open_endpoint SL_CPC_ENDPOINT_SYSTEM False,
           Core_set_endpoint_option SL_CPC_ENDPOINT_SYSTEM SL_CPC_ENDPOINT_ON_FINAL,
           Core_set_endpoint_option SL_CPC_ENDPOINT_SYSTEM SL_CPC_ENDPOINT_ON_UFRAME_RECEIVE] s"

definition sl_cpc_system_init ::
  "(u8 \<Rightarrow> cpc_endpoint_state) \<Rightarrow> (u8 \<Rightarrow> bool) \<Rightarrow> system_state" where
  "sl_cpc_system_init es le =
     sl_cpc_system_open_endpoint
       \<lparr>next_command_seq = 0, commands = [], heap = Map.empty, next_handle = 0,
        timer_fds = [], next_fd = 0, epoll_set = [], prop_last_status_callbacks = [],
        ignore_reset_reason = False, endpoint_state = es, listener_list_empty = le,
        trace = []\<rparr>"

definition sl_cpc_system_register_unsolicited_prop_last_status_callback ::
  "callback \<Rightarrow> system_state \<Rightarrow> system_state" where
  "sl_cpc_system_register_unsolicited_prop_last_status_callback cb s =
     s\<lparr>prop_last_status_callbacks := prop_last_status_callbacks s @ [cb]\<rparr>"

definition write_command :: "handle \<Rightarrow> system_state \<Rightarrow> result" where
  "write_command command_handle s =
     (case heap s command_handle of
        None \<Rightarrow> Inl (InvalidPointer, s)
      | Some d \<Rightarrow>
          Inr (emit [Core_write SL_CPC_ENDPOINT_SYSTEM (command_bytes (command d))
                       SL_CPC_FLAG_INFORMATION_POLL]
                 (s\<lparr>commands := sl_slist_push_back (commands s) command_handle\<rparr>)))"

definition sl_cpc_system_cmd_timed_out ::
  "platform \<Rightarrow> sl_cpc_system_cmd \<Rightarrow> system_state \<Rightarrow> result" where
  "sl_cpc_system_cmd_timed_out pf timed_out_command s =
     (case find_command s (cmd_command_seq timed_out_command) of
        None \<Rightarrow> Inl (BugCheck, s)
      | Some command_handle \<Rightarrow>
          (case heap s command_handle of
             None \<Rightarrow> Inl (InvalidPointer, s)
           | Some d0 \<Rightarrow>
               let d = d0\<lparr>error_status := SL_STATUS_TIMEOUT\<rparr>;
                   s1 = s\<lparr>commands := sl_slist_remove (commands s) command_handle,
                          heap := (heap s)(command_handle \<mapsto> d)\<rparr>;
                   cid = cmd_command_id (command d)
               in if cid = CMD_SYSTEM_NOOP then
                    Inr (free_command_and_handle command_handle
                          (emit [Noop_callback (on_final d) command_handle (error_status d)] s1))
                  else if cid = CMD_SYSTEM_RESET then
                    Inr (free_command_and_handle command_handle
                          (emit [Reset_callback (on_final d) command_handle (error_status d)
                                   STATUS_FAILURE] s1))
                  else if cid = CMD_SYSTEM_PROP_VALUE_GET \<or> cid = CMD_SYSTEM_PROP_VALUE_SET then
                    (if length (cmd_payload (command d)) < sizeof_sl_cpc_property_id_t
                     then Inl (InvalidPointer, s1)
                     else
                       Inr (free_command_and_handle command_handle
                             (emit [Property_callback (on_final d) command_handle
                                      (load (host_big_endian pf)
                                         (take sizeof_sl_cpc_property_id_t
                                            (cmd_payload (command d))))
                                      None 0 (error_status d)] s1)))
                  else Inl (BugCheck, s1)))"


text \<open>
  \<^verbatim>\<open>on_timer_expired\<close> receives the private data of the timer; the owning command
  handle is recovered with \<^verbatim>\<open>container_of\<close>, so the argument here is the handle.
\<close>

definition on_timer_expired :: "platform \<Rightarrow> handle \<Rightarrow> system_state \<Rightarrow> result" where
  "on_timer_expired pf command_handle s =
     (case heap s command_handle of
        None \<Rightarrow> Inl (InvalidPointer, s)
      | Some d \<Rightarrow>
          let s0 = emit [Timerfd_read (file_descriptor d)] s in
          if retry_count d > 0 then
            write_command command_handle
              (s0\<lparr>commands := sl_slist_remove (commands s0) command_handle,
                  heap := (heap s0)(command_handle \<mapsto>
                            d\<lparr>retry_count := retry_count d - 1,
                              error_status := SL_STATUS_IN_PROGRESS\<rparr>)\<rparr>)
          else
            sl_cpc_system_cmd_timed_out pf (command d)
              (close_fd (file_descriptor d) (epoll_unregister command_handle s0)))"

definition sl_cpc_system_cmd_poll_acknowledged ::
  "sl_cpc_system_cmd \<Rightarrow> system_state \<Rightarrow> result" where
  "sl_cpc_system_cmd_poll_acknowledged acked_command s =
     (case find_command s (cmd_command_seq acked_command) of
        None \<Rightarrow>
          Inr (emit [Warn ''Received a system poll ack for which no pending poll is registered''] s)
      | Some command_handle \<Rightarrow>
          (case heap s command_handle of
             None \<Rightarrow> Inl (InvalidPointer, s)
           | Some d \<Rightarrow>
               if error_status d = SL_STATUS_OK then
                 (let (timer_fd, s1) = timerfd_create s in
                  if timerfd_settime_fails (timeout_tv_nsec (retry_timeout_us d))
                  then Inl (SyscallFailure, s1)
                  else
                    let s2 = emit [Timerfd_settime (Some timer_fd) (retry_timeout_us d) 0] s1;
                        s3 = s2\<lparr>heap := (heap s2)(command_handle \<mapsto>
                                          d\<lparr>file_descriptor := Some timer_fd\<rparr>)\<rparr>
                    in Inr (epoll_register command_handle s3))
               else if error_status d = SL_STATUS_IN_PROGRESS then
                 (if timerfd_settime_fails (timeout_tv_nsec (retry_timeout_us d))
                  then Inl (SyscallFailure, s)
                  else Inr (emit [Timerfd_settime (file_descriptor d) (retry_timeout_us d) 0] s))
               else
                 Inr (emit [Warn ''Received ACK on a command that timed out or is processed.. ignoring''] s)))"

definition sl_cpc_system_cmd_noop :: "callback \<Rightarrow> u8 \<Rightarrow> u32 \<Rightarrow> system_state \<Rightarrow> result" where
  "sl_cpc_system_cmd_noop on_noop_reply retry_count_max retry_timeout s =
     (let seq = next_command_seq s;
          (command_handle, s1) =
            malloc_handle
              \<lparr>command = \<lparr>cmd_command_id = CMD_SYSTEM_NOOP, cmd_command_seq = seq,
                           cmd_length = 0, cmd_payload = []\<rparr>,
               on_final = on_noop_reply, retry_count = retry_count_max,
               retry_timeout_us = retry_timeout, error_status = SL_STATUS_OK,
               command_seq = seq, file_descriptor = None\<rparr>
              (s\<lparr>next_command_seq := seq + 1\<rparr>)
      in write_command command_handle s1)"

definition sl_cpc_system_cmd_reboot :: "callback \<Rightarrow> u8 \<Rightarrow> u32 \<Rightarrow> system_state \<Rightarrow> result" where
  "sl_cpc_system_cmd_reboot on_reset_reply retry_count_max retry_timeout s =
     (let seq = next_command_seq s;
          (command_handle, s1) =
            malloc_handle
              \<lparr>command = \<lparr>cmd_command_id = CMD_SYSTEM_RESET, cmd_command_seq = seq,
                           cmd_length = 0, cmd_payload = []\<rparr>,
               on_final = on_reset_reply, retry_count = retry_count_max,
               retry_timeout_us = retry_timeout, error_status = SL_STATUS_OK,
               command_seq = seq, file_descriptor = None\<rparr>
              (s\<lparr>next_command_seq := seq + 1\<rparr>)
      in write_command command_handle s1)"

text \<open>
  The drain loop of \<^verbatim>\<open>sl_cpc_system_reset_system_endpoint\<close>: pop the head, warn,
  free the handle (not its buffer), until the table is empty.
\<close>

function drain_commands :: "system_state \<Rightarrow> system_state" where
  "drain_commands s =
     (case sl_slist_pop (commands s) of
        None \<Rightarrow> s
      | Some (command_handle, rest) \<Rightarrow>
          drain_commands
            (free_handle command_handle
               (emit [Warn ''Dropped system command id #%d seq#%d''] (s\<lparr>commands := rest\<rparr>))))"
  by pat_completeness auto
termination
  by (relation "measure (\<lambda>s. length (commands s))")
     (auto simp: sl_slist_pop_def free_handle_def emit_def split: list.splits)

definition sl_cpc_system_reset_system_endpoint :: "system_state \<Rightarrow> system_state" where
  "sl_cpc_system_reset_system_endpoint s =
     sl_cpc_system_open_endpoint
       (emit [Core_close_endpoint SL_CPC_ENDPOINT_SYSTEM]
          (drain_commands
             (emit [Core_write SL_CPC_ENDPOINT_SYSTEM [] SL_CPC_FLAG_UNNUMBERED_RESET_COMMAND,
                    Core_process_transmit_queue] s)))"

definition sl_cpc_system_cmd_property_get ::
  "platform \<Rightarrow> callback \<Rightarrow> u32 \<Rightarrow> u8 \<Rightarrow> u32 \<Rightarrow> system_state \<Rightarrow> result" where
  "sl_cpc_system_cmd_property_get pf on_property_get_reply property_id retry_count_max
       retry_timeout s =
     (let seq = next_command_seq s;
          (command_handle, s1) =
            malloc_handle
              \<lparr>command = \<lparr>cmd_command_id = CMD_SYSTEM_PROP_VALUE_GET, cmd_command_seq = seq,
                           cmd_length = of_nat sizeof_sl_cpc_property_id_t,
                           cmd_payload =
                             store (host_big_endian pf)
                               (cpu_to_le (host_big_endian pf) property_id)\<rparr>,
               on_final = on_property_get_reply, retry_count = retry_count_max,
               retry_timeout_us = retry_timeout, error_status = SL_STATUS_OK,
               command_seq = seq, file_descriptor = None\<rparr>
              (s\<lparr>next_command_seq := seq + 1\<rparr>)
      in write_command command_handle s1)"

text \<open>
  The value bytes that \<^verbatim>\<open>sl_cpc_system_cmd_property_set\<close> copies behind the
  property identifier: the \<^verbatim>\<open>switch (value_length)\<close> without its case 0.
  \<open>val\<close> is the memory the caller's pointer refers to.
\<close>

definition property_set_value :: "bool \<Rightarrow> u8 list \<Rightarrow> nat \<Rightarrow> u8 list" where
  "property_set_value be val value_length =
     (if value_length = 1 then take value_length val
      else if value_length = 2 then store be (cpu_to_le be (load be (take 2 val) :: u16))
      else if value_length = 4 then store be (cpu_to_le be (load be (take 4 val) :: u32))
      else if value_length = 8 then store be (cpu_to_le be (load be (take 8 val) :: u64))
      else take value_length val)"

definition sl_cpc_system_cmd_property_set ::
  "platform \<Rightarrow> callback \<Rightarrow> u8 \<Rightarrow> u32 \<Rightarrow> u32 \<Rightarrow> u8 list \<Rightarrow> size_t \<Rightarrow> system_state \<Rightarrow> result" where
  "sl_cpc_system_cmd_property_set pf on_property_set_reply retry_count_max retry_timeout
       property_id val value_length s =
     (if on_property_set_reply = NULL_callback then Inl (BugCheck, s)
      else
        let seq = next_command_seq s;
            s0 = s\<lparr>next_command_seq := seq + 1\<rparr>
        in if value_length = 0 then Inl (IllegalArgument, s0)
           else if length val < unat value_length then Inl (InvalidPointer, s0)
           else
             let (command_handle, s1) =
                   malloc_handle
                     \<lparr>command =
                        \<lparr>cmd_command_id = CMD_SYSTEM_PROP_VALUE_SET, cmd_command_seq = seq,
                         cmd_length = of_nat (sizeof_sl_cpc_property_id_t + unat value_length),
                         cmd_payload =
                           store (host_big_endian pf)
                             (cpu_to_le (host_big_endian pf) property_id)
                           @ property_set_value (host_big_endian pf) val (unat value_length)\<rparr>,
                      on_final = on_property_set_reply, retry_count = retry_count_max,
                      retry_timeout_us = retry_timeout, error_status = SL_STATUS_OK,
                      command_seq = seq, file_descriptor = None\<rparr>
                     s0
             in write_command command_handle s1)"


declare drain_commands.simps [simp del]

definition on_final_noop ::
  "handle \<Rightarrow> sl_cpc_system_command_handle \<Rightarrow> sl_cpc_system_cmd \<Rightarrow> system_state \<Rightarrow> result" where
  "on_final_noop command_handle d reply s =
     Inr (emit [Noop_callback (on_final d) command_handle (error_status d)] s)"

definition on_final_reset ::
  "platform \<Rightarrow> handle \<Rightarrow> sl_cpc_system_command_handle \<Rightarrow> sl_cpc_system_cmd \<Rightarrow>
   system_state \<Rightarrow> result" where
  "on_final_reset pf command_handle d reply s =
     (let s1 = s\<lparr>ignore_reset_reason := False\<rparr> in
      if length (cmd_payload reply) < 4 then Inl (InvalidPointer, s1)
      else
        let reset_status_le = (load (host_big_endian pf) (take 4 (cmd_payload reply)) :: u32);
            reset_status_cpu = le_to_cpu (host_big_endian pf) reset_status_le
        in Inr (emit [Reset_callback (on_final d) command_handle (error_status d)
                        (Status reset_status_cpu)] s1))"

definition on_final_property_is ::
  "platform \<Rightarrow> handle \<Rightarrow> sl_cpc_system_command_handle \<Rightarrow> sl_cpc_system_cmd \<Rightarrow>
   system_state \<Rightarrow> result" where
  "on_final_property_is pf command_handle d reply s =
     (if length (cmd_payload reply) < sizeof_sl_cpc_property_id_t then Inl (InvalidPointer, s)
      else
        let property_id_le =
              (load (host_big_endian pf)
                 (take sizeof_sl_cpc_property_id_t (cmd_payload reply)) :: u32);
            property_id_cpu = le_to_cpu (host_big_endian pf) property_id_le;
            value_length =
              (ucast (cmd_length reply) - of_nat sizeof_sl_cpc_system_property_cmd_t :: size_t)
        in Inr (emit [Property_callback (on_final d) command_handle property_id_cpu
                        (Some (take (unat value_length)
                                 (drop sizeof_sl_cpc_system_property_cmd_t (cmd_payload reply))))
                        value_length (error_status d)] s))"

text \<open>
  \<^verbatim>\<open>on_reply\<close>: the arguments \<^verbatim>\<open>endpoint_id\<close> and \<^verbatim>\<open>arg\<close> are
  unused in the source and left out. \<open>reply\<close> is the received buffer seen as a
  \<^verbatim>\<open>sl_cpc_system_cmd_t\<close>.
\<close>

definition on_reply ::
  "platform \<Rightarrow> sl_cpc_system_cmd \<Rightarrow> u32 \<Rightarrow> system_state \<Rightarrow> result" where
  "on_reply pf reply answer_lenght s =
     (if (ucast (cmd_length reply) :: size_t)
           \<noteq> ucast answer_lenght - of_nat sizeof_sl_cpc_system_cmd_t
      then Inl (MalformedFrame, s)
      else
        case find_command s (cmd_command_seq reply) of
          None \<Rightarrow>
            Inr (emit [Warn ''Received a system final for which no pending poll is registered''] s)
        | Some command_handle \<Rightarrow>
            (case heap s command_handle of
               None \<Rightarrow> Inl (InvalidPointer, s)
             | Some d \<Rightarrow>
                 let s1 = close_fd (file_descriptor d) (epoll_unregister command_handle s);
                     cid = cmd_command_id reply;
                     r = (if cid = CMD_SYSTEM_NOOP then on_final_noop command_handle d reply s1
                          else if cid = CMD_SYSTEM_RESET then
                            on_final_reset pf command_handle d reply s1
                          else if cid = CMD_SYSTEM_PROP_VALUE_IS then
                            on_final_property_is pf command_handle d reply s1
                          else if cid = CMD_SYSTEM_PROP_VALUE_GET
                                  \<or> cid = CMD_SYSTEM_PROP_VALUE_SET then
                            Inl (IllegalCommand, s1)
                          else Inl (IllegalCommand, s1))
                 in (case r of
                       Inl e \<Rightarrow> Inl e
                     | Inr s2 \<Rightarrow>
                         Inr (free_command_and_handle command_handle
                               (s2\<lparr>commands :=
                                     sl_slist_remove (commands s2) command_handle\<rparr>)))))"

text \<open>
  The listener loop of \<^verbatim>\<open>on_unsolicited\<close> for \<^verbatim>\<open>PROP_LAST_STATUS\<close>:
  each registered callback receives the four bytes behind the property identifier, read
  as they lie in host memory.
\<close>

definition last_status_dispatch :: "bool \<Rightarrow> u8 list \<Rightarrow> system_state \<Rightarrow> result" where
  "last_status_dispatch be property_payload s =
     (if prop_last_status_callbacks s = [] then Inr s
      else if length property_payload < 4 then Inl (InvalidPointer, s)
      else
        Inr (emit (map (\<lambda>cb. Last_status_callback cb (load be (take 4 property_payload)))
                     (prop_last_status_callbacks s)) s))"

definition core_set_endpoint_in_error ::
  "u8 \<Rightarrow> cpc_endpoint_state \<Rightarrow> system_state \<Rightarrow> system_state" where
  "core_set_endpoint_in_error ep reason s =
     emit [Core_set_endpoint_in_error ep reason]
       (s\<lparr>endpoint_state := (endpoint_state s)(ep := reason)\<rparr>)"

definition on_unsolicited ::
  "platform \<Rightarrow> sl_cpc_system_cmd \<Rightarrow> size_t \<Rightarrow> system_state \<Rightarrow> result" where
  "on_unsolicited pf reply data_len s =
     (if (ucast (cmd_length reply) :: size_t) \<noteq> data_len - of_nat sizeof_sl_cpc_system_cmd_t
      then Inl (MalformedFrame, s)
      else if cmd_command_id reply = CMD_SYSTEM_PROP_VALUE_IS then
        (if length (cmd_payload reply) < sizeof_sl_cpc_property_id_t then Inl (InvalidPointer, s)
         else
           let property_id =
                 (load (host_big_endian pf)
                    (take sizeof_sl_cpc_property_id_t (cmd_payload reply)) :: u32)
           in if property_id = PROP_LAST_STATUS then
                last_status_dispatch (host_big_endian pf)
                  (drop sizeof_sl_cpc_system_property_cmd_t (cmd_payload reply)) s
              else if property_id \<ge> PROP_ENDPOINT_STATE_0 pf
                      \<and> property_id \<le> PROP_ENDPOINT_STATE_255 pf then
                (let closed_endpoint_id = PROPERTY_ID_TO_EP_ID pf property_id;
                     s1 = (if \<not> listener_list_empty s closed_endpoint_id
                              \<and> endpoint_state s closed_endpoint_id = SL_CPC_STATE_OPEN
                           then core_set_endpoint_in_error closed_endpoint_id
                                  SL_CPC_STATE_ERROR_DESTINATION_UNREACHABLE s
                           else s)
                 in sl_cpc_system_cmd_property_set pf
                      reply_to_closing_endpoint_on_secondary_callback 5 100000 property_id
                      (store (host_big_endian pf) (SL_CPC_STATE_CLOSED_value pf)) 4 s1)
              else Inl (IllegalCommand, s))
      else Inr s)"

section \<open>Unnumbered Poll implementation (server/system/system.c)\<close>

definition sl_cpc_system_init_uframe ::
  "(u8 \<Rightarrow> cpc_endpoint_state) \<Rightarrow> (u8 \<Rightarrow> bool) \<Rightarrow> system_state" where
  "sl_cpc_system_init_uframe es le =
     emit [Core_open_endpoint SL_CPC_ENDPOINT_SYSTEM True,
           Core_set_endpoint_option SL_CPC_ENDPOINT_SYSTEM SL_CPC_ENDPOINT_ON_FINAL,
           Core_set_endpoint_option SL_CPC_ENDPOINT_SYSTEM SL_CPC_ENDPOINT_ON_UFRAME_RECEIVE]
       \<lparr>next_command_seq = 0, commands = [], heap = Map.empty, next_handle = 0,
        timer_fds = [], next_fd = 0, epoll_set = [], prop_last_status_callbacks = [],
        ignore_reset_reason = False, endpoint_state = es, listener_list_empty = le,
        trace = []\<rparr>"

definition write_command_uframe :: "handle \<Rightarrow> system_state \<Rightarrow> result" where
  "write_command_uframe command_handle s =
     (case heap s command_handle of
        None \<Rightarrow> Inl (InvalidPointer, s)
      | Some d \<Rightarrow>
          let s1 = emit [Core_write SL_CPC_ENDPOINT_SYSTEM (command_bytes (command d))
                           SL_CPC_FLAG_UNNUMBERED_POLL]
                     (s\<lparr>commands := sl_slist_push_back (commands s) command_handle\<rparr>);
              (timer_fd, s2) = timerfd_create s1
          in if timerfd_settime_fails (timeout_tv_nsec (retry_timeout_us d))
             then Inl (SyscallFailure, s2)
             else
               let s3 = emit [Timerfd_settime (Some timer_fd) (retry_timeout_us d)
                                (retry_timeout_us d)] s2;
                   s4 = s3\<lparr>heap := (heap s3)(command_handle \<mapsto>
                                     d\<lparr>file_descriptor := Some timer_fd\<rparr>)\<rparr>
               in Inr (epoll_register command_handle s4))"

definition sl_cpc_system_cmd_noop_uframe ::
  "callback \<Rightarrow> u8 \<Rightarrow> u32 \<Rightarrow> system_state \<Rightarrow> result" where
  "sl_cpc_system_cmd_noop_uframe on_noop_reply retry_count_max retry_timeout s =
     (let seq = next_command_seq s;
          (command_handle, s1) =
            malloc_handle
              \<lparr>command = \<lparr>cmd_command_id = CMD_SYSTEM_NOOP, cmd_command_seq = seq,
                           cmd_length = 0, cmd_payload = []\<rparr>,
               on_final = on_noop_reply, retry_count = retry_count_max,
               retry_timeout_us = retry_timeout, error_status = SL_STATUS_OK,
               command_seq = seq, file_descriptor = None\<rparr>
              (s\<lparr>next_command_seq := seq + 1\<rparr>)
      in write_command_uframe command_handle s1)"

definition sl_cpc_system_cmd_reset_uframe ::
  "callback \<Rightarrow> u8 \<Rightarrow> u32 \<Rightarrow> system_state \<Rightarrow> result" where
  "sl_cpc_system_cmd_reset_uframe on_reset_reply retry_count_max retry_timeout s =
     (let seq = next_command_seq s;
          (command_handle, s1) =
            malloc_handle
              \<lparr>command = \<lparr>cmd_command_id = CMD_SYSTEM_RESET, cmd_command_seq = seq,
                           cmd_length = 0, cmd_payload = []\<rparr>,
               on_final = on_reset_reply, retry_count = retry_count_max,
               retry_timeout_us = retry_timeout, error_status = SL_STATUS_OK,
               command_seq = seq, file_descriptor = None\<rparr>
              (s\<lparr>next_command_seq := seq + 1\<rparr>)
      in write_command_uframe command_handle s1)"

definition sl_cpc_system_cmd_property_get_uframe ::
  "platform \<Rightarrow> callback \<Rightarrow> u32 \<Rightarrow> u8 \<Rightarrow> u32 \<Rightarrow> system_state \<Rightarrow> result" where
  "sl_cpc_system_cmd_property_get_uframe pf on_property_get_reply property_id retry_count_max
       retry_timeout s =
     (let seq = next_command_seq s;
          (command_handle, s1) =
            malloc_handle
              \<lparr>command = \<lparr>cmd_command_id = CMD_SYSTEM_PROP_VALUE_GET, cmd_command_seq = seq,
                           cmd_length = of_nat sizeof_sl_cpc_property_id_t,
                           cmd_payload =
                             store (host_big_endian pf)
                               (cpu_to_le (host_big_endian pf) property_id)\<rparr>,
               on_final = on_property_get_reply, retry_count = retry_count_max,
               retry_timeout_us = retry_timeout, error_status = SL_STATUS_OK,
               command_seq = seq, file_descriptor = None\<rparr>
              (s\<lparr>next_command_seq := seq + 1\<rparr>)
      in write_command_uframe command_handle s1)"

definition sl_cpc_system_cmd_property_set_uframe ::
  "platform \<Rightarrow> callback \<Rightarrow> u8 \<Rightarrow> u32 \<Rightarrow> u32 \<Rightarrow> u8 list \<Rightarrow> size_t \<Rightarrow> system_state \<Rightarrow> result" where
  "sl_cpc_system_cmd_property_set_uframe pf on_property_set_reply retry_count_max retry_timeout
       property_id val value_length s =
     (let seq = next_command_seq s;
          s0 = s\<lparr>next_command_seq := seq + 1\<rparr>
      in if value_length = 0 then Inl (IllegalArgument, s0)
         else if length val < unat value_length then Inl (InvalidPointer, s0)
         else
           let (command_handle, s1) =
                 malloc_handle
                   \<lparr>command =
                      \<lparr>cmd_command_id = CMD_SYSTEM_PROP_VALUE_SET, cmd_command_seq = seq,
                       cmd_length = of_nat (sizeof_sl_cpc_property_id_t + unat value_length),
                       cmd_payload =
                         store (host_big_endian pf)
                           (cpu_to_le (host_big_endian pf) property_id)
                         @ property_set_value (host_big_endian pf) val (unat value_length)\<rparr>,
                    on_final = on_property_set_reply, retry_count = retry_count_max,
                    retry_timeout_us = retry_timeout, error_status = SL_STATUS_OK,
                    command_seq = seq, file_descriptor = None\<rparr>
                   s0
           in write_command_uframe command_handle s1)"

definition on_final_reset_uframe ::
  "platform \<Rightarrow> handle \<Rightarrow> sl_cpc_system_command_handle \<Rightarrow> sl_cpc_system_cmd \<Rightarrow>
   system_state \<Rightarrow> result" where
  "on_final_reset_uframe pf command_handle d reply s =
     (if length (cmd_payload reply) < 4 then Inl (InvalidPointer, s)
      else
        let reset_status_le = (load (host_big_endian pf) (take 4 (cmd_payload reply)) :: u32);
            reset_status_cpu = le_to_cpu (host_big_endian pf) reset_status_le
        in Inr (emit [Reset_callback (on_final d) command_handle (error_status d)
                        (Status reset_status_cpu)] s))"

definition on_reply_uframe ::
  "platform \<Rightarrow> sl_cpc_system_cmd \<Rightarrow> u32 \<Rightarrow> system_state \<Rightarrow> result" where
  "on_reply_uframe pf reply answer_lenght s =
     (if (ucast (cmd_length reply) :: size_t)
           \<noteq> ucast answer_lenght - of_nat sizeof_sl_cpc_system_cmd_t
      then Inl (MalformedFrame, s)
      else
        case find_command s (cmd_command_seq reply) of
          None \<Rightarrow> Inr s
        | Some command_handle \<Rightarrow>
            (case heap s command_handle of
               None \<Rightarrow> Inl (InvalidPointer, s)
             | Some d \<Rightarrow>
                 let s1 = close_fd (file_descriptor d) (epoll_unregister command_handle s);
                     cid = cmd_command_id reply;
                     r = (if cid = CMD_SYSTEM_NOOP then on_final_noop command_handle d reply s1
                          else if cid = CMD_SYSTEM_RESET then
                            on_final_reset_uframe pf command_handle d reply s1
                          else if cid = CMD_SYSTEM_PROP_VALUE_IS then
                            on_final_property_is pf command_handle d reply s1
                          else if cid = CMD_SYSTEM_PROP_VALUE_GET
                                  \<or> cid = CMD_SYSTEM_PROP_VALUE_SET then
                            Inl (IllegalCommand, s1)
                          else Inl (IllegalCommand, s1))
                 in (case r of
                       Inl e \<Rightarrow> Inl e
                     | Inr s2 \<Rightarrow>
                         Inr (free_command_and_handle command_handle
                               (s2\<lparr>commands :=
                                     sl_slist_remove (commands s2) command_handle\<rparr>)))))"

definition on_unsolicited_uframe ::
  "platform \<Rightarrow> sl_cpc_system_cmd \<Rightarrow> size_t \<Rightarrow> system_state \<Rightarrow> result" where
  "on_unsolicited_uframe pf reply data_len s =
     (if (ucast (cmd_length reply) :: size_t) \<noteq> data_len - of_nat sizeof_sl_cpc_system_cmd_t
      then Inl (MalformedFrame, s)
      else if cmd_command_id reply = CMD_SYSTEM_PROP_VALUE_IS then
        (if length (cmd_payload reply) < sizeof_sl_cpc_property_id_t then Inl (InvalidPointer, s)
         else
           let property_id =
                 (load (host_big_endian pf)
                    (take sizeof_sl_cpc_property_id_t (cmd_payload reply)) :: u32)
           in if property_id = PROP_LAST_STATUS then
                last_status_dispatch (host_big_endian pf)
                  (drop sizeof_sl_cpc_system_property_cmd_t (cmd_payload reply)) s
              else Inr s)
      else Inr s)"

definition on_timer_expired_uframe :: "platform \<Rightarrow> handle \<Rightarrow> system_state \<Rightarrow> result" where
  "on_timer_expired_uframe pf command_handle s =
     (case heap s command_handle of
        None \<Rightarrow> Inl (InvalidPointer, s)
      | Some d0 \<Rightarrow>
          let s0 = emit [Timerfd_read (file_descriptor d0)] s in
          if retry_count d0 > 0 then
            Inr (emit [Core_write SL_CPC_ENDPOINT_SYSTEM (command_bytes (command d0))
                         SL_CPC_FLAG_UNNUMBERED_POLL]
                   (s0\<lparr>heap := (heap s0)(command_handle \<mapsto>
                                  d0\<lparr>retry_count := retry_count d0 - 1,
                                     error_status := SL_STATUS_IN_PROGRESS\<rparr>)\<rparr>))
          else
            let s1 = close_fd (file_descriptor d0) (epoll_unregister command_handle s0);
                d = d0\<lparr>error_status := SL_STATUS_TIMEOUT\<rparr>;
                s2 = s1\<lparr>commands := sl_slist_remove (commands s1) command_handle,
                        heap := (heap s1)(command_handle \<mapsto> d)\<rparr>;
                cid = cmd_command_id (command d)
            in if cid = CMD_SYSTEM_NOOP then
                 Inr (free_command_and_handle command_handle
                       (emit [Noop_callback (on_final d) command_handle (error_status d)] s2))
               else if cid = CMD_SYSTEM_RESET then
                 Inr (free_command_and_handle command_handle
                       (emit [Reset_callback (on_final d) command_handle (error_status d)
                                STATUS_FAILURE] s2))
               else if cid = CMD_SYSTEM_PROP_VALUE_GET \<or> cid = CMD_SYSTEM_PROP_VALUE_SET then
                 (if length (cmd_payload (command d)) < sizeof_sl_cpc_property_id_t
                  then Inl (InvalidPointer, s2)
                  else
                    Inr (free_command_and_handle command_handle
                          (emit [Property_callback (on_final d) command_handle
                                   (load (host_big_endian pf)
                                      (take sizeof_sl_cpc_property_id_t
                                         (cmd_payload (command d))))
                                   None 0 (error_status d)] s2)))
               else Inl (BugCheck, s2))"


section \<open>The event loop\<close>

text \<open>
  Everything runs on one event loop: issuer calls, the hooks Core invokes, timer
  expirations and the reset of the endpoint arrive one at a time. An input names the
  function called and its arguments; \<open>run\<close> feeds a sequence of inputs to the
  Information Poll implementation and stops at the first fatal error.
\<close>

datatype input =
  Cmd_noop callback u8 u32
| Cmd_reboot callback u8 u32
| Cmd_property_get callback u32 u8 u32
| Cmd_property_set callback u8 u32 u32 "u8 list" size_t
| Poll_acknowledged sl_cpc_system_cmd
| Reply sl_cpc_system_cmd u32
| Unsolicited sl_cpc_system_cmd size_t
| Timer_expired handle
| Reset_system_endpoint
| Register_last_status_callback callback

fun step :: "platform \<Rightarrow> input \<Rightarrow> system_state \<Rightarrow> result" where
  "step pf (Cmd_noop cb rc rt) s = sl_cpc_system_cmd_noop cb rc rt s"
| "step pf (Cmd_reboot cb rc rt) s = sl_cpc_system_cmd_reboot cb rc rt s"
| "step pf (Cmd_property_get cb pid rc rt) s = sl_cpc_system_cmd_property_get pf cb pid rc rt s"
| "step pf (Cmd_property_set cb rc rt pid v n) s =
     sl_cpc_system_cmd_property_set pf cb rc rt pid v n s"
| "step pf (Poll_acknowledged c) s = sl_cpc_system_cmd_poll_acknowledged c s"
| "step pf (Reply c n) s = on_reply pf c n s"
| "step pf (Unsolicited c n) s = on_unsolicited pf c n s"
| "step pf (Timer_expired h) s = on_timer_expired pf h s"
| "step pf Reset_system_endpoint s = Inr (sl_cpc_system_reset_system_endpoint s)"
| "step pf (Register_last_status_callback cb) s =
     Inr (sl_cpc_system_register_unsolicited_prop_last_status_callback cb s)"

fun run :: "platform \<Rightarrow> input list \<Rightarrow> system_state \<Rightarrow> result" where
  "run pf [] s = Inr s"
| "run pf (i # ins) s = (case step pf i s of Inl e \<Rightarrow> Inl e | Inr s' \<Rightarrow> run pf ins s')"

subsection \<open>Predicates on states and runs\<close>

text \<open>The sequence numbers of the descriptors in the command table, in table order.\<close>

definition table_seqs :: "system_state \<Rightarrow> u8 option list" where
  "table_seqs s = map (\<lambda>h. map_option command_seq (heap s h)) (commands s)"

text \<open>No two live descriptors share a sequence number.\<close>

definition unique_seqs :: "system_state \<Rightarrow> bool" where
  "unique_seqs s = distinct (table_seqs s)"

text \<open>
  The store and the table agree: the table holds every allocated handle once, and
  \<^verbatim>\<open>malloc\<close> has not handed out an address at or above \<open>next_handle\<close>.
\<close>

definition well_formed :: "system_state \<Rightarrow> bool" where
  "well_formed s =
     (distinct (commands s) \<and> set (commands s) = dom (heap s)
      \<and> list_all (\<lambda>h. h < next_handle s) (commands s))"

text \<open>An input issues a command when it advances the sequence counter.\<close>

definition issues :: "platform \<Rightarrow> input \<Rightarrow> system_state \<Rightarrow> bool" where
  "issues pf i s =
     (case step pf i s of
        Inl e \<Rightarrow> False
      | Inr s' \<Rightarrow> next_command_seq s' \<noteq> next_command_seq s)"

text \<open>
  A run in which no command is issued while the counter's value is the sequence number
  of a live descriptor.
\<close>

fun issues_fresh :: "platform \<Rightarrow> input list \<Rightarrow> system_state \<Rightarrow> bool" where
  "issues_fresh pf [] s = True"
| "issues_fresh pf (i # ins) s =
     (case step pf i s of
        Inl e \<Rightarrow> True
      | Inr s' \<Rightarrow>
          (issues pf i s \<longrightarrow> Some (next_command_seq s) \<notin> set (table_seqs s))
          \<and> issues_fresh pf ins s')"

text \<open>
  The number of retransmissions of the descriptor at \<open>h\<close> along a run: the timer
  expirations for \<open>h\<close> that find it allocated with retries left.
\<close>

fun retransmissions :: "platform \<Rightarrow> handle \<Rightarrow> input list \<Rightarrow> system_state \<Rightarrow> nat" where
  "retransmissions pf h [] s = 0"
| "retransmissions pf h (i # ins) s =
     (case step pf i s of
        Inl e \<Rightarrow> 0
      | Inr s' \<Rightarrow>
          (if i = Timer_expired h
              \<and> (case heap s h of None \<Rightarrow> False | Some d \<Rightarrow> retry_count d > 0)
           then 1 else 0)
          + retransmissions pf h ins s')"

text \<open>The events that create a timer or put one on the event loop.\<close>

fun is_timer_setup :: "event \<Rightarrow> bool" where
  "is_timer_setup (Timerfd_create fd) = True"
| "is_timer_setup (Epoll_register h) = True"
| "is_timer_setup e = False"

definition timer_setups :: "system_state \<Rightarrow> event list" where
  "timer_setups s = filter is_timer_setup (trace s)"

subsection \<open>Wire order of a value; example configurations\<close>

text \<open>
  The little-endian bytes of the number that the bytes \<open>v\<close> hold in host memory: what a
  value of 2, 4 or 8 bytes looks like on the wire.
\<close>

definition wire_value :: "bool \<Rightarrow> u8 list \<Rightarrow> u8 list" where
  "wire_value be v = le_bytes (length v) (host_value be v)"


text \<open>Concrete platforms, a freshly initialised endpoint and a command handle.\<close>

definition big_endian_host :: platform where
  "big_endian_host =
     \<lparr>host_big_endian = True, PROP_ENDPOINT_STATE_0 = 0x1000, SL_CPC_STATE_CLOSED_value = 1\<rparr>"

definition little_endian_host :: platform where
  "little_endian_host =
     \<lparr>host_big_endian = False, PROP_ENDPOINT_STATE_0 = 0x1000, SL_CPC_STATE_CLOSED_value = 1\<rparr>"

definition boot :: system_state where
  "boot = sl_cpc_system_init (\<lambda>ep. SL_CPC_STATE_OPEN) (\<lambda>ep. False)"

definition example_handle :: sl_cpc_system_command_handle where
  "example_handle =
     \<lparr>command = \<lparr>cmd_command_id = CMD_SYSTEM_PROP_VALUE_SET, cmd_command_seq = 0,
                  cmd_length = 8,
                  cmd_payload = [0x0A, 0x00, 0x00, 0x00, 0x78, 0x56, 0x34, 0x12]\<rparr>,
      on_final = User_callback 0, retry_count = 0, retry_timeout_us = 100000,
      error_status = SL_STATUS_OK, command_seq = 0, file_descriptor = None\<rparr>"

text \<open>
  A freshly initialised endpoint of the Unnumbered Poll implementation, and two frames
  without payload: a no-op and one whose command identifier is not defined.
\<close>

definition boot_uframe :: system_state where
  "boot_uframe = sl_cpc_system_init_uframe (\<lambda>ep. SL_CPC_STATE_OPEN) (\<lambda>ep. False)"

definition noop_frame :: sl_cpc_system_cmd where
  "noop_frame = \<lparr>cmd_command_id = CMD_SYSTEM_NOOP, cmd_command_seq = 0, cmd_length = 0,
                  cmd_payload = []\<rparr>"

definition unknown_frame :: sl_cpc_system_cmd where
  "unknown_frame = \<lparr>cmd_command_id = 0x7F, cmd_command_seq = 0, cmd_length = 0,
                     cmd_payload = []\<rparr>"

text \<open>
  The final handler an event calls, with the command handle and the status it passes.
\<close>

fun final_handler_call :: "event \<Rightarrow> (callback \<times> handle \<times> sl_status) option" where
  "final_handler_call (Noop_callback cb h st) = Some (cb, h, st)"
| "final_handler_call (Reset_callback cb h st r) = Some (cb, h, st)"
| "final_handler_call (Property_callback cb h pid v n st) = Some (cb, h, st)"
| "final_handler_call e = None"

text \<open>
  The command buffers the four issuers fill: a no-op or a reset, or a property command
  whose payload starts with the four bytes of the property identifier.
\<close>

definition issued_command :: "sl_cpc_system_cmd \<Rightarrow> bool" where
  "issued_command c =
     (cmd_command_id c = CMD_SYSTEM_NOOP \<or> cmd_command_id c = CMD_SYSTEM_RESET
      \<or> ((cmd_command_id c = CMD_SYSTEM_PROP_VALUE_GET
           \<or> cmd_command_id c = CMD_SYSTEM_PROP_VALUE_SET)
          \<and> sizeof_sl_cpc_property_id_t \<le> length (cmd_payload c)))"

text \<open>
  The call of the final handler on the terminal timeout of a descriptor holding such a
  buffer: the switch on the command identifier in \<^verbatim>\<open>sl_cpc_system_cmd_timed_out\<close>
  and in the Unnumbered Poll \<^verbatim>\<open>on_timer_expired\<close>.
\<close>

definition timeout_event :: "platform \<Rightarrow> handle \<Rightarrow> sl_cpc_system_command_handle \<Rightarrow> event" where
  "timeout_event pf h d =
     (if cmd_command_id (command d) = CMD_SYSTEM_NOOP then
        Noop_callback (on_final d) h SL_STATUS_TIMEOUT
      else if cmd_command_id (command d) = CMD_SYSTEM_RESET then
        Reset_callback (on_final d) h SL_STATUS_TIMEOUT STATUS_FAILURE
      else
        Property_callback (on_final d) h
          (load (host_big_endian pf) (take sizeof_sl_cpc_property_id_t (cmd_payload (command d))))
          None 0 SL_STATUS_TIMEOUT)"

text \<open>
  An unsolicited property-is frame for the state of endpoint 7, the handle and the state
  after a property-get of property \<open>0x0A\<close> without retries on a big-endian host,
  and a property-is reply for it.
\<close>

definition endpoint_state_frame :: sl_cpc_system_cmd where
  "endpoint_state_frame =
     \<lparr>cmd_command_id = CMD_SYSTEM_PROP_VALUE_IS, cmd_command_seq = 0, cmd_length = 8,
      cmd_payload = [0x07, 0x10, 0x00, 0x00, 0x00, 0x00, 0x00, 0x00]\<rparr>"

definition property_get_handle :: sl_cpc_system_command_handle where
  "property_get_handle =
     \<lparr>command = \<lparr>cmd_command_id = CMD_SYSTEM_PROP_VALUE_GET, cmd_command_seq = 0,
                  cmd_length = 4, cmd_payload = [0x0A, 0x00, 0x00, 0x00]\<rparr>,
      on_final = User_callback 0, retry_count = 0, retry_timeout_us = 100000,
      error_status = SL_STATUS_OK, command_seq = 0, file_descriptor = None\<rparr>"

definition property_is_frame :: sl_cpc_system_cmd where
  "property_is_frame =
     \<lparr>cmd_command_id = CMD_SYSTEM_PROP_VALUE_IS, cmd_command_seq = 0, cmd_length = 5,
      cmd_payload = [0x0A, 0x00, 0x00, 0x00, 0x2A]\<rparr>"

definition after_property_get :: system_state where
  "after_property_get =
     boot\<lparr>next_command_seq := 1, commands := [0], heap := [0 \<mapsto> property_get_handle],
          next_handle := 1,
          trace := trace boot @
            [Core_write SL_CPC_ENDPOINT_SYSTEM
               [CMD_SYSTEM_PROP_VALUE_GET, 0, 4, 0x0A, 0x00, 0x00, 0x00]
               SL_CPC_FLAG_INFORMATION_POLL]\<rparr>"

text \<open>
  Four inputs: a no-op with one retry, a reboot, the poll acknowledgement of the no-op
  and the expiry of its timer.
\<close>

definition example_inputs :: "input list" where
  "example_inputs =
     [Cmd_noop (User_callback 0) 1 1000, Cmd_reboot (User_callback 1) 0 1000,
      Poll_acknowledged noop_frame, Timer_expired 0]"

text \<open>The retries a descriptor has left; 0 once it is freed.\<close>

definition retries_left :: "system_state \<Rightarrow> handle \<Rightarrow> nat" where
  "retries_left s h = (case heap s h of None \<Rightarrow> 0 | Some d \<Rightarrow> unat (retry_count d))"

text \<open>
  The state after a no-op with one retry was issued at a freshly initialised endpoint,
  and its command handle.
\<close>

definition noop_handle :: sl_cpc_system_command_handle where
  "noop_handle =
     \<lparr>command = noop_frame, on_final = User_callback 0, retry_count = 1,
      retry_timeout_us = 1000, error_status = SL_STATUS_OK, command_seq = 0,
      file_descriptor = None\<rparr>"

definition after_noop :: system_state where
  "after_noop =
     boot\<lparr>next_command_seq := 1, commands := [0], heap := [0 \<mapsto> noop_handle],
          next_handle := 1,
          trace := trace boot @
            [Core_write SL_CPC_ENDPOINT_SYSTEM [CMD_SYSTEM_NOOP, 0, 0]
               SL_CPC_FLAG_INFORMATION_POLL]\<rparr>"

text \<open>
  The state after a no-op with one retry was issued, acknowledged and retransmitted once.
\<close>

definition after_noop_retry :: system_state where
  "after_noop_retry =
     (case run little_endian_host
             [Cmd_noop (User_callback 0) 1 1000, Poll_acknowledged noop_frame, Timer_expired 0]
             boot of
        Inl (e, s) \<Rightarrow> s
      | Inr s \<Rightarrow> s)"

text \<open>
  Modelled from the spec: which timers are set is the Timer Service's knowledge and not in
  the sources at hand. It is read off the trace: \<^verbatim>\<open>timerfd_settime\<close> sets a timer
  with its interval, or leaves it unset when the value is 0; the read of an expiry leaves
  a one-shot timer (interval 0) unset, and \<^verbatim>\<open>close\<close> destroys the timer.
\<close>

fun timer_event :: "event \<Rightarrow> (nat \<rightharpoonup> u32) \<Rightarrow> (nat \<rightharpoonup> u32)" where
  "timer_event (Timerfd_settime (Some fd) v i) a = (if v = 0 then a(fd := None) else a(fd \<mapsto> i))"
| "timer_event (Timerfd_read (Some fd)) a = (if a fd = Some 0 then a(fd := None) else a)"
| "timer_event (Close_fd (Some fd)) a = a(fd := None)"
| "timer_event e a = a"

definition armed :: "system_state \<Rightarrow> (nat \<rightharpoonup> u32)" where
  "armed s = foldl (\<lambda>a e. timer_event e a) Map.empty (trace s)"

text \<open>
  The timer of the descriptor at \<open>h\<close> can expire: the handle is allocated, its timer is
  set and it is registered on the event loop.
\<close>

definition timer_may_fire :: "system_state \<Rightarrow> handle \<Rightarrow> bool" where
  "timer_may_fire s h =
     (case heap s h of
        None \<Rightarrow> False
      | Some d \<Rightarrow>
          (case file_descriptor d of
             None \<Rightarrow> False
           | Some fd \<Rightarrow> armed s fd \<noteq> None \<and> h \<in> set (epoll_set s)))"

text \<open>A run in which a timer expires only when it can.\<close>

fun timers_fire_when_set :: "platform \<Rightarrow> input list \<Rightarrow> system_state \<Rightarrow> bool" where
  "timers_fire_when_set pf [] s = True"
| "timers_fire_when_set pf (i # ins) s =
     ((case i of Timer_expired h \<Rightarrow> timer_may_fire s h | _ \<Rightarrow> True)
      \<and> (case step pf i s of Inl e \<Rightarrow> True | Inr s' \<Rightarrow> timers_fire_when_set pf ins s'))"

text \<open>
  What holds of the descriptors in every state such a run reaches: the buffer carries the
  handle's sequence number and was filled by an issuer; timer descriptors are below
  \<open>next_fd\<close> and not shared between handles; a handle whose timer is set is the one
  the table finds under its sequence number; every timer that is set is one-shot.
\<close>

definition descriptor_ok :: "system_state \<Rightarrow> handle \<Rightarrow> sl_cpc_system_command_handle \<Rightarrow> bool" where
  "descriptor_ok s h d =
     (cmd_command_seq (command d) = command_seq d \<and> issued_command (command d)
      \<and> (\<forall>fd. file_descriptor d = Some fd \<longrightarrow>
            fd < next_fd s
            \<and> (\<forall>h' d'. heap s h' = Some d' \<and> file_descriptor d' = Some fd \<longrightarrow> h' = h)
            \<and> (armed s fd \<noteq> None \<longrightarrow> find_command s (command_seq d) = Some h)))"

definition timer_inv :: "system_state \<Rightarrow> bool" where
  "timer_inv s =
     (well_formed s
      \<and> (\<forall>h d. heap s h = Some d \<longrightarrow> descriptor_ok s h d)
      \<and> (\<forall>fd i. armed s fd = Some i \<longrightarrow> i = 0))"

text \<open>
  The state after a no-op with one retry was issued, acknowledged, retransmitted once and
  acknowledged again: its timer is set, no retries are left. The four inputs that lead
  there from a freshly initialised endpoint.
\<close>

definition after_noop_rearmed :: system_state where
  "after_noop_rearmed =
     after_noop
       \<lparr>commands := [0],
        heap := [0 \<mapsto> noop_handle\<lparr>retry_count := 0, error_status := SL_STATUS_IN_PROGRESS,
                                    file_descriptor := Some 0\<rparr>],
        timer_fds := [0], next_fd := 1, epoll_set := [0],
        trace := trace after_noop @
          [Timerfd_create 0, Timerfd_settime (Some 0) 1000 0, Epoll_register 0,
           Timerfd_read (Some 0),
           Core_write SL_CPC_ENDPOINT_SYSTEM [CMD_SYSTEM_NOOP, 0, 0] SL_CPC_FLAG_INFORMATION_POLL,
           Timerfd_settime (Some 0) 1000 0]\<rparr>"

definition rearm_inputs :: "input list" where
  "rearm_inputs =
     [Cmd_noop (User_callback 0) 1 1000, Poll_acknowledged noop_frame, Timer_expired 0,
      Poll_acknowledged noop_frame]"


section \<open>Properties\<close>

subsection \<open>Byte order and the property codec\<close>

lemma length_le_bytes [simp]: "length (le_bytes n v) = n"
  by (induction n arbitrary: v) auto

lemma le_value_lt: "le_value bs < 256 ^ length bs"
proof (induction bs)
  case Nil
  then show ?case by simp
next
  case (Cons b bs)
  have "unat b < 256" using unsigned_less [of b, where ?'a = nat] by simp
  with Cons show ?case by simp
qed

lemma le_value_le_bytes: "le_value (le_bytes n v) = v mod 256 ^ n"
proof (induction n arbitrary: v)
  case 0
  then show ?case by simp
next
  case (Suc n)
  have "unat (of_nat (v mod 256) :: u8) = v mod 256"
    by (simp add: unat_of_nat)
  with Suc show ?case
    by (simp add: mod_mult2_eq)
qed

lemma le_bytes_le_value: "le_bytes (length bs) (le_value bs) = bs"
proof (induction bs)
  case Nil
  then show ?case by simp
next
  case (Cons b bs)
  have "unat b < 256" using unsigned_less [of b, where ?'a = nat] by simp
  with Cons show ?case by simp
qed

lemma le_value_rev_lt: "le_value (rev bs) < 256 ^ length bs"
  using le_value_lt [of "rev bs"] by simp

lemma pow256: "(256::nat) ^ (n div 8) \<le> 2 ^ n"
proof -
  have "(256::nat) ^ (n div 8) = 2 ^ (8 * (n div 8))"
    by (simp add: power_mult)
  also have "\<dots> \<le> 2 ^ n"
    by (rule power_increasing) simp_all
  finally show ?thesis .
qed

lemma unat_bswap:
  "unat (bswap w :: 'a::len word) = le_value (rev (le_bytes (LENGTH('a) div 8) (unat w)))"
proof -
  have "le_value (rev (le_bytes (LENGTH('a) div 8) (unat w))) < 256 ^ (LENGTH('a) div 8)"
    using le_value_rev_lt [of "le_bytes (LENGTH('a) div 8) (unat w)"] by simp
  also have "\<dots> \<le> 2 ^ LENGTH('a)" by (rule pow256)
  finally show ?thesis
    by (simp add: bswap_def unat_of_nat)
qed

lemma store_cpu_to_le:
  assumes "8 dvd LENGTH('a::len)"
  shows "store be (cpu_to_le be (w :: 'a word)) = le_bytes (LENGTH('a) div 8) (unat w)"
proof (cases be)
  case False
  then show ?thesis by (simp add: store_def cpu_to_le_def host_bytes_def)
next
  case True
  have "le_bytes (LENGTH('a) div 8) (le_value (rev (le_bytes (LENGTH('a) div 8) (unat w))))
        = rev (le_bytes (LENGTH('a) div 8) (unat w))"
    using le_bytes_le_value [of "rev (le_bytes (LENGTH('a) div 8) (unat w))"] by simp
  with True show ?thesis
    by (simp add: store_def cpu_to_le_def host_bytes_def unat_bswap)
qed

lemma unat_load:
  assumes "length bs = LENGTH('a::len) div 8"
  shows "unat (load be bs :: 'a word) = host_value be bs"
proof -
  have "host_value be bs < 256 ^ length bs"
    using le_value_lt [of bs] le_value_rev_lt [of bs] by (simp add: host_value_def)
  also have "\<dots> \<le> 2 ^ LENGTH('a)" using assms pow256 [of "LENGTH('a)"] by simp
  finally show ?thesis by (simp add: load_def unat_of_nat)
qed

lemma le_to_cpu_load_le_bytes:
  assumes "8 dvd LENGTH('a::len)"
  shows "le_to_cpu be (load be (le_bytes (LENGTH('a) div 8) (unat (w :: 'a word))) :: 'a word) = w"
proof -
  let ?n = "LENGTH('a) div 8"
  have n8: "256 ^ ?n = (2::nat) ^ LENGTH('a)"
  proof -
    have "(256::nat) ^ ?n = 2 ^ (8 * ?n)" by (simp add: power_mult)
    also have "8 * ?n = LENGTH('a)" using assms by simp
    finally show ?thesis .
  qed
  have small: "unat w mod 256 ^ ?n = unat w"
    using unsigned_less [of w, where ?'a = nat] by (simp add: n8)
  show ?thesis
  proof (cases be)
    case False
    then show ?thesis
      by (simp add: le_to_cpu_def load_def host_value_def le_value_le_bytes small)
  next
    case True
    have "unat (load True (le_bytes ?n (unat w)) :: 'a word)
          = le_value (rev (le_bytes ?n (unat w)))"
      by (simp add: unat_load host_value_def)
    then have "bswap (load True (le_bytes ?n (unat w)) :: 'a word)
          = of_nat (le_value (rev (le_bytes ?n (le_value (rev (le_bytes ?n (unat w)))))))"
      by (simp add: bswap_def)
    also have "le_bytes ?n (le_value (rev (le_bytes ?n (unat w)))) = rev (le_bytes ?n (unat w))"
      using le_bytes_le_value [of "rev (le_bytes ?n (unat w))"] by simp
    finally show ?thesis using True
      by (simp add: le_to_cpu_def le_value_le_bytes small)
  qed
qed


lemma le_bytes_numeral:
  "le_bytes (numeral k) v = of_nat (v mod 256) # le_bytes (pred_numeral k) (v div 256)"
proof -
  have "numeral k = Suc (pred_numeral k)" by (rule numeral_eq_Suc)
  then show ?thesis by (metis le_bytes.simps(2))
qed

lemma le_bytes_1: "le_bytes 1 v = [of_nat (v mod 256)]"
  unfolding One_nat_def by simp

lemma host_value_single: "host_value be [b] = unat b"
  by (simp add: host_value_def)

lemma le_bytes_host_value_little: "le_bytes (length bs) (host_value False bs) = bs"
  by (simp add: host_value_def le_bytes_le_value)

lemma property_set_value_eq:
  assumes "n \<in> {1, 2, 4, 8}" and "n \<le> length val"
  shows "property_set_value be val n = le_bytes n (host_value be (take n val))"
proof -
  consider "n = 1" | "n = 2" | "n = 4" | "n = 8" using assms(1) by auto
  then show ?thesis
  proof cases
    case 1
    then obtain b where "take n val = [b]"
      using assms(2) by (cases val) auto
    with 1 show ?thesis
      using le_bytes_le_value [of "[b]"]
      by (simp add: property_set_value_def host_value_single)
  next
    case 2
    then have "length (take 2 val) = LENGTH(16) div 8" using assms(2) by simp
    with 2 show ?thesis
      by (simp add: property_set_value_def store_cpu_to_le unat_load)
  next
    case 3
    then have "length (take 4 val) = LENGTH(32) div 8" using assms(2) by simp
    with 3 show ?thesis
      by (simp add: property_set_value_def store_cpu_to_le unat_load)
  next
    case 4
    then have "length (take 8 val) = LENGTH(64) div 8" using assms(2) by simp
    with 4 show ?thesis
      by (simp add: property_set_value_def store_cpu_to_le unat_load)
  qed
qed

lemma host_value_store:
  assumes "8 dvd LENGTH('a::len)"
  shows "host_value be (store be (w :: 'a word)) = unat w"
proof -
  have "(256::nat) ^ (LENGTH('a) div 8) = 2 ^ (8 * (LENGTH('a) div 8))"
    by (simp add: power_mult)
  also have "8 * (LENGTH('a) div 8) = LENGTH('a)" using assms by simp
  finally have "unat w mod 256 ^ (LENGTH('a) div 8) = unat w"
    using unsigned_less [of w, where ?'a = nat] by simp
  then show ?thesis
    by (simp add: host_value_def store_def host_bytes_def le_value_le_bytes)
qed


lemma load_le_bytes:
  assumes "8 dvd LENGTH('a::len)"
  shows "(load be (le_bytes (LENGTH('a) div 8) (unat (w :: 'a word))) :: 'a word) = cpu_to_le be w"
proof -
  let ?n = "LENGTH('a) div 8"
  have n8: "256 ^ ?n = (2::nat) ^ LENGTH('a)"
  proof -
    have "(256::nat) ^ ?n = 2 ^ (8 * ?n)" by (simp add: power_mult)
    also have "8 * ?n = LENGTH('a)" using assms by simp
    finally show ?thesis .
  qed
  have small: "unat w mod 256 ^ ?n = unat w"
    using unsigned_less [of w, where ?'a = nat] by (simp add: n8)
  show ?thesis
    by (cases be) (simp_all add: load_def host_value_def cpu_to_le_def bswap_def
        le_value_le_bytes small)
qed

lemma timerfd_settime_fails_iff [simp]:
  "timerfd_settime_fails (timeout_tv_nsec us) = (1000000 \<le> unat us)"
  by (auto simp: timerfd_settime_fails_def timeout_tv_nsec_def)

lemma write_command_allocated:
  "heap s h = Some d \<Longrightarrow>
   write_command h s =
     Inr (s\<lparr>commands := commands s @ [h],
            trace := trace s @ [Core_write SL_CPC_ENDPOINT_SYSTEM (command_bytes (command d))
                                  SL_CPC_FLAG_INFORMATION_POLL]\<rparr>)"
  by (simp add: write_command_def emit_def sl_slist_push_back_def)

lemma property_set_ok:
  assumes "cb \<noteq> NULL_callback" and "n \<noteq> 0" and "unat n \<le> length v"
  shows "sl_cpc_system_cmd_property_set pf cb rc rt pid v n s =
     Inr (s\<lparr>next_command_seq := next_command_seq s + 1,
            commands := commands s @ [next_handle s],
            heap := (heap s)(next_handle s \<mapsto>
              \<lparr>command =
                 \<lparr>cmd_command_id = CMD_SYSTEM_PROP_VALUE_SET,
                  cmd_command_seq = next_command_seq s,
                  cmd_length = of_nat (4 + unat n),
                  cmd_payload = le_bytes 4 (unat pid)
                     @ property_set_value (host_big_endian pf) v (unat n)\<rparr>,
               on_final = cb, retry_count = rc, retry_timeout_us = rt,
               error_status = SL_STATUS_OK, command_seq = next_command_seq s,
               file_descriptor = None\<rparr>),
            next_handle := Suc (next_handle s),
            trace := trace s @
              [Core_write SL_CPC_ENDPOINT_SYSTEM
                 (command_bytes
                    \<lparr>cmd_command_id = CMD_SYSTEM_PROP_VALUE_SET,
                     cmd_command_seq = next_command_seq s,
                     cmd_length = of_nat (4 + unat n),
                     cmd_payload = le_bytes 4 (unat pid)
                        @ property_set_value (host_big_endian pf) v (unat n)\<rparr>)
                 SL_CPC_FLAG_INFORMATION_POLL]\<rparr>)"
  using assms
  by (simp add: sl_cpc_system_cmd_property_set_def malloc_handle_def write_command_allocated
      sizeof_sl_cpc_property_id_t_def store_cpu_to_le Let_def)


lemma on_final_property_is_decodes:
  assumes "n \<in> {1, 2, 4, 8}" and "length w = n"
  shows "on_final_property_is pf h d
           \<lparr>cmd_command_id = CMD_SYSTEM_PROP_VALUE_IS, cmd_command_seq = q,
            cmd_length = of_nat (4 + n), cmd_payload = le_bytes 4 (unat pid) @ w\<rparr> t
         = Inr (emit [Property_callback (on_final d) h pid (Some w) (of_nat n)
                        (error_status d)] t)"
proof -
  have id: "le_to_cpu (host_big_endian pf)
              (load (host_big_endian pf) (le_bytes 4 (unat pid)) :: u32) = pid"
    using le_to_cpu_load_le_bytes [where 'a = 32, of "host_big_endian pf" pid] by simp
  have len: "(ucast (4 + of_nat n :: u8) - 4 :: size_t) = of_nat n"
    using assms(1) by auto
  have un: "unat (of_nat n :: size_t) = n"
    using assms(1) by auto
  show ?thesis
    using assms(2)
    by (simp add: on_final_property_is_def sizeof_sl_cpc_property_id_t_def
        sizeof_sl_cpc_system_property_cmd_t_def id len un)
qed

lemma wire_value_big_endian: "wire_value True v = rev v"
  using le_bytes_le_value [of "rev v"] by (simp add: wire_value_def host_value_def)

text \<open>
  Claim C2 (as amended). For a property identifier and a value of 1, 2, 4 or 8 bytes,
  \<^verbatim>\<open>sl_cpc_system_cmd_property_set\<close> writes the frame whose payload is the
  little-endian property identifier followed by the value in wire order (little-endian
  for 2, 4 and 8 bytes, verbatim for one byte); \<^verbatim>\<open>on_final_property_is\<close> on the
  property-is frame with that payload hands the handler the original property identifier,
  the value length and the value as it is on the wire: the bytes it receives are the
  little-endian bytes of the number that was passed in. On a little-endian host, and for
  one byte, they are the bytes that were passed in; on a big-endian host they are those
  bytes in reverse order, since no receive path swaps a property value back. The value
  \<open>0x12345678\<close> for property \<open>0x0000000A\<close> gives the payload
  \<open>0A 00 00 00 78 56 34 12\<close>.
\<close>

theorem property_set_property_is_round_trip:
  assumes "length v \<in> {1, 2, 4, 8}" and "cb \<noteq> NULL_callback"
  shows "(\<exists>s'. sl_cpc_system_cmd_property_set pf cb rc rt pid v (of_nat (length v)) s = Inr s'
            \<and> trace s' = trace s @
                 [Core_write SL_CPC_ENDPOINT_SYSTEM
                    ([CMD_SYSTEM_PROP_VALUE_SET, next_command_seq s, of_nat (4 + length v)]
                     @ le_bytes 4 (unat pid) @ wire_value (host_big_endian pf) v)
                    SL_CPC_FLAG_INFORMATION_POLL])
       \<and> on_final_property_is pf h d
           \<lparr>cmd_command_id = CMD_SYSTEM_PROP_VALUE_IS, cmd_command_seq = q,
            cmd_length = of_nat (4 + length v),
            cmd_payload = le_bytes 4 (unat pid) @ wire_value (host_big_endian pf) v\<rparr> t
           = Inr (emit [Property_callback (on_final d) h pid
                          (Some (wire_value (host_big_endian pf) v)) (of_nat (length v))
                          (error_status d)] t)
       \<and> le_value (wire_value (host_big_endian pf) v) = host_value (host_big_endian pf) v
       \<and> (\<not> host_big_endian pf \<longrightarrow> wire_value (host_big_endian pf) v = v)
       \<and> (host_big_endian pf \<longrightarrow> wire_value (host_big_endian pf) v = rev v)
       \<and> (length v = 1 \<longrightarrow> wire_value (host_big_endian pf) v = v)
       \<and> (v = store (host_big_endian pf) (0x12345678 :: u32) \<and> pid = 0x0000000A \<longrightarrow>
            le_bytes 4 (unat pid) @ wire_value (host_big_endian pf) v
              = [0x0A, 0x00, 0x00, 0x00, 0x78, 0x56, 0x34, 0x12])"
proof -
  let ?be = "host_big_endian pf"
  let ?n = "length v"
  have n: "unat (of_nat ?n :: size_t) = ?n" and n0: "(of_nat ?n :: size_t) \<noteq> 0"
    using assms(1) by auto
  have psv: "property_set_value ?be v ?n = wire_value ?be v"
    using property_set_value_eq [of ?n v ?be] assms(1) by (simp add: wire_value_def)
  have lenb: "unat (4 + of_nat ?n :: u8) = 4 + ?n"
    using assms(1) by auto
  have enc: "\<exists>s'. sl_cpc_system_cmd_property_set pf cb rc rt pid v (of_nat ?n) s = Inr s'
            \<and> trace s' = trace s @
                 [Core_write SL_CPC_ENDPOINT_SYSTEM
                    ([CMD_SYSTEM_PROP_VALUE_SET, next_command_seq s, of_nat (4 + ?n)]
                     @ le_bytes 4 (unat pid) @ wire_value ?be v)
                    SL_CPC_FLAG_INFORMATION_POLL]"
    using property_set_ok [of cb "of_nat ?n" v pf rc rt pid s] assms(2) n n0
    by (simp add: psv command_bytes_def lenb wire_value_def)
  have dec: "on_final_property_is pf h d
           \<lparr>cmd_command_id = CMD_SYSTEM_PROP_VALUE_IS, cmd_command_seq = q,
            cmd_length = of_nat (4 + ?n),
            cmd_payload = le_bytes 4 (unat pid) @ wire_value ?be v\<rparr> t
           = Inr (emit [Property_callback (on_final d) h pid
                          (Some (wire_value ?be v)) (of_nat ?n) (error_status d)] t)"
    using on_final_property_is_decodes [of ?n "wire_value ?be v"] assms(1)
    by (simp add: wire_value_def)
  have num: "le_value (wire_value ?be v) = host_value ?be v"
  proof -
    have "host_value ?be v < 256 ^ ?n"
      using le_value_lt [of v] le_value_rev_lt [of v] by (simp add: host_value_def)
    then show ?thesis by (simp add: wire_value_def le_value_le_bytes)
  qed
  have little: "\<not> ?be \<longrightarrow> wire_value ?be v = v"
    by (simp add: wire_value_def le_bytes_host_value_little)
  have single: "?n = 1 \<longrightarrow> wire_value ?be v = v"
  proof
    assume "?n = 1"
    then obtain b where "v = [b]" by (cases v) auto
    then show "wire_value ?be v = v"
      using le_bytes_le_value [of "[b]"] by (simp add: wire_value_def host_value_single)
  qed
  have ex: "v = store ?be (0x12345678 :: u32) \<and> pid = 0x0000000A \<longrightarrow>
            le_bytes 4 (unat pid) @ wire_value ?be v
              = [0x0A, 0x00, 0x00, 0x00, 0x78, 0x56, 0x34, 0x12]"
  proof
    assume a: "v = store ?be (0x12345678 :: u32) \<and> pid = 0x0000000A"
    have "host_value ?be (store ?be (0x12345678 :: u32)) = 0x12345678"
      using host_value_store [where 'a = 32, of ?be "0x12345678"] by simp
    moreover have "length (store ?be (0x12345678 :: u32)) = 4"
      by (simp add: store_def host_bytes_def)
    ultimately show "le_bytes 4 (unat pid) @ wire_value ?be v
              = [0x0A, 0x00, 0x00, 0x00, 0x78, 0x56, 0x34, 0x12]"
      using a by (simp add: wire_value_def le_bytes_numeral le_bytes_1)
  qed
  have big: "?be \<longrightarrow> wire_value ?be v = rev v"
    using wire_value_big_endian [of v] by simp
  from enc dec num little big single ex show ?thesis by blast
qed

text \<open>
  Claim C2 on a big-endian host, for the value \<open>0x12345678\<close> of property
  \<open>0x0000000A\<close>: the frame written, the decoding of the property-is frame with the
  same payload, and the number the bytes on the wire stand for.
\<close>

theorem property_set_property_is_round_trip_witness:
  "length [0x12, 0x34, 0x56, 0x78 :: u8] \<in> {1, 2, 4, 8}
   \<and> User_callback 0 \<noteq> NULL_callback
   \<and> (\<exists>s'. sl_cpc_system_cmd_property_set big_endian_host (User_callback 0) 5 100000 0x0A
               [0x12, 0x34, 0x56, 0x78] 4 boot = Inr s'
            \<and> trace s' = trace boot @
                 [Core_write SL_CPC_ENDPOINT_SYSTEM
                    [CMD_SYSTEM_PROP_VALUE_SET, 0, 8, 0x0A, 0x00, 0x00, 0x00, 0x78, 0x56, 0x34, 0x12]
                    SL_CPC_FLAG_INFORMATION_POLL])
   \<and> on_final_property_is big_endian_host 0 example_handle
           \<lparr>cmd_command_id = CMD_SYSTEM_PROP_VALUE_IS, cmd_command_seq = 0,
            cmd_length = 8,
            cmd_payload = [0x0A, 0x00, 0x00, 0x00, 0x78, 0x56, 0x34, 0x12]\<rparr> boot
           = Inr (emit [Property_callback (User_callback 0) 0 0x0A
                          (Some [0x78, 0x56, 0x34, 0x12]) 4 SL_STATUS_OK] boot)
   \<and> le_value [0x78, 0x56, 0x34, 0x12] = host_value True [0x12, 0x34, 0x56, 0x78]"
proof -
  have w: "wire_value True [0x12, 0x34, 0x56, 0x78] = [0x78, 0x56, 0x34, 0x12]"
    by (simp add: wire_value_def host_value_def le_bytes_numeral le_bytes_1)
  have b: "next_command_seq boot = 0"
    by (simp add: boot_def sl_cpc_system_init_def sl_cpc_system_open_endpoint_def emit_def)
  show ?thesis
    using property_set_property_is_round_trip
            [of "[0x12, 0x34, 0x56, 0x78]" "User_callback 0" big_endian_host 5 100000 "0x0A"
                boot 0 example_handle 0 boot]
    by (simp add: w b big_endian_host_def example_handle_def le_bytes_numeral le_bytes_1)
qed

lemma reply_length_check:
  "((ucast (l :: u8) :: size_t) = ucast (n :: u32) - of_nat sizeof_sl_cpc_system_cmd_t)
   = (int (unat n) - 3 = int (unat l))"
proof -
  define a where "a = uint l"
  define b where "b = uint n"
  have a: "0 \<le> a" "a < 256" using uint_lt2p [of l] by (simp_all add: a_def)
  have b: "0 \<le> b" "b < 2 ^ 32" using uint_lt2p [of n] by (simp_all add: b_def)
  have ul: "uint (ucast l :: size_t) = a" by (simp add: uint_up_ucast is_up a_def)
  have un: "uint (ucast n :: size_t) = b" by (simp add: uint_up_ucast is_up b_def)
  have sub: "uint ((ucast n :: size_t) - 3) = (if 3 \<le> b then b - 3 else b - 3 + 2 ^ 64)"
    using un by (simp add: uint_sub_if')
  have lhs: "((ucast l :: size_t) = ucast n - of_nat sizeof_sl_cpc_system_cmd_t)
             = (a = (if 3 \<le> b then b - 3 else b - 3 + 2 ^ 64))"
    unfolding word_uint_eq_iff ul sizeof_sl_cpc_system_cmd_t_def using sub by simp
  have rhs: "(int (unat n) - 3 = int (unat l)) = (b - 3 = a)"
    by (simp add: a_def b_def)
  show ?thesis unfolding lhs rhs using a b by auto
qed

lemma unsolicited_length_check:
  "((ucast (l :: u8) :: size_t) = (n :: size_t) - of_nat sizeof_sl_cpc_system_cmd_t)
   = (int (unat n) - 3 = int (unat l))"
proof -
  define a where "a = uint l"
  define b where "b = uint n"
  have a: "0 \<le> a" "a < 256" using uint_lt2p [of l] by (simp_all add: a_def)
  have b: "0 \<le> b" "b < 2 ^ 64" using uint_lt2p [of n] by (simp_all add: b_def)
  have ul: "uint (ucast l :: size_t) = a" by (simp add: uint_up_ucast is_up a_def)
  have sub: "uint (n - 3) = (if 3 \<le> b then b - 3 else b - 3 + 2 ^ 64)"
    by (simp add: uint_sub_if' b_def)
  have lhs: "((ucast l :: size_t) = n - of_nat sizeof_sl_cpc_system_cmd_t)
             = (a = (if 3 \<le> b then b - 3 else b - 3 + 2 ^ 64))"
    unfolding word_uint_eq_iff ul sizeof_sl_cpc_system_cmd_t_def using sub by simp
  have rhs: "(int (unat n) - 3 = int (unat l)) = (b - 3 = a)"
    by (simp add: a_def b_def)
  show ?thesis unfolding lhs rhs using a b by auto
qed

lemma write_command_not_malformed: "write_command h s \<noteq> Inl (MalformedFrame, s')"
  by (simp add: write_command_def split: option.splits)

lemma property_set_not_malformed:
  "sl_cpc_system_cmd_property_set pf cb rc rt pid v n s \<noteq> Inl (MalformedFrame, s')"
  by (simp add: sl_cpc_system_cmd_property_set_def Let_def write_command_not_malformed
      split: prod.splits)

lemma on_reply_malformed_iff:
  "(on_reply pf reply n s = Inl (MalformedFrame, s'))
   = (int (unat n) - 3 \<noteq> int (unat (cmd_length reply)) \<and> s' = s)"
  by (auto simp: on_reply_def reply_length_check on_final_noop_def on_final_reset_def
      on_final_property_is_def Let_def split: option.splits sum.splits if_splits)

lemma on_reply_uframe_malformed_iff:
  "(on_reply_uframe pf reply n s = Inl (MalformedFrame, s'))
   = (int (unat n) - 3 \<noteq> int (unat (cmd_length reply)) \<and> s' = s)"
  by (auto simp: on_reply_uframe_def reply_length_check on_final_noop_def
      on_final_reset_uframe_def on_final_property_is_def Let_def
      split: option.splits sum.splits if_splits)

lemma on_unsolicited_malformed_iff:
  "(on_unsolicited pf reply m s = Inl (MalformedFrame, s'))
   = (int (unat m) - 3 \<noteq> int (unat (cmd_length reply)) \<and> s' = s)"
  by (auto simp: on_unsolicited_def unsolicited_length_check last_status_dispatch_def
      property_set_not_malformed Let_def split: if_splits)

lemma on_unsolicited_uframe_malformed_iff:
  "(on_unsolicited_uframe pf reply m s = Inl (MalformedFrame, s'))
   = (int (unat m) - 3 \<noteq> int (unat (cmd_length reply)) \<and> s' = s)"
  by (auto simp: on_unsolicited_uframe_def unsolicited_length_check last_status_dispatch_def
      Let_def split: if_splits)

text \<open>
  Claim C8. In the reply handler and the unsolicited handler of both implementations, a
  frame whose buffer length minus 3 differs from the length field of its header is fatal
  with \<open>MalformedFrame\<close>, in the state of entry: no descriptor was looked up and no
  listener or handler was called. A frame that is not rejected this way satisfies
  \<open>buffer_length - 3 = header.length\<close>.
\<close>

theorem length_check_guards_dispatch:
  "(int (unat n) - 3 \<noteq> int (unat (cmd_length reply)) \<longrightarrow>
      on_reply pf reply n s = Inl (MalformedFrame, s)
      \<and> on_reply_uframe pf reply n s = Inl (MalformedFrame, s))
   \<and> (int (unat m) - 3 \<noteq> int (unat (cmd_length reply)) \<longrightarrow>
      on_unsolicited pf reply m s = Inl (MalformedFrame, s)
      \<and> on_unsolicited_uframe pf reply m s = Inl (MalformedFrame, s))
   \<and> (int (unat n) - 3 = int (unat (cmd_length reply)) \<longrightarrow>
      (\<forall>s'. on_reply pf reply n s \<noteq> Inl (MalformedFrame, s')
            \<and> on_reply_uframe pf reply n s \<noteq> Inl (MalformedFrame, s')))
   \<and> (int (unat m) - 3 = int (unat (cmd_length reply)) \<longrightarrow>
      (\<forall>s'. on_unsolicited pf reply m s \<noteq> Inl (MalformedFrame, s')
            \<and> on_unsolicited_uframe pf reply m s \<noteq> Inl (MalformedFrame, s')))"
  by (simp add: on_reply_malformed_iff on_reply_uframe_malformed_iff
      on_unsolicited_malformed_iff on_unsolicited_uframe_malformed_iff)

lemma on_reply_no_match:
  assumes "int (unat n) - 3 = int (unat (cmd_length reply))"
    and "find_command s (cmd_command_seq reply) = None"
  shows "on_reply pf reply n s =
           Inr (emit [Warn ''Received a system final for which no pending poll is registered''] s)"
    and "on_reply_uframe pf reply n s = Inr s"
  using assms by (simp_all add: on_reply_def on_reply_uframe_def reply_length_check)

lemma on_unsolicited_other_command:
  assumes "int (unat m) - 3 = int (unat (cmd_length reply))"
    and "cmd_command_id reply \<noteq> CMD_SYSTEM_PROP_VALUE_IS"
  shows "on_unsolicited pf reply m s = Inr s"
    and "on_unsolicited_uframe pf reply m s = Inr s"
  using assms
  by (simp_all add: on_unsolicited_def on_unsolicited_uframe_def unsolicited_length_check)

lemmas boot_defs = boot_def boot_uframe_def sl_cpc_system_init_def sl_cpc_system_init_uframe_def
  sl_cpc_system_open_endpoint_def emit_def

lemma find_command_boot [simp]:
  "find_command boot q = None" "find_command boot_uframe q = None"
  by (simp_all add: find_command_def boot_defs)

text \<open>
  Claim C6 (as amended). A final frame that passes the length check and whose sequence
  number matches no live descriptor is dropped by both reply handlers: nothing is fatal
  and the command table, the store and the timers are untouched. The Information Poll
  handler logs a warning; the Unnumbered Poll handler logs nothing.
\<close>

theorem reply_without_descriptor_is_dropped:
  assumes "int (unat n) - 3 = int (unat (cmd_length reply))"
    and "find_command s (cmd_command_seq reply) = None"
  shows "on_reply pf reply n s =
           Inr (emit [Warn ''Received a system final for which no pending poll is registered''] s)
         \<and> on_reply_uframe pf reply n s = Inr s"
  using assms on_reply_no_match by simp

text \<open>
  The amended claim C6 at a freshly initialised endpoint of either implementation.
\<close>

theorem reply_without_descriptor_is_dropped_witness:
  "int (unat (3 :: u32)) - 3 = int (unat (cmd_length noop_frame))
   \<and> find_command boot (cmd_command_seq noop_frame) = None
   \<and> on_reply little_endian_host noop_frame 3 boot =
        Inr (emit [Warn ''Received a system final for which no pending poll is registered''] boot)
   \<and> find_command boot_uframe (cmd_command_seq noop_frame) = None
   \<and> on_reply_uframe little_endian_host noop_frame 3 boot_uframe = Inr boot_uframe"
  using reply_without_descriptor_is_dropped [of 3 noop_frame boot little_endian_host]
    reply_without_descriptor_is_dropped [of 3 noop_frame boot_uframe little_endian_host]
  by (simp add: noop_frame_def)

text \<open>
  Claim C6 as stated fails for the Unnumbered Poll handler: at a freshly initialised
  endpoint a no-op final with an unknown sequence number leaves the state as it was, and
  the log holds no warning.
\<close>

theorem reply_without_descriptor_uframe_counterexample:
  "find_command boot_uframe (cmd_command_seq noop_frame) = None
   \<and> on_reply_uframe little_endian_host noop_frame 3 boot_uframe = Inr boot_uframe
   \<and> (\<forall>w. Warn w \<notin> set (trace boot_uframe))"
proof -
  have "\<forall>w. Warn w \<notin> set (trace boot_uframe)"
    by (simp add: boot_defs)
  then show ?thesis
    by (simp add: on_reply_uframe_def noop_frame_def sizeof_sl_cpc_system_cmd_t_def)
qed

text \<open>
  Claim C7 (as amended). An unsolicited frame that passes the length check and whose
  command identifier is not \<^verbatim>\<open>PROP_VALUE_IS\<close> is ignored by both
  implementations: the handler returns with the state unchanged and nothing is fatal.
\<close>

theorem unsolicited_other_command_is_ignored:
  assumes "int (unat m) - 3 = int (unat (cmd_length reply))"
    and "cmd_command_id reply \<noteq> CMD_SYSTEM_PROP_VALUE_IS"
  shows "on_unsolicited pf reply m s = Inr s \<and> on_unsolicited_uframe pf reply m s = Inr s"
  using assms on_unsolicited_other_command by simp

text \<open>
  The amended claim C7 for an unsolicited no-op frame.
\<close>

theorem unsolicited_other_command_is_ignored_witness:
  "int (unat (3 :: size_t)) - 3 = int (unat (cmd_length noop_frame))
   \<and> cmd_command_id noop_frame \<noteq> CMD_SYSTEM_PROP_VALUE_IS
   \<and> on_unsolicited big_endian_host noop_frame 3 boot = Inr boot
   \<and> on_unsolicited_uframe big_endian_host noop_frame 3 boot_uframe = Inr boot_uframe"
  using unsolicited_other_command_is_ignored [of 3 noop_frame big_endian_host boot]
    unsolicited_other_command_is_ignored [of 3 noop_frame big_endian_host boot_uframe]
  by (simp add: noop_frame_def CMD_SYSTEM_NOOP_def CMD_SYSTEM_PROP_VALUE_IS_def)

text \<open>
  Claim C7 as stated fails: an unsolicited frame with the unknown command identifier
  \<open>0x7F\<close> is not fatal in either implementation; the handler returns normally.
\<close>

theorem unsolicited_unknown_command_counterexample:
  "cmd_command_id unknown_frame \<noteq> CMD_SYSTEM_PROP_VALUE_IS
   \<and> on_unsolicited little_endian_host unknown_frame 3 boot = Inr boot
   \<and> on_unsolicited_uframe little_endian_host unknown_frame 3 boot_uframe = Inr boot_uframe"
  by (simp add: on_unsolicited_def on_unsolicited_uframe_def unknown_frame_def
      sizeof_sl_cpc_system_cmd_t_def CMD_SYSTEM_PROP_VALUE_IS_def)

text \<open>
  Claim C8 on no-op frames delivered with the buffer lengths 4, 2 and 3.
\<close>

theorem length_check_guards_dispatch_witness:
  "int (unat (4 :: u32)) - 3 \<noteq> int (unat (cmd_length noop_frame))
   \<and> on_reply little_endian_host noop_frame 4 boot = Inl (MalformedFrame, boot)
   \<and> on_reply_uframe little_endian_host noop_frame 4 boot = Inl (MalformedFrame, boot)
   \<and> int (unat (2 :: size_t)) - 3 \<noteq> int (unat (cmd_length noop_frame))
   \<and> on_unsolicited little_endian_host noop_frame 2 boot = Inl (MalformedFrame, boot)
   \<and> on_unsolicited_uframe little_endian_host noop_frame 2 boot = Inl (MalformedFrame, boot)
   \<and> int (unat (3 :: u32)) - 3 = int (unat (cmd_length noop_frame))
   \<and> on_reply little_endian_host noop_frame 3 boot \<noteq> Inl (MalformedFrame, boot)
   \<and> on_unsolicited little_endian_host noop_frame 3 boot \<noteq> Inl (MalformedFrame, boot)"
  using length_check_guards_dispatch [of 4 noop_frame little_endian_host boot 2]
    length_check_guards_dispatch [of 3 noop_frame little_endian_host boot 3]
  by (simp add: noop_frame_def)

lemma find_command_cong:
  "heap s' = heap s \<Longrightarrow> commands s' = commands s \<Longrightarrow> find_command s' q = find_command s q"
  by (simp add: find_command_def)

lemma find_command_Some:
  "find_command s q = Some h \<Longrightarrow> h \<in> set (commands s) \<and> (\<exists>d. heap s h = Some d \<and> command_seq d = q)"
  by (auto simp: find_command_def find_Some_iff split: option.splits)

lemma on_timer_expired_retry:
  assumes "heap s h = Some d" and "retry_count d > 0"
  shows "on_timer_expired pf h s =
     Inr (s\<lparr>commands := remove1 h (commands s) @ [h],
            heap := (heap s)(h \<mapsto> d\<lparr>retry_count := retry_count d - 1,
                                       error_status := SL_STATUS_IN_PROGRESS\<rparr>),
            trace := trace s @
              [Timerfd_read (file_descriptor d),
               Core_write SL_CPC_ENDPOINT_SYSTEM (command_bytes (command d))
                 SL_CPC_FLAG_INFORMATION_POLL]\<rparr>)"
  using assms
  by (simp add: on_timer_expired_def write_command_def emit_def sl_slist_remove_def
      sl_slist_push_back_def)

lemma on_timer_expired_final:
  assumes "heap s h = Some d" and "retry_count d = 0"
    and "find_command s (cmd_command_seq (command d)) = Some h"
    and "issued_command (command d)"
  shows "on_timer_expired pf h s =
     Inr (s\<lparr>commands := remove1 h (commands s),
            heap := (heap s)(h := None),
            timer_fds := (case file_descriptor d of None \<Rightarrow> timer_fds s
                          | Some n \<Rightarrow> removeAll n (timer_fds s)),
            epoll_set := removeAll h (epoll_set s),
            trace := trace s @
              [Timerfd_read (file_descriptor d), Epoll_unregister h,
               Close_fd (file_descriptor d), timeout_event pf h d,
               Free_command h, Free_handle h]\<rparr>)"
proof -
  let ?s1 = "close_fd (file_descriptor d)
               (epoll_unregister h (emit [Timerfd_read (file_descriptor d)] s))"
  have h1: "heap ?s1 = heap s" and c1: "commands ?s1 = commands s"
    by (simp_all add: close_fd_def epoll_unregister_def emit_def split: option.splits)
  have f1: "find_command ?s1 (cmd_command_seq (command d)) = Some h"
    using find_command_cong [OF h1 c1] assms(3) by simp
  have "on_timer_expired pf h s = sl_cpc_system_cmd_timed_out pf (command d) ?s1"
    using assms(1,2) by (simp add: on_timer_expired_def)
  also have "\<dots> = Inr (s\<lparr>commands := remove1 h (commands s),
            heap := (heap s)(h := None),
            timer_fds := (case file_descriptor d of None \<Rightarrow> timer_fds s
                          | Some n \<Rightarrow> removeAll n (timer_fds s)),
            epoll_set := removeAll h (epoll_set s),
            trace := trace s @
              [Timerfd_read (file_descriptor d), Epoll_unregister h,
               Close_fd (file_descriptor d), timeout_event pf h d,
               Free_command h, Free_handle h]\<rparr>)"
    using assms(1,4) f1 h1
    by (cases "file_descriptor d")
       (auto simp: sl_cpc_system_cmd_timed_out_def issued_command_def timeout_event_def Let_def
          free_command_and_handle_def emit_def close_fd_def epoll_unregister_def
          sl_slist_remove_def CMD_SYSTEM_NOOP_def CMD_SYSTEM_RESET_def
          CMD_SYSTEM_PROP_VALUE_GET_def CMD_SYSTEM_PROP_VALUE_SET_def)
  finally show ?thesis .
qed

lemma on_timer_expired_uframe_final:
  assumes "heap s h = Some d" and "retry_count d = 0" and "issued_command (command d)"
  shows "on_timer_expired_uframe pf h s =
     Inr (s\<lparr>commands := remove1 h (commands s),
            heap := (heap s)(h := None),
            timer_fds := (case file_descriptor d of None \<Rightarrow> timer_fds s
                          | Some n \<Rightarrow> removeAll n (timer_fds s)),
            epoll_set := removeAll h (epoll_set s),
            trace := trace s @
              [Timerfd_read (file_descriptor d), Epoll_unregister h,
               Close_fd (file_descriptor d), timeout_event pf h d,
               Free_command h, Free_handle h]\<rparr>)"
  using assms
  by (cases "file_descriptor d")
     (auto simp: on_timer_expired_uframe_def issued_command_def timeout_event_def Let_def
        free_command_and_handle_def emit_def close_fd_def epoll_unregister_def
        sl_slist_remove_def CMD_SYSTEM_NOOP_def CMD_SYSTEM_RESET_def
        CMD_SYSTEM_PROP_VALUE_GET_def CMD_SYSTEM_PROP_VALUE_SET_def)

lemma load_store_cpu_to_le:
  "(load be (store be (cpu_to_le be (pid :: u32))) :: u32) = cpu_to_le be pid"
  using load_le_bytes [where 'a = 32, of be pid] store_cpu_to_le [where 'a = 32, of be pid]
  by simp

lemma le_to_cpu_load_store:
  "le_to_cpu be (load be (store be (cpu_to_le be (pid :: u32))) :: u32) = pid"
  using le_to_cpu_load_le_bytes [where 'a = 32, of be pid]
    store_cpu_to_le [where 'a = 32, of be pid]
  by simp

lemma length_store_u32 [simp]: "length (store be (w :: u32)) = 4"
  by (simp add: store_def host_bytes_def)

text \<open>
  Claim C10. When a property-get or property-set command times out for good, its final
  handler is called with no value, the value length 0, the status
  \<^verbatim>\<open>SL_STATUS_TIMEOUT\<close> and the property identifier as it is read from the
  transmit buffer, where the issuer stored it in little-endian order: the handler
  receives \<open>cpu_to_le property_id\<close>. The reply path hands the same handler
  \<open>property_id\<close> itself, converted with \<^verbatim>\<open>le32_to_cpu\<close>. Both
  implementations behave this way.
\<close>

theorem property_timeout_passes_wire_order_id:
  assumes "heap s h = Some d" and "retry_count d = 0"
    and "cmd_command_id (command d) = CMD_SYSTEM_PROP_VALUE_GET
         \<or> cmd_command_id (command d) = CMD_SYSTEM_PROP_VALUE_SET"
    and "take 4 (cmd_payload (command d))
         = store (host_big_endian pf) (cpu_to_le (host_big_endian pf) property_id)"
    and "take 4 (cmd_payload reply) = take 4 (cmd_payload (command d))"
  shows "(find_command s (cmd_command_seq (command d)) = Some h \<longrightarrow>
            (\<exists>s'. on_timer_expired pf h s = Inr s'
               \<and> trace s' = trace s @
                    [Timerfd_read (file_descriptor d), Epoll_unregister h,
                     Close_fd (file_descriptor d),
                     Property_callback (on_final d) h
                       (load (host_big_endian pf) (take 4 (cmd_payload (command d))))
                       None 0 SL_STATUS_TIMEOUT,
                     Free_command h, Free_handle h]))
       \<and> (\<exists>s'. on_timer_expired_uframe pf h s = Inr s'
               \<and> trace s' = trace s @
                    [Timerfd_read (file_descriptor d), Epoll_unregister h,
                     Close_fd (file_descriptor d),
                     Property_callback (on_final d) h
                       (load (host_big_endian pf) (take 4 (cmd_payload (command d))))
                       None 0 SL_STATUS_TIMEOUT,
                     Free_command h, Free_handle h])
       \<and> load (host_big_endian pf) (take 4 (cmd_payload (command d)))
           = cpu_to_le (host_big_endian pf) property_id
       \<and> on_final_property_is pf h d reply t
           = Inr (emit [Property_callback (on_final d) h property_id
                          (Some (take (unat (ucast (cmd_length reply) - 4 :: size_t))
                                   (drop 4 (cmd_payload reply))))
                          (ucast (cmd_length reply) - 4) (error_status d)] t)"
proof -
  let ?be = "host_big_endian pf"
  have len: "4 \<le> length (cmd_payload (command d))"
  proof -
    have "length (take 4 (cmd_payload (command d))) = 4"
      using assms(4) by simp
    then show ?thesis by simp
  qed
  have lenr: "4 \<le> length (cmd_payload reply)"
  proof -
    have "length (take 4 (cmd_payload reply)) = 4"
      using assms(4,5) by simp
    then show ?thesis by simp
  qed
  have issued: "issued_command (command d)"
    using assms(3) len by (auto simp: issued_command_def sizeof_sl_cpc_property_id_t_def)
  have ev: "timeout_event pf h d =
              Property_callback (on_final d) h (load ?be (take 4 (cmd_payload (command d))))
                None 0 SL_STATUS_TIMEOUT"
    using assms(3)
    by (auto simp: timeout_event_def sizeof_sl_cpc_property_id_t_def CMD_SYSTEM_NOOP_def
        CMD_SYSTEM_RESET_def CMD_SYSTEM_PROP_VALUE_GET_def CMD_SYSTEM_PROP_VALUE_SET_def)
  have b: "find_command s (cmd_command_seq (command d)) = Some h \<longrightarrow>
            (\<exists>s'. on_timer_expired pf h s = Inr s'
               \<and> trace s' = trace s @
                    [Timerfd_read (file_descriptor d), Epoll_unregister h,
                     Close_fd (file_descriptor d),
                     Property_callback (on_final d) h
                       (load ?be (take 4 (cmd_payload (command d))))
                       None 0 SL_STATUS_TIMEOUT,
                     Free_command h, Free_handle h])"
    using on_timer_expired_final [OF assms(1,2) _ issued, of pf] ev by simp
  have a: "\<exists>s'. on_timer_expired_uframe pf h s = Inr s'
               \<and> trace s' = trace s @
                    [Timerfd_read (file_descriptor d), Epoll_unregister h,
                     Close_fd (file_descriptor d),
                     Property_callback (on_final d) h
                       (load ?be (take 4 (cmd_payload (command d))))
                       None 0 SL_STATUS_TIMEOUT,
                     Free_command h, Free_handle h]"
    using on_timer_expired_uframe_final [OF assms(1,2) issued, of pf] ev by simp
  have raw: "load ?be (take 4 (cmd_payload (command d))) = cpu_to_le ?be property_id"
    using assms(4) load_store_cpu_to_le [of ?be property_id] by simp
  have conv: "on_final_property_is pf h d reply t
           = Inr (emit [Property_callback (on_final d) h property_id
                          (Some (take (unat (ucast (cmd_length reply) - 4 :: size_t))
                                   (drop 4 (cmd_payload reply))))
                          (ucast (cmd_length reply) - 4) (error_status d)] t)"
    using lenr assms(4,5) le_to_cpu_load_store [of ?be property_id]
    by (simp add: on_final_property_is_def sizeof_sl_cpc_property_id_t_def
        sizeof_sl_cpc_system_property_cmd_t_def Let_def)
  from a b raw conv show ?thesis by blast
qed

lemma endpoint_state_range:
  assumes "unat (e0 :: u32) + 255 < 2 ^ 32"
  shows "e0 \<le> e0 + ucast (ep :: u8)" and "e0 + ucast ep \<le> e0 + 255"
    and "(ucast (e0 + ucast ep - e0) :: u8) = ep"
proof -
  have ep: "unat (ucast ep :: u32) = unat ep"
  proof -
    have "unat ep < 2 ^ 32"
      using unsigned_less [of ep, where ?'a = nat] by simp
    then show ?thesis
      by (simp add: unsigned_ucast_eq take_bit_nat_eq_self)
  qed
  have lt: "unat ep < 256" using unsigned_less [of ep, where ?'a = nat] by simp
  have "unat e0 + unat (ucast ep :: u32) < 2 ^ LENGTH(32)"
    using assms lt ep by simp
  then have s1: "unat (e0 + ucast ep) = unat e0 + unat ep"
    using ep by (simp only: unat_add_lem [THEN iffD1])
  have "unat e0 + unat (255 :: u32) < 2 ^ LENGTH(32)"
    using assms by simp
  then have "unat (e0 + 255) = unat e0 + unat (255 :: u32)"
    by (rule unat_add_lem [THEN iffD1])
  then have s2: "unat (e0 + 255) = unat e0 + 255" by simp
  show "e0 \<le> e0 + ucast ep" unfolding word_le_nat_alt s1 by simp
  show "e0 + ucast ep \<le> e0 + 255" unfolding word_le_nat_alt s1 s2 using lt by simp
  have "e0 + ucast ep - e0 = (ucast ep :: u32)" by simp
  moreover have "(ucast (ucast ep :: u32) :: u8) = ep"
    by (rule bit_word_eqI) (auto simp: bit_simps)
  ultimately show "(ucast (e0 + ucast ep - e0) :: u8) = ep" by (simp only:)
qed

lemma property_set_value_store_u32:
  "property_set_value be (store be (w :: u32)) 4 = le_bytes 4 (unat w)"
proof -
  have "property_set_value be (store be w) 4 = le_bytes 4 (host_value be (take 4 (store be w)))"
    by (rule property_set_value_eq) simp_all
  then show ?thesis
    using host_value_store [where 'a = 32, of be w] by simp
qed

text \<open>
  The endpoint-state branch of \<^verbatim>\<open>on_unsolicited\<close>, for a frame whose first four
  payload bytes, read as they lie in host memory, are \<open>PROP_ENDPOINT_STATE_0 + ep\<close>:
  when endpoint \<open>ep\<close> has listeners and is open, the handler first sets the endpoint
  in error with the reason \<^verbatim>\<open>DESTINATION_UNREACHABLE\<close> and then issues a
  property-set for the same property identifier with the four-byte closed state as
  value, 5 retries and a timeout of 100000 microseconds.
\<close>

lemma unsolicited_endpoint_state_host_order_id:
  assumes "int (unat m) - 3 = int (unat (cmd_length reply))"
    and "cmd_command_id reply = CMD_SYSTEM_PROP_VALUE_IS"
    and "4 \<le> length (cmd_payload reply)"
    and "load (host_big_endian pf) (take 4 (cmd_payload reply))
         = PROP_ENDPOINT_STATE_0 pf + ucast ep"
    and "unat (PROP_ENDPOINT_STATE_0 pf) + 255 < 2 ^ 32"
    and "PROP_ENDPOINT_STATE_0 pf + ucast ep \<noteq> PROP_LAST_STATUS"
    and "\<not> listener_list_empty s ep"
    and "endpoint_state s ep = SL_CPC_STATE_OPEN"
  shows "on_unsolicited pf reply m s =
           sl_cpc_system_cmd_property_set pf reply_to_closing_endpoint_on_secondary_callback
             5 100000 (PROP_ENDPOINT_STATE_0 pf + ucast ep)
             (store (host_big_endian pf) (SL_CPC_STATE_CLOSED_value pf)) 4
             (core_set_endpoint_in_error ep SL_CPC_STATE_ERROR_DESTINATION_UNREACHABLE s)
       \<and> on_unsolicited pf reply m s =
           Inr (s\<lparr>next_command_seq := next_command_seq s + 1,
                  commands := commands s @ [next_handle s],
                  heap := (heap s)(next_handle s \<mapsto>
                    \<lparr>command =
                       \<lparr>cmd_command_id = CMD_SYSTEM_PROP_VALUE_SET,
                        cmd_command_seq = next_command_seq s,
                        cmd_length = 8,
                        cmd_payload = le_bytes 4 (unat (PROP_ENDPOINT_STATE_0 pf + ucast ep))
                           @ le_bytes 4 (unat (SL_CPC_STATE_CLOSED_value pf))\<rparr>,
                     on_final = reply_to_closing_endpoint_on_secondary_callback,
                     retry_count = 5, retry_timeout_us = 100000,
                     error_status = SL_STATUS_OK, command_seq = next_command_seq s,
                     file_descriptor = None\<rparr>),
                  next_handle := Suc (next_handle s),
                  endpoint_state :=
                    (endpoint_state s)(ep := SL_CPC_STATE_ERROR_DESTINATION_UNREACHABLE),
                  trace := trace s @
                    [Core_set_endpoint_in_error ep SL_CPC_STATE_ERROR_DESTINATION_UNREACHABLE,
                     Core_write SL_CPC_ENDPOINT_SYSTEM
                       ([CMD_SYSTEM_PROP_VALUE_SET, next_command_seq s, 8]
                        @ le_bytes 4 (unat (PROP_ENDPOINT_STATE_0 pf + ucast ep))
                        @ le_bytes 4 (unat (SL_CPC_STATE_CLOSED_value pf)))
                       SL_CPC_FLAG_INFORMATION_POLL]\<rparr>)"
proof -
  let ?pid = "PROP_ENDPOINT_STATE_0 pf + ucast ep"
  let ?s1 = "core_set_endpoint_in_error ep SL_CPC_STATE_ERROR_DESTINATION_UNREACHABLE s"
  note rng = endpoint_state_range [OF assms(5), of ep]
  have first: "on_unsolicited pf reply m s =
           sl_cpc_system_cmd_property_set pf reply_to_closing_endpoint_on_secondary_callback
             5 100000 ?pid (store (host_big_endian pf) (SL_CPC_STATE_CLOSED_value pf)) 4 ?s1"
    using assms(1,2,3,4,6,7,8) rng
    by (simp add: on_unsolicited_def unsolicited_length_check sizeof_sl_cpc_property_id_t_def
        PROP_ENDPOINT_STATE_255_def PROPERTY_ID_TO_EP_ID_def Let_def)
  have "sl_cpc_system_cmd_property_set pf reply_to_closing_endpoint_on_secondary_callback
             5 100000 ?pid (store (host_big_endian pf) (SL_CPC_STATE_CLOSED_value pf)) 4 ?s1
        = Inr (s\<lparr>next_command_seq := next_command_seq s + 1,
                  commands := commands s @ [next_handle s],
                  heap := (heap s)(next_handle s \<mapsto>
                    \<lparr>command =
                       \<lparr>cmd_command_id = CMD_SYSTEM_PROP_VALUE_SET,
                        cmd_command_seq = next_command_seq s,
                        cmd_length = 8,
                        cmd_payload = le_bytes 4 (unat ?pid)
                           @ le_bytes 4 (unat (SL_CPC_STATE_CLOSED_value pf))\<rparr>,
                     on_final = reply_to_closing_endpoint_on_secondary_callback,
                     retry_count = 5, retry_timeout_us = 100000,
                     error_status = SL_STATUS_OK, command_seq = next_command_seq s,
                     file_descriptor = None\<rparr>),
                  next_handle := Suc (next_handle s),
                  endpoint_state :=
                    (endpoint_state s)(ep := SL_CPC_STATE_ERROR_DESTINATION_UNREACHABLE),
                  trace := trace s @
                    [Core_set_endpoint_in_error ep SL_CPC_STATE_ERROR_DESTINATION_UNREACHABLE,
                     Core_write SL_CPC_ENDPOINT_SYSTEM
                       ([CMD_SYSTEM_PROP_VALUE_SET, next_command_seq s, 8]
                        @ le_bytes 4 (unat ?pid)
                        @ le_bytes 4 (unat (SL_CPC_STATE_CLOSED_value pf)))
                       SL_CPC_FLAG_INFORMATION_POLL]\<rparr>)"
    by (subst property_set_ok)
       (simp_all add: property_set_value_store_u32 core_set_endpoint_in_error_def emit_def
          command_bytes_def)
  with first show ?thesis by simp
qed

lemma boot_fields [simp]:
  "next_command_seq boot = 0" "commands boot = []" "heap boot = Map.empty"
  "next_handle boot = 0" "timer_fds boot = []" "epoll_set boot = []" "next_fd boot = 0"
  "endpoint_state boot = (\<lambda>ep. SL_CPC_STATE_OPEN)" "listener_list_empty boot = (\<lambda>ep. False)"
  by (simp_all add: boot_defs)

lemmas le_bytes_eval = le_bytes_numeral le_bytes_1

lemma property_get_boot:
  "sl_cpc_system_cmd_property_get big_endian_host (User_callback 0) 0x0A 0 100000 boot
   = Inr after_property_get"
  using store_cpu_to_le [where 'a = 32, of True "0x0A"]
  by (simp add: sl_cpc_system_cmd_property_get_def malloc_handle_def write_command_def
      emit_def sl_slist_push_back_def command_bytes_def after_property_get_def
      property_get_handle_def big_endian_host_def sizeof_sl_cpc_property_id_t_def
      le_bytes_eval Let_def)

text \<open>
  Claim C9 fails on a big-endian host. The unsolicited property-is frame for the state of
  endpoint 7 carries the little-endian property identifier \<open>PROP_ENDPOINT_STATE_0 + 7\<close>
  (bytes \<open>07 10 00 00\<close>); endpoint 7 is open and has listeners.
  \<^verbatim>\<open>on_unsolicited\<close> compares \<^verbatim>\<open>property->property_id\<close> without
  \<^verbatim>\<open>le32_to_cpu\<close>, which \<^verbatim>\<open>on_final_property_is\<close> applies to the same
  field: on a big-endian host it reads \<open>0x07100000\<close>, takes the branch
  \<^verbatim>\<open>FATAL("Invalid property id")\<close>, and neither sets the endpoint in error nor
  issues the property-set. On a little-endian host the same frame is handled as the claim
  says.
\<close>

theorem unsolicited_endpoint_state_id_not_decoded:
  "le_value (take 4 (cmd_payload endpoint_state_frame))
     = unat (PROP_ENDPOINT_STATE_0 big_endian_host + 7)
   \<and> \<not> listener_list_empty boot 7 \<and> endpoint_state boot 7 = SL_CPC_STATE_OPEN
   \<and> on_unsolicited big_endian_host endpoint_state_frame 11 boot = Inl (IllegalCommand, boot)
   \<and> on_unsolicited little_endian_host endpoint_state_frame 11 boot
       = Inr (boot\<lparr>next_command_seq := 1, commands := [0],
                  heap := [0 \<mapsto>
                    \<lparr>command =
                       \<lparr>cmd_command_id = CMD_SYSTEM_PROP_VALUE_SET, cmd_command_seq = 0,
                        cmd_length = 8,
                        cmd_payload = [0x07, 0x10, 0x00, 0x00, 0x01, 0x00, 0x00, 0x00]\<rparr>,
                     on_final = reply_to_closing_endpoint_on_secondary_callback,
                     retry_count = 5, retry_timeout_us = 100000,
                     error_status = SL_STATUS_OK, command_seq = 0,
                     file_descriptor = None\<rparr>],
                  next_handle := 1,
                  endpoint_state :=
                    (\<lambda>ep. SL_CPC_STATE_OPEN)(7 := SL_CPC_STATE_ERROR_DESTINATION_UNREACHABLE),
                  trace := trace boot @
                    [Core_set_endpoint_in_error 7 SL_CPC_STATE_ERROR_DESTINATION_UNREACHABLE,
                     Core_write SL_CPC_ENDPOINT_SYSTEM
                       [CMD_SYSTEM_PROP_VALUE_SET, 0, 8, 0x07, 0x10, 0x00, 0x00,
                        0x01, 0x00, 0x00, 0x00]
                       SL_CPC_FLAG_INFORMATION_POLL]\<rparr>)"
proof -
  have id: "le_value (take 4 (cmd_payload endpoint_state_frame))
     = unat (PROP_ENDPOINT_STATE_0 big_endian_host + 7)"
    by (simp add: endpoint_state_frame_def big_endian_host_def)
  have lb: "(load True [0x07, 0x10, 0x00, 0x00 :: u8] :: u32) = 0x07100000"
    by (simp add: load_def host_value_def)
  have be: "on_unsolicited big_endian_host endpoint_state_frame 11 boot
            = Inl (IllegalCommand, boot)"
    by (simp add: on_unsolicited_def endpoint_state_frame_def big_endian_host_def lb
        sizeof_sl_cpc_system_cmd_t_def sizeof_sl_cpc_property_id_t_def
        CMD_SYSTEM_PROP_VALUE_IS_def PROP_LAST_STATUS_def PROP_ENDPOINT_STATE_255_def Let_def)
  have l: "load False [0x07, 0x10, 0x00, 0x00 :: u8] = (0x1007 :: u32)"
    by (simp add: load_def host_value_def)
  have hyps: "int (unat (11 :: size_t)) - 3 = int (unat (cmd_length endpoint_state_frame))"
    "cmd_command_id endpoint_state_frame = CMD_SYSTEM_PROP_VALUE_IS"
    "4 \<le> length (cmd_payload endpoint_state_frame)"
    "load (host_big_endian little_endian_host) (take 4 (cmd_payload endpoint_state_frame))
       = PROP_ENDPOINT_STATE_0 little_endian_host + ucast (7 :: u8)"
    "unat (PROP_ENDPOINT_STATE_0 little_endian_host) + 255 < 2 ^ 32"
    "PROP_ENDPOINT_STATE_0 little_endian_host + ucast (7 :: u8) \<noteq> PROP_LAST_STATUS"
    "\<not> listener_list_empty boot 7"
    "endpoint_state boot 7 = SL_CPC_STATE_OPEN"
    by (simp_all add: endpoint_state_frame_def little_endian_host_def l PROP_LAST_STATUS_def)
  have le: "on_unsolicited little_endian_host endpoint_state_frame 11 boot
       = Inr (boot\<lparr>next_command_seq := 1, commands := [0],
                  heap := [0 \<mapsto>
                    \<lparr>command =
                       \<lparr>cmd_command_id = CMD_SYSTEM_PROP_VALUE_SET, cmd_command_seq = 0,
                        cmd_length = 8,
                        cmd_payload = [0x07, 0x10, 0x00, 0x00, 0x01, 0x00, 0x00, 0x00]\<rparr>,
                     on_final = reply_to_closing_endpoint_on_secondary_callback,
                     retry_count = 5, retry_timeout_us = 100000,
                     error_status = SL_STATUS_OK, command_seq = 0,
                     file_descriptor = None\<rparr>],
                  next_handle := 1,
                  endpoint_state :=
                    (\<lambda>ep. SL_CPC_STATE_OPEN)(7 := SL_CPC_STATE_ERROR_DESTINATION_UNREACHABLE),
                  trace := trace boot @
                    [Core_set_endpoint_in_error 7 SL_CPC_STATE_ERROR_DESTINATION_UNREACHABLE,
                     Core_write SL_CPC_ENDPOINT_SYSTEM
                       [CMD_SYSTEM_PROP_VALUE_SET, 0, 8, 0x07, 0x10, 0x00, 0x00,
                        0x01, 0x00, 0x00, 0x00]
                       SL_CPC_FLAG_INFORMATION_POLL]\<rparr>)"
    unfolding unsolicited_endpoint_state_host_order_id [OF hyps, THEN conjunct2]
    by (simp add: little_endian_host_def le_bytes_eval)
  from id be le hyps(7,8) show ?thesis by simp
qed

text \<open>
  Claim C2 as stated fails on a big-endian host: the four bytes \<open>12 34 56 78\<close> that
  hold \<open>0x12345678\<close> there are sent as \<open>78 56 34 12\<close>, and
  \<^verbatim>\<open>on_final_property_is\<close> hands the handler \<open>78 56 34 12\<close>, which is
  not the value passed in and reads as \<open>0x78563412\<close> in host order.
\<close>

theorem property_value_not_swapped_back_on_big_endian_host:
  "store True (0x12345678 :: u32) = [0x12, 0x34, 0x56, 0x78]
   \<and> sl_cpc_system_cmd_property_set big_endian_host (User_callback 0) 0 100000 0x0A
        [0x12, 0x34, 0x56, 0x78] 4 boot
       = Inr (boot\<lparr>next_command_seq := 1, commands := [0], heap := [0 \<mapsto> example_handle],
                  next_handle := 1,
                  trace := trace boot @
                    [Core_write SL_CPC_ENDPOINT_SYSTEM
                       [CMD_SYSTEM_PROP_VALUE_SET, 0, 8,
                        0x0A, 0x00, 0x00, 0x00, 0x78, 0x56, 0x34, 0x12]
                       SL_CPC_FLAG_INFORMATION_POLL]\<rparr>)
   \<and> on_final_property_is big_endian_host 0 example_handle
        \<lparr>cmd_command_id = CMD_SYSTEM_PROP_VALUE_IS, cmd_command_seq = 0, cmd_length = 8,
         cmd_payload = [0x0A, 0x00, 0x00, 0x00, 0x78, 0x56, 0x34, 0x12]\<rparr> boot
       = Inr (emit [Property_callback (User_callback 0) 0 0x0A
                      (Some [0x78, 0x56, 0x34, 0x12]) 4 SL_STATUS_OK] boot)
   \<and> [0x78, 0x56, 0x34, 0x12] \<noteq> [0x12, 0x34, 0x56, 0x78 :: u8]
   \<and> (load True [0x78, 0x56, 0x34, 0x12] :: u32) = 0x78563412"
proof -
  have st: "store True (0x12345678 :: u32) = [0x12, 0x34, 0x56, 0x78]"
    by (simp add: store_def host_bytes_def le_bytes_eval)
  have v: "property_set_value True [0x12, 0x34, 0x56, 0x78] 4 = [0x78, 0x56, 0x34, 0x12]"
    using property_set_value_store_u32 [of True "0x12345678"]
    by (simp add: st le_bytes_eval)
  have enc: "sl_cpc_system_cmd_property_set big_endian_host (User_callback 0) 0 100000 0x0A
        [0x12, 0x34, 0x56, 0x78] 4 boot
       = Inr (boot\<lparr>next_command_seq := 1, commands := [0], heap := [0 \<mapsto> example_handle],
                  next_handle := 1,
                  trace := trace boot @
                    [Core_write SL_CPC_ENDPOINT_SYSTEM
                       [CMD_SYSTEM_PROP_VALUE_SET, 0, 8,
                        0x0A, 0x00, 0x00, 0x00, 0x78, 0x56, 0x34, 0x12]
                       SL_CPC_FLAG_INFORMATION_POLL]\<rparr>)"
    by (subst property_set_ok)
       (simp_all add: big_endian_host_def v example_handle_def le_bytes_eval command_bytes_def)
  have dec: "on_final_property_is big_endian_host 0 example_handle
        \<lparr>cmd_command_id = CMD_SYSTEM_PROP_VALUE_IS, cmd_command_seq = 0, cmd_length = 8,
         cmd_payload = [0x0A, 0x00, 0x00, 0x00, 0x78, 0x56, 0x34, 0x12]\<rparr> boot
       = Inr (emit [Property_callback (User_callback 0) 0 0x0A
                      (Some [0x78, 0x56, 0x34, 0x12]) 4 SL_STATUS_OK] boot)"
    using on_final_property_is_decodes
            [of 4 "[0x78, 0x56, 0x34, 0x12]" big_endian_host 0 example_handle 0 "0x0A" boot]
    by (simp add: example_handle_def le_bytes_eval)
  have ld: "(load True [0x78, 0x56, 0x34, 0x12] :: u32) = 0x78563412"
    by (simp add: load_def host_value_def)
  from st enc dec ld show ?thesis by simp
qed

text \<open>
  Claim C10 on a big-endian host, for a property-get of property \<open>0x0A\<close>: the
  timeout path reports \<open>0x0A000000\<close>, the reply path \<open>0x0A\<close>.
\<close>

theorem property_timeout_passes_wire_order_id_witness:
  "heap after_property_get 0 = Some property_get_handle
   \<and> retry_count property_get_handle = 0
   \<and> cmd_command_id (command property_get_handle) = CMD_SYSTEM_PROP_VALUE_GET
   \<and> find_command after_property_get (cmd_command_seq (command property_get_handle)) = Some 0
   \<and> (\<exists>s'. on_timer_expired big_endian_host 0 after_property_get = Inr s'
          \<and> trace s' = trace after_property_get @
               [Timerfd_read None, Epoll_unregister 0, Close_fd None,
                Property_callback (User_callback 0) 0 0x0A000000 None 0 SL_STATUS_TIMEOUT,
                Free_command 0, Free_handle 0])
   \<and> (\<exists>s'. on_timer_expired_uframe big_endian_host 0 after_property_get = Inr s'
          \<and> trace s' = trace after_property_get @
               [Timerfd_read None, Epoll_unregister 0, Close_fd None,
                Property_callback (User_callback 0) 0 0x0A000000 None 0 SL_STATUS_TIMEOUT,
                Free_command 0, Free_handle 0])
   \<and> on_final_property_is big_endian_host 0 property_get_handle property_is_frame boot
       = Inr (emit [Property_callback (User_callback 0) 0 0x0A (Some [0x2A]) 1 SL_STATUS_OK]
                boot)"
proof -
  have st: "store True (cpu_to_le True (0x0A :: u32)) = [0x0A, 0x00, 0x00, 0x00]"
    using store_cpu_to_le [where 'a = 32, of True "0x0A"] by (simp add: le_bytes_eval)
  have ld: "load True [0x0A, 0x00, 0x00, 0x00 :: u8] = (0x0A000000 :: u32)"
    by (simp add: load_def host_value_def)
  have fc: "find_command after_property_get (cmd_command_seq (command property_get_handle))
            = Some 0"
    by (simp add: find_command_def after_property_get_def property_get_handle_def)
  have hyps: "heap after_property_get 0 = Some property_get_handle"
    "retry_count property_get_handle = 0"
    "cmd_command_id (command property_get_handle) = CMD_SYSTEM_PROP_VALUE_GET
     \<or> cmd_command_id (command property_get_handle) = CMD_SYSTEM_PROP_VALUE_SET"
    "take 4 (cmd_payload (command property_get_handle))
     = store (host_big_endian big_endian_host)
         (cpu_to_le (host_big_endian big_endian_host) (0x0A :: u32))"
    "take 4 (cmd_payload property_is_frame) = take 4 (cmd_payload (command property_get_handle))"
    by (simp_all add: after_property_get_def property_get_handle_def property_is_frame_def
        big_endian_host_def st)
  have raw: "load (host_big_endian big_endian_host)
               (take 4 (cmd_payload (command property_get_handle))) = (0x0A000000 :: u32)"
    by (simp add: property_get_handle_def big_endian_host_def ld)
  have flds: "file_descriptor property_get_handle = None"
    "on_final property_get_handle = User_callback 0"
    "error_status property_get_handle = SL_STATUS_OK"
    "(ucast (cmd_length property_is_frame) - 4 :: size_t) = 1"
    "drop 4 (cmd_payload property_is_frame) = [0x2A]"
    by (simp_all add: property_get_handle_def property_is_frame_def)
  have idg: "cmd_command_id (command property_get_handle) = CMD_SYSTEM_PROP_VALUE_GET"
    by (simp add: property_get_handle_def)
  note T = property_timeout_passes_wire_order_id [OF hyps, of boot, unfolded raw flds]
  from T fc hyps idg show ?thesis by simp
qed

lemma emit_fields [simp]:
  "heap (emit es s) = heap s" "commands (emit es s) = commands s"
  "next_handle (emit es s) = next_handle s" "next_command_seq (emit es s) = next_command_seq s"
  "timer_fds (emit es s) = timer_fds s" "epoll_set (emit es s) = epoll_set s"
  "next_fd (emit es s) = next_fd s" "trace (emit es s) = trace s @ es"
  "prop_last_status_callbacks (emit es s) = prop_last_status_callbacks s"
  "endpoint_state (emit es s) = endpoint_state s"
  "listener_list_empty (emit es s) = listener_list_empty s"
  by (simp_all add: emit_def)

lemma timer_setups_emit:
  "timer_setups (emit es s) = timer_setups s @ filter is_timer_setup es"
  by (simp add: timer_setups_def emit_def)

lemma drain_commands_eq:
  "commands s = cs \<Longrightarrow>
   drain_commands s =
     s\<lparr>commands := [],
       heap := (\<lambda>x. if x \<in> set cs then None else heap s x),
       trace := trace s @ concat (map (\<lambda>h. [Warn ''Dropped system command id #%d seq#%d'',
                                               Free_handle h]) cs)\<rparr>"
proof (induction cs arbitrary: s)
  case Nil
  then show ?case
    by (subst drain_commands.simps) (simp add: sl_slist_pop_def)
next
  case (Cons h rest)
  let ?s1 = "free_handle h
               (emit [Warn ''Dropped system command id #%d seq#%d''] (s\<lparr>commands := rest\<rparr>))"
  have c1: "commands ?s1 = rest"
    by (simp add: free_handle_def emit_def)
  have "drain_commands s = drain_commands ?s1"
    using Cons.prems by (subst drain_commands.simps) (simp add: sl_slist_pop_def)
  also have "\<dots> = ?s1\<lparr>commands := [],
       heap := (\<lambda>x. if x \<in> set rest then None else heap ?s1 x),
       trace := trace ?s1 @ concat (map (\<lambda>h. [Warn ''Dropped system command id #%d seq#%d'',
                                               Free_handle h]) rest)\<rparr>"
    by (rule Cons.IH [OF c1])
  also have "\<dots> = s\<lparr>commands := [],
       heap := (\<lambda>x. if x \<in> set (h # rest) then None else heap s x),
       trace := trace s @ concat (map (\<lambda>h. [Warn ''Dropped system command id #%d seq#%d'',
                                               Free_handle h]) (h # rest))\<rparr>"
    by (auto simp: free_handle_def emit_def fun_eq_iff)
  finally show ?case .
qed

lemma reset_system_endpoint_eq:
  "sl_cpc_system_reset_system_endpoint s =
     s\<lparr>commands := [],
       heap := (\<lambda>x. if x \<in> set (commands s) then None else heap s x),
       trace := trace s @
         [Core_write SL_CPC_ENDPOINT_SYSTEM [] SL_CPC_FLAG_UNNUMBERED_RESET_COMMAND,
          Core_process_transmit_queue]
         @ concat (map (\<lambda>h. [Warn ''Dropped system command id #%d seq#%d'', Free_handle h])
                     (commands s))
         @ [Core_close_endpoint SL_CPC_ENDPOINT_SYSTEM,
            Core_open_endpoint SL_CPC_ENDPOINT_SYSTEM False,
            Core_set_endpoint_option SL_CPC_ENDPOINT_SYSTEM SL_CPC_ENDPOINT_ON_FINAL,
            Core_set_endpoint_option SL_CPC_ENDPOINT_SYSTEM SL_CPC_ENDPOINT_ON_UFRAME_RECEIVE]\<rparr>"
proof -
  let ?s0 = "emit [Core_write SL_CPC_ENDPOINT_SYSTEM [] SL_CPC_FLAG_UNNUMBERED_RESET_COMMAND,
                   Core_process_transmit_queue] s"
  have c: "commands ?s0 = commands s" by (simp add: emit_def)
  show ?thesis
    unfolding sl_cpc_system_reset_system_endpoint_def drain_commands_eq [OF c]
    by (simp add: sl_cpc_system_open_endpoint_def emit_def cong: if_cong)
qed

lemma noop_ok:
  "sl_cpc_system_cmd_noop cb rc rt s =
     Inr (s\<lparr>next_command_seq := next_command_seq s + 1,
            commands := commands s @ [next_handle s],
            heap := (heap s)(next_handle s \<mapsto>
              \<lparr>command = \<lparr>cmd_command_id = CMD_SYSTEM_NOOP,
                           cmd_command_seq = next_command_seq s,
                           cmd_length = 0, cmd_payload = []\<rparr>,
               on_final = cb, retry_count = rc, retry_timeout_us = rt,
               error_status = SL_STATUS_OK, command_seq = next_command_seq s,
               file_descriptor = None\<rparr>),
            next_handle := Suc (next_handle s),
            trace := trace s @
              [Core_write SL_CPC_ENDPOINT_SYSTEM [CMD_SYSTEM_NOOP, next_command_seq s, 0]
                 SL_CPC_FLAG_INFORMATION_POLL]\<rparr>)"
  by (simp add: sl_cpc_system_cmd_noop_def malloc_handle_def write_command_allocated
      command_bytes_def Let_def)

lemma reboot_ok:
  "sl_cpc_system_cmd_reboot cb rc rt s =
     Inr (s\<lparr>next_command_seq := next_command_seq s + 1,
            commands := commands s @ [next_handle s],
            heap := (heap s)(next_handle s \<mapsto>
              \<lparr>command = \<lparr>cmd_command_id = CMD_SYSTEM_RESET,
                           cmd_command_seq = next_command_seq s,
                           cmd_length = 0, cmd_payload = []\<rparr>,
               on_final = cb, retry_count = rc, retry_timeout_us = rt,
               error_status = SL_STATUS_OK, command_seq = next_command_seq s,
               file_descriptor = None\<rparr>),
            next_handle := Suc (next_handle s),
            trace := trace s @
              [Core_write SL_CPC_ENDPOINT_SYSTEM [CMD_SYSTEM_RESET, next_command_seq s, 0]
                 SL_CPC_FLAG_INFORMATION_POLL]\<rparr>)"
  by (simp add: sl_cpc_system_cmd_reboot_def malloc_handle_def write_command_allocated
      command_bytes_def Let_def)

lemma property_get_ok:
  "sl_cpc_system_cmd_property_get pf cb pid rc rt s =
     Inr (s\<lparr>next_command_seq := next_command_seq s + 1,
            commands := commands s @ [next_handle s],
            heap := (heap s)(next_handle s \<mapsto>
              \<lparr>command = \<lparr>cmd_command_id = CMD_SYSTEM_PROP_VALUE_GET,
                           cmd_command_seq = next_command_seq s,
                           cmd_length = 4, cmd_payload = le_bytes 4 (unat pid)\<rparr>,
               on_final = cb, retry_count = rc, retry_timeout_us = rt,
               error_status = SL_STATUS_OK, command_seq = next_command_seq s,
               file_descriptor = None\<rparr>),
            next_handle := Suc (next_handle s),
            trace := trace s @
              [Core_write SL_CPC_ENDPOINT_SYSTEM
                 ([CMD_SYSTEM_PROP_VALUE_GET, next_command_seq s, 4] @ le_bytes 4 (unat pid))
                 SL_CPC_FLAG_INFORMATION_POLL]\<rparr>)"
  by (simp add: sl_cpc_system_cmd_property_get_def malloc_handle_def write_command_allocated
      command_bytes_def sizeof_sl_cpc_property_id_t_def store_cpu_to_le Let_def)

lemma property_set_Inr:
  assumes "sl_cpc_system_cmd_property_set pf cb rc rt pid v n s = Inr s'"
  shows "cb \<noteq> NULL_callback" and "n \<noteq> 0" and "unat n \<le> length v"
  using assms
  by (auto simp: sl_cpc_system_cmd_property_set_def Let_def split: if_splits)

lemma is_timer_setup_map_last_status [simp]:
  "filter is_timer_setup (map (\<lambda>cb. Last_status_callback cb w) cbs) = []"
  by (induction cbs) auto

lemma is_timer_setup_drain [simp]:
  "filter is_timer_setup (concat (map (\<lambda>h. [Warn m, Free_handle h]) cs)) = []"
  by (induction cs) auto

lemma on_reply_effect:
  assumes "on_reply pf reply n s = Inr s'"
  shows "next_handle s' = next_handle s \<and> next_command_seq s' = next_command_seq s
         \<and> timer_setups s' = timer_setups s
         \<and> set (timer_fds s') \<subseteq> set (timer_fds s) \<and> set (epoll_set s') \<subseteq> set (epoll_set s)
         \<and> (commands s' = commands s \<and> heap s' = heap s
             \<or> (\<exists>h. h \<in> set (commands s) \<and> commands s' = remove1 h (commands s)
                     \<and> heap s' = (heap s)(h := None)))"
proof (cases "find_command s (cmd_command_seq reply)")
  case None
  with assms show ?thesis
    by (auto simp: on_reply_def timer_setups_emit split: if_splits)
next
  case (Some h)
  then have hin: "h \<in> set (commands s)" using find_command_Some by blast
  from assms Some hin show ?thesis
    by (auto simp: on_reply_def on_final_noop_def on_final_reset_def on_final_property_is_def
        Let_def free_command_and_handle_def close_fd_def epoll_unregister_def
        sl_slist_remove_def timer_setups_def emit_def
        split: if_splits option.splits sum.splits)
qed

lemma poll_acknowledged_effect:
  assumes "sl_cpc_system_cmd_poll_acknowledged c s = Inr s'"
  shows "next_handle s' = next_handle s \<and> next_command_seq s' = next_command_seq s
         \<and> commands s' = commands s
         \<and> (heap s' = heap s
             \<or> (\<exists>h d fd. heap s h = Some d \<and> heap s' = (heap s)(h \<mapsto> d\<lparr>file_descriptor := fd\<rparr>)))"
proof (cases "find_command s (cmd_command_seq c)")
  case None
  with assms show ?thesis
    by (auto simp: sl_cpc_system_cmd_poll_acknowledged_def)
next
  case (Some h)
  then obtain d where d: "heap s h = Some d" using find_command_Some by blast
  show ?thesis
  proof (cases "error_status d = SL_STATUS_OK")
    case True
    with assms Some d
    have "heap s' = (heap s)(h \<mapsto> d\<lparr>file_descriptor := Some (next_fd s)\<rparr>)"
      and "next_handle s' = next_handle s \<and> next_command_seq s' = next_command_seq s
           \<and> commands s' = commands s"
      by (auto simp: sl_cpc_system_cmd_poll_acknowledged_def timerfd_create_def
          epoll_register_def emit_def Let_def split: if_splits)
    with d show ?thesis by blast
  next
    case False
    with assms Some d show ?thesis
      by (auto simp: sl_cpc_system_cmd_poll_acknowledged_def split: if_splits)
  qed
qed

lemma timed_out_effect:
  assumes "sl_cpc_system_cmd_timed_out pf c s = Inr s'"
  shows "next_handle s' = next_handle s \<and> next_command_seq s' = next_command_seq s
         \<and> timer_setups s' = timer_setups s
         \<and> timer_fds s' = timer_fds s \<and> epoll_set s' = epoll_set s
         \<and> (\<exists>h. h \<in> set (commands s) \<and> commands s' = remove1 h (commands s)
                 \<and> heap s' = (heap s)(h := None))"
proof (cases "find_command s (cmd_command_seq c)")
  case None
  with assms show ?thesis by (simp add: sl_cpc_system_cmd_timed_out_def)
next
  case (Some h)
  then have hin: "h \<in> set (commands s)" using find_command_Some by blast
  from assms Some hin show ?thesis
    by (auto simp: sl_cpc_system_cmd_timed_out_def Let_def free_command_and_handle_def
        sl_slist_remove_def timer_setups_def emit_def
        split: if_splits option.splits)
qed

lemma on_timer_expired_effect:
  assumes "on_timer_expired pf h s = Inr s'"
  shows "next_handle s' = next_handle s \<and> next_command_seq s' = next_command_seq s
         \<and> timer_setups s' = timer_setups s
         \<and> set (timer_fds s') \<subseteq> set (timer_fds s) \<and> set (epoll_set s') \<subseteq> set (epoll_set s)
         \<and> ((\<exists>d. heap s h = Some d \<and> retry_count d > 0
                  \<and> commands s' = remove1 h (commands s) @ [h]
                  \<and> heap s' = (heap s)(h \<mapsto> d\<lparr>retry_count := retry_count d - 1,
                                                   error_status := SL_STATUS_IN_PROGRESS\<rparr>))
             \<or> (\<exists>g. g \<in> set (commands s) \<and> commands s' = remove1 g (commands s)
                     \<and> heap s' = (heap s)(g := None)))"
proof (cases "heap s h")
  case None
  with assms show ?thesis by (simp add: on_timer_expired_def)
next
  case (Some d)
  show ?thesis
  proof (cases "retry_count d > 0")
    case True
    with assms Some show ?thesis
      by (auto simp: on_timer_expired_def write_command_def sl_slist_remove_def
          sl_slist_push_back_def timer_setups_def emit_def)
  next
    case False
    let ?s1 = "close_fd (file_descriptor d)
                 (epoll_unregister h (emit [Timerfd_read (file_descriptor d)] s))"
    from assms Some False
    have "sl_cpc_system_cmd_timed_out pf (command d) ?s1 = Inr s'"
      by (simp add: on_timer_expired_def)
    from timed_out_effect [OF this] show ?thesis
      by (auto simp: close_fd_def epoll_unregister_def emit_def timer_setups_def
          split: option.splits)
  qed
qed

lemma property_set_effect:
  assumes "sl_cpc_system_cmd_property_set pf cb rc rt pid v n s = Inr s'"
  shows "\<exists>d. commands s' = commands s @ [next_handle s]
            \<and> heap s' = (heap s)(next_handle s \<mapsto> d)
            \<and> command_seq d = next_command_seq s
            \<and> next_handle s' = Suc (next_handle s)
            \<and> next_command_seq s' = next_command_seq s + 1
            \<and> timer_setups s' = timer_setups s
            \<and> timer_fds s' = timer_fds s \<and> epoll_set s' = epoll_set s"
  using assms property_set_ok [OF property_set_Inr [OF assms], of pf rc rt pid s]
  by (auto simp: timer_setups_def)

lemma on_unsolicited_effect:
  assumes "on_unsolicited pf reply m s = Inr s'"
  shows "timer_setups s' = timer_setups s
         \<and> timer_fds s' = timer_fds s \<and> epoll_set s' = epoll_set s
         \<and> (commands s' = commands s \<and> heap s' = heap s
              \<and> next_handle s' = next_handle s \<and> next_command_seq s' = next_command_seq s
             \<or> (\<exists>d. commands s' = commands s @ [next_handle s]
                     \<and> heap s' = (heap s)(next_handle s \<mapsto> d)
                     \<and> command_seq d = next_command_seq s
                     \<and> next_handle s' = Suc (next_handle s)
                     \<and> next_command_seq s' = next_command_seq s + 1))"
proof -
  have core: "\<And>ep r. timer_setups (core_set_endpoint_in_error ep r s) = timer_setups s
      \<and> timer_fds (core_set_endpoint_in_error ep r s) = timer_fds s
      \<and> epoll_set (core_set_endpoint_in_error ep r s) = epoll_set s
      \<and> commands (core_set_endpoint_in_error ep r s) = commands s
      \<and> heap (core_set_endpoint_in_error ep r s) = heap s
      \<and> next_handle (core_set_endpoint_in_error ep r s) = next_handle s
      \<and> next_command_seq (core_set_endpoint_in_error ep r s) = next_command_seq s"
    by (simp add: core_set_endpoint_in_error_def timer_setups_def emit_def)
  from assms show ?thesis
    by (auto simp: on_unsolicited_def last_status_dispatch_def Let_def timer_setups_emit core
        split: if_splits dest!: property_set_effect)
qed

lemma step_cases [consumes 1, case_names same issue remove retransmit ack reset]:
  assumes "step pf i s = Inr s'"
  obtains
    (same) "commands s' = commands s" "heap s' = heap s"
      "next_handle s' = next_handle s" "next_command_seq s' = next_command_seq s"
  | (issue) d where "commands s' = commands s @ [next_handle s]"
      "heap s' = (heap s)(next_handle s \<mapsto> d)" "command_seq d = next_command_seq s"
      "next_handle s' = Suc (next_handle s)" "next_command_seq s' = next_command_seq s + 1"
  | (remove) h where "h \<in> set (commands s)" "commands s' = remove1 h (commands s)"
      "heap s' = (heap s)(h := None)"
      "next_handle s' = next_handle s" "next_command_seq s' = next_command_seq s"
  | (retransmit) h d where "i = Timer_expired h" "heap s h = Some d" "retry_count d > 0"
      "commands s' = remove1 h (commands s) @ [h]"
      "heap s' = (heap s)(h \<mapsto> d\<lparr>retry_count := retry_count d - 1,
                                      error_status := SL_STATUS_IN_PROGRESS\<rparr>)"
      "next_handle s' = next_handle s" "next_command_seq s' = next_command_seq s"
  | (ack) h d fd where "heap s h = Some d" "commands s' = commands s"
      "heap s' = (heap s)(h \<mapsto> d\<lparr>file_descriptor := fd\<rparr>)"
      "next_handle s' = next_handle s" "next_command_seq s' = next_command_seq s"
  | (reset) "commands s' = []"
      "heap s' = (\<lambda>x. if x \<in> set (commands s) then None else heap s x)"
      "next_handle s' = next_handle s" "next_command_seq s' = next_command_seq s"
proof (cases i)
  case (Cmd_noop cb rc rt)
  with assms show ?thesis using issue by (auto simp: noop_ok)
next
  case (Cmd_reboot cb rc rt)
  with assms show ?thesis using issue by (auto simp: reboot_ok)
next
  case (Cmd_property_get cb pid rc rt)
  with assms show ?thesis using issue by (auto simp: property_get_ok)
next
  case (Cmd_property_set cb rc rt pid v n)
  with assms have "sl_cpc_system_cmd_property_set pf cb rc rt pid v n s = Inr s'" by simp
  from property_set_effect [OF this] show ?thesis using issue by blast
next
  case (Poll_acknowledged c)
  with assms have "sl_cpc_system_cmd_poll_acknowledged c s = Inr s'" by simp
  from poll_acknowledged_effect [OF this] show ?thesis using same ack by blast
next
  case (Reply c n)
  with assms have "on_reply pf c n s = Inr s'" by simp
  from on_reply_effect [OF this] show ?thesis using same remove by blast
next
  case (Unsolicited c n)
  with assms have "on_unsolicited pf c n s = Inr s'" by simp
  from on_unsolicited_effect [OF this] show ?thesis using same issue by blast
next
  case (Timer_expired h)
  with assms have "on_timer_expired pf h s = Inr s'" by simp
  from on_timer_expired_effect [OF this] Timer_expired show ?thesis
    using retransmit remove by blast
next
  case Reset_system_endpoint
  with assms show ?thesis using reset by (auto simp: reset_system_endpoint_eq)
next
  case (Register_last_status_callback cb)
  with assms show ?thesis using same
    by (auto simp: sl_cpc_system_register_unsolicited_prop_last_status_callback_def)
qed

lemma well_formed_step:
  assumes "step pf i s = Inr s'" and "well_formed s"
  shows "well_formed s'"
  using assms(1)
proof (cases rule: step_cases)
  case same
  with assms(2) show ?thesis by (simp add: well_formed_def)
next
  case (issue d)
  with assms(2) show ?thesis
    by (auto simp: well_formed_def list_all_iff less_Suc_eq)
next
  case (remove h)
  with assms(2) show ?thesis
    by (auto simp: well_formed_def list_all_iff)
next
  case (retransmit h d)
  with assms(2) show ?thesis
    by (auto simp: well_formed_def list_all_iff)
next
  case (ack h d fd)
  with assms(2) show ?thesis
    by (auto simp: well_formed_def list_all_iff)
next
  case reset
  with assms(2) show ?thesis
    by (auto simp: well_formed_def dom_def)
qed

lemma distinct_map_remove1:
  "distinct (map f xs) \<Longrightarrow> distinct (map f (remove1 x xs))"
  by (auto simp: distinct_map intro: inj_on_subset dest: notin_set_remove1)

lemma distinct_map_rotate:
  assumes "distinct (map f xs)" and "x \<in> set xs"
  shows "distinct (map f (remove1 x xs @ [x]))"
proof -
  from assms(1) have d: "distinct xs" and i: "inj_on f (set xs)"
    by (simp_all add: distinct_map)
  have "set (remove1 x xs @ [x]) = set xs" using assms(2) d by auto
  moreover have "distinct (remove1 x xs @ [x])" using d by simp
  ultimately show ?thesis using i by (simp only: distinct_map)
qed

lemma table_seqs_cong:
  assumes "commands s' = commands s"
    and "\<And>h. h \<in> set (commands s) \<Longrightarrow>
           map_option command_seq (heap s' h) = map_option command_seq (heap s h)"
  shows "table_seqs s' = table_seqs s"
  using assms by (simp add: table_seqs_def)

lemma unique_seqs_step:
  assumes "step pf i s = Inr s'" and "well_formed s" and "unique_seqs s"
    and "issues pf i s \<longrightarrow> Some (next_command_seq s) \<notin> set (table_seqs s)"
  shows "unique_seqs s'"
  using assms(1)
proof (cases rule: step_cases)
  case same
  with assms(3) show ?thesis by (simp add: unique_seqs_def table_seqs_def)
next
  case (issue d)
  have "issues pf i s" using assms(1) issue(5) by (simp add: issues_def)
  with assms(4) have fresh: "Some (next_command_seq s) \<notin> set (table_seqs s)" by simp
  have nin: "next_handle s \<notin> set (commands s)"
    using assms(2) by (auto simp: well_formed_def list_all_iff)
  have "table_seqs s' = table_seqs s @ [Some (next_command_seq s)]"
    using issue nin by (auto simp: table_seqs_def)
  with fresh assms(3) show ?thesis by (simp add: unique_seqs_def)
next
  case (remove h)
  have d: "distinct (commands s)" using assms(2) by (simp add: well_formed_def)
  have "table_seqs s' = map (\<lambda>h. map_option command_seq (heap s h)) (remove1 h (commands s))"
    using remove d by (auto simp: table_seqs_def)
  with assms(3) show ?thesis
    by (simp add: unique_seqs_def table_seqs_def distinct_map_remove1)
next
  case (retransmit h d)
  have hin: "h \<in> set (commands s)"
    using assms(2) retransmit(2) by (auto simp: well_formed_def)
  have "table_seqs s' = map (\<lambda>h. map_option command_seq (heap s h))
                            (remove1 h (commands s) @ [h])"
    using retransmit by (auto simp: table_seqs_def)
  with assms(3) hin show ?thesis
    by (simp only: unique_seqs_def table_seqs_def distinct_map_rotate)
next
  case (ack h d fd)
  have "table_seqs s' = table_seqs s"
    using ack by (auto simp: table_seqs_def)
  with assms(3) show ?thesis by (simp add: unique_seqs_def)
next
  case reset
  then show ?thesis by (simp add: unique_seqs_def table_seqs_def)
qed

lemma unique_seqs_run:
  assumes "run pf ins s = Inr s'" and "issues_fresh pf ins s"
    and "well_formed s" and "unique_seqs s"
  shows "unique_seqs s' \<and> well_formed s'"
  using assms
proof (induction ins arbitrary: s)
  case Nil
  then show ?case by simp
next
  case (Cons i ins)
  from Cons.prems(1) obtain s1 where s1: "step pf i s = Inr s1" and r: "run pf ins s1 = Inr s'"
    by (auto split: sum.splits)
  from Cons.prems(2) s1
  have g: "issues pf i s \<longrightarrow> Some (next_command_seq s) \<notin> set (table_seqs s)"
    and f: "issues_fresh pf ins s1"
    by simp_all
  have "well_formed s1" using well_formed_step [OF s1 Cons.prems(3)] .
  moreover have "unique_seqs s1"
    using unique_seqs_step [OF s1 Cons.prems(3,4) g] .
  ultimately show ?case using Cons.IH [OF r f] by simp
qed

lemma init_well_formed:
  "well_formed (sl_cpc_system_init es le)" "unique_seqs (sl_cpc_system_init es le)"
  by (simp_all add: well_formed_def unique_seqs_def table_seqs_def sl_cpc_system_init_def
      sl_cpc_system_open_endpoint_def)

lemma run_noops:
  "\<exists>s'. run pf (replicate k (Cmd_noop cb rc rt)) s = Inr s'
        \<and> commands s' = commands s @ [next_handle s ..< next_handle s + k]
        \<and> next_handle s' = next_handle s + k
        \<and> (\<forall>h. h < next_handle s \<longrightarrow> heap s' h = heap s h)
        \<and> (\<forall>h. next_handle s \<le> h \<and> h < next_handle s + k \<longrightarrow>
               map_option command_seq (heap s' h)
                 = Some (next_command_seq s + of_nat (h - next_handle s)))"
proof (induction k arbitrary: s)
  case 0
  then show ?case by auto
next
  case (Suc k)
  obtain s1 where s1: "sl_cpc_system_cmd_noop cb rc rt s = Inr s1"
    and c1: "commands s1 = commands s @ [next_handle s]"
    and n1: "next_handle s1 = Suc (next_handle s)"
    and q1: "next_command_seq s1 = next_command_seq s + 1"
    and h1: "map_option command_seq (heap s1 (next_handle s)) = Some (next_command_seq s)"
    and o1: "\<forall>h. h < next_handle s \<longrightarrow> heap s1 h = heap s h"
    by (simp add: noop_ok)
  from Suc.IH [of s1] obtain s' where r: "run pf (replicate k (Cmd_noop cb rc rt)) s1 = Inr s'"
    and c: "commands s' = commands s1 @ [next_handle s1 ..< next_handle s1 + k]"
    and n: "next_handle s' = next_handle s1 + k"
    and o: "\<forall>h. h < next_handle s1 \<longrightarrow> heap s' h = heap s1 h"
    and h: "\<forall>h. next_handle s1 \<le> h \<and> h < next_handle s1 + k \<longrightarrow>
               map_option command_seq (heap s' h)
                 = Some (next_command_seq s1 + of_nat (h - next_handle s1))"
    by blast
  have "run pf (replicate (Suc k) (Cmd_noop cb rc rt)) s = Inr s'"
    using s1 r by simp
  moreover have "commands s' = commands s @ [next_handle s ..< next_handle s + Suc k]"
    using c c1 n1 by (simp add: upt_rec [of "next_handle s"])
  moreover have "next_handle s' = next_handle s + Suc k" using n n1 by simp
  moreover have "\<forall>h. h < next_handle s \<longrightarrow> heap s' h = heap s h"
    using o o1 n1 by simp
  moreover have "\<forall>h. next_handle s \<le> h \<and> h < next_handle s + Suc k \<longrightarrow>
               map_option command_seq (heap s' h)
                 = Some (next_command_seq s + of_nat (h - next_handle s))"
  proof (intro allI impI)
    fix h assume a: "next_handle s \<le> h \<and> h < next_handle s + Suc k"
    show "map_option command_seq (heap s' h)
            = Some (next_command_seq s + of_nat (h - next_handle s))"
    proof (cases "h = next_handle s")
      case True
      then show ?thesis using o h1 n1 by simp
    next
      case False
      with a have b: "next_handle s1 \<le> h \<and> h < next_handle s1 + k" using n1 by simp
      then have "h - next_handle s = Suc (h - next_handle s1)" using n1 by arith
      with h b q1 show ?thesis by (simp add: algebra_simps)
    qed
  qed
  ultimately show ?case by blast
qed

text \<open>
  Claim C3 as stated fails when the counter wraps while earlier descriptors are live:
  after 257 no-ops without any reply the table holds the handles 0 to 256, and the first
  and the last carry the same sequence number.
\<close>

theorem sequence_number_reused_after_wrap:
  "\<exists>s d d'. run little_endian_host (replicate 257 (Cmd_noop (User_callback 0) 0 0)) boot = Inr s
      \<and> commands s = [0 ..< 257]
      \<and> heap s 0 = Some d \<and> heap s 256 = Some d'
      \<and> command_seq d = command_seq d'
      \<and> \<not> unique_seqs s"
proof -
  define n :: nat where "n = 257"
  have b: "commands boot = []" "next_handle boot = 0" "next_command_seq boot = 0"
    by (simp_all add: boot_def sl_cpc_system_init_def sl_cpc_system_open_endpoint_def)
  from run_noops [of little_endian_host n "User_callback 0" 0 0 boot]
  obtain s where r: "run little_endian_host (replicate n (Cmd_noop (User_callback 0) 0 0)) boot
                     = Inr s"
    and c: "commands s = [0 ..< n]"
    and h: "\<forall>h. h < n \<longrightarrow> map_option command_seq (heap s h) = Some (of_nat h)"
    unfolding b by auto
  have "(0::nat) < n" and "(256::nat) < n" by (simp_all add: n_def)
  with h have h0: "map_option command_seq (heap s 0) = Some (of_nat 0)"
    and h256: "map_option command_seq (heap s 256) = Some (of_nat 256)"
    by blast+
  have z: "(of_nat 256 :: u8) = of_nat 0" by simp
  from h0 h256 z obtain d d' where d: "heap s 0 = Some d" "heap s 256 = Some d'"
    "command_seq d = command_seq d'"
    by auto
  have "\<not> distinct (map (\<lambda>h. map_option command_seq (heap s h)) [0 ..< n])"
  proof
    assume "distinct (map (\<lambda>h. map_option command_seq (heap s h)) [0 ..< n])"
    then have "inj_on (\<lambda>h. map_option command_seq (heap s h)) (set [0 ..< n])"
      by (simp add: distinct_map)
    moreover have "(0::nat) \<in> set [0 ..< n]" "(256::nat) \<in> set [0 ..< n]"
      by (simp_all add: n_def)
    ultimately have "(0::nat) = 256"
      using d by (auto simp only: inj_on_def map_option_case option.case)
    then show False by simp
  qed
  then have "\<not> unique_seqs s" using c by (simp add: unique_seqs_def table_seqs_def)
  with r c d show ?thesis unfolding n_def by blast
qed

lemma table_seqs_step:
  assumes "step pf i s = Inr s'" and "well_formed s"
  shows "next_command_seq s' = next_command_seq s \<and> set (table_seqs s') \<subseteq> set (table_seqs s)
         \<or> next_command_seq s' = next_command_seq s + 1
            \<and> table_seqs s' = table_seqs s @ [Some (next_command_seq s)]"
  using assms(1)
proof (cases rule: step_cases)
  case same
  then show ?thesis by (simp add: table_seqs_def)
next
  case (issue d)
  have "next_handle s \<notin> set (commands s)"
    using assms(2) by (auto simp: well_formed_def list_all_iff)
  with issue show ?thesis by (auto simp: table_seqs_def)
next
  case (remove h)
  have "distinct (commands s)" using assms(2) by (simp add: well_formed_def)
  with remove show ?thesis by (auto simp: table_seqs_def)
next
  case (retransmit h d)
  have "h \<in> set (commands s)"
    using assms(2) retransmit(2) by (auto simp: well_formed_def)
  then have sub: "set (remove1 h (commands s) @ [h]) \<subseteq> set (commands s)"
    using set_remove1_subset [of h "commands s"] by auto
  have "table_seqs s' = map (\<lambda>h. map_option command_seq (heap s h))
                            (remove1 h (commands s) @ [h])"
    using retransmit by (auto simp: table_seqs_def)
  then have "set (table_seqs s') \<subseteq> set (table_seqs s)"
    using sub unfolding table_seqs_def by (simp only: set_map image_mono)
  with retransmit show ?thesis by simp
next
  case (ack h d fd)
  have "table_seqs s' = table_seqs s"
    using ack by (auto simp: table_seqs_def)
  with ack show ?thesis by simp
next
  case reset
  then show ?thesis by (simp add: table_seqs_def)
qed

lemma of_nat_u8_inj:
  assumes "j < 256" and "k < 256" and "(of_nat j :: u8) = of_nat k"
  shows "j = k"
proof -
  have j: "unat (of_nat j :: u8) = j" and k: "unat (of_nat k :: u8) = k"
    using assms(1,2) by (simp_all add: unat_of_nat)
  have "unat (of_nat j :: u8) = unat (of_nat k :: u8)"
    by (rule arg_cong [OF assms(3)])
  then show ?thesis by (simp only: j k)
qed

lemma issues_fresh_short_run:
  assumes "well_formed s" and "next_command_seq s = of_nat k"
    and "\<forall>q \<in> set (table_seqs s). \<exists>j<k. q = Some (of_nat j)"
    and "k + length ins \<le> 256"
  shows "issues_fresh pf ins s"
  using assms
proof (induction ins arbitrary: s k)
  case Nil
  then show ?case by simp
next
  case (Cons i ins)
  show ?case
  proof (cases "step pf i s")
    case (Inl e)
    then show ?thesis by simp
  next
    case (Inr s1)
    have k: "k < 256" using Cons.prems(4) by simp
    have fresh: "Some (next_command_seq s) \<notin> set (table_seqs s)"
    proof
      assume "Some (next_command_seq s) \<in> set (table_seqs s)"
      with Cons.prems(2,3) obtain j where "j < k" "(of_nat k :: u8) = of_nat j" by auto
      with k of_nat_u8_inj [of j k] show False by simp
    qed
    have wf1: "well_formed s1" using well_formed_step [OF Inr Cons.prems(1)] .
    from table_seqs_step [OF Inr Cons.prems(1)]
    have "issues_fresh pf ins s1"
    proof
      assume a: "next_command_seq s1 = next_command_seq s
                 \<and> set (table_seqs s1) \<subseteq> set (table_seqs s)"
      show ?thesis
      proof (rule Cons.IH [OF wf1, of k])
        show "next_command_seq s1 = of_nat k" using a Cons.prems(2) by simp
        show "\<forall>q \<in> set (table_seqs s1). \<exists>j<k. q = Some (of_nat j)"
          using a Cons.prems(3) by blast
        show "k + length ins \<le> 256" using Cons.prems(4) by simp
      qed
    next
      assume a: "next_command_seq s1 = next_command_seq s + 1
                 \<and> table_seqs s1 = table_seqs s @ [Some (next_command_seq s)]"
      show ?thesis
      proof (rule Cons.IH [OF wf1, of "Suc k"])
        show "next_command_seq s1 = of_nat (Suc k)" using a Cons.prems(2) by simp
        show "\<forall>q \<in> set (table_seqs s1). \<exists>j<Suc k. q = Some (of_nat j)"
          using a Cons.prems(2,3) by (auto simp: less_Suc_eq)
        show "Suc k + length ins \<le> 256" using Cons.prems(4) by simp
      qed
    qed
    with Inr fresh show ?thesis by simp
  qed
qed

lemma issues_fresh_from_init:
  assumes "length ins \<le> 256"
  shows "issues_fresh pf ins (sl_cpc_system_init es le)"
proof (rule issues_fresh_short_run [of _ 0])
  show "well_formed (sl_cpc_system_init es le)" by (rule init_well_formed)
  show "next_command_seq (sl_cpc_system_init es le) = of_nat 0"
    by (simp add: sl_cpc_system_init_def sl_cpc_system_open_endpoint_def)
  show "\<forall>q \<in> set (table_seqs (sl_cpc_system_init es le)). \<exists>j<0. q = Some (of_nat j)"
    by (simp add: table_seqs_def sl_cpc_system_init_def sl_cpc_system_open_endpoint_def)
  show "0 + length ins \<le> 256" using assms by simp
qed

text \<open>
  Claim C3 (as amended). From initialisation, after any sequence of issuer calls, poll
  acknowledgements, replies, unsolicited frames, timer expirations and endpoint resets that
  ends without a fatal error, no two live descriptors share a sequence number, provided
  that no command was issued while the counter's value was the sequence number of a live
  descriptor. That proviso holds for every sequence of at most 256 inputs.
\<close>

theorem sequence_numbers_unique_while_counter_fresh:
  assumes "run pf ins (sl_cpc_system_init es le) = Inr s"
  shows "(issues_fresh pf ins (sl_cpc_system_init es le) \<longrightarrow> unique_seqs s)
         \<and> (length ins \<le> 256 \<longrightarrow> unique_seqs s)"
  using unique_seqs_run [OF assms _ init_well_formed] issues_fresh_from_init [of ins pf es le]
  by blast

lemma example_run:
  "\<exists>s. run little_endian_host example_inputs boot = Inr s"
  by (simp add: example_inputs_def noop_ok reboot_ok boot_defs noop_frame_def
      sl_cpc_system_cmd_poll_acknowledged_def find_command_def timerfd_create_def
      epoll_register_def on_timer_expired_def write_command_def Let_def)

text \<open>
  The amended claim C3 on a run of four inputs.
\<close>

theorem sequence_numbers_unique_while_counter_fresh_witness:
  "length example_inputs \<le> 256
   \<and> issues_fresh little_endian_host example_inputs boot
   \<and> (\<exists>s. run little_endian_host example_inputs boot = Inr s \<and> unique_seqs s)"
proof -
  from example_run obtain s where r: "run little_endian_host example_inputs boot = Inr s" ..
  have l: "length example_inputs \<le> 256" by (simp add: example_inputs_def)
  have f: "issues_fresh little_endian_host example_inputs boot"
    unfolding boot_def using l by (rule issues_fresh_from_init)
  from sequence_numbers_unique_while_counter_fresh [OF r [unfolded boot_def]] l
  have "unique_seqs s" by blast
  with r l f show ?thesis by blast
qed

lemma unat_pred_u8:
  assumes "(w :: u8) > 0"
  shows "Suc (unat (w - 1)) = unat w"
proof -
  have "w \<noteq> 0" using assms by auto
  then have "unat w \<noteq> 0" by (simp add: unat_eq_0)
  moreover have "unat (w - 1) = unat w - 1"
    using \<open>w \<noteq> 0\<close> by (simp add: unat_minus_one)
  ultimately show ?thesis by simp
qed

lemma retries_step:
  assumes "step pf i s = Inr s'" and "h < next_handle s"
  shows "h < next_handle s'
         \<and> retries_left s' h
             + (if i = Timer_expired h
                   \<and> (case heap s h of None \<Rightarrow> False | Some d \<Rightarrow> retry_count d > 0)
                then 1 else 0)
           \<le> retries_left s h"
proof (cases "i = Timer_expired h
               \<and> (case heap s h of None \<Rightarrow> False | Some d \<Rightarrow> retry_count d > 0)")
  case True
  then obtain d where d: "heap s h = Some d" "retry_count d > 0" and i: "i = Timer_expired h"
    by (auto split: option.splits)
  from assms(1) i have "on_timer_expired pf h s = Inr s'" by simp
  with on_timer_expired_retry [OF d, of pf]
  have "heap s' h = Some (d\<lparr>retry_count := retry_count d - 1,
                              error_status := SL_STATUS_IN_PROGRESS\<rparr>)"
    and "next_handle s' = next_handle s"
    by auto
  with True d assms(2) unat_pred_u8 [OF d(2)] show ?thesis
    by (simp add: retries_left_def)
next
  case False
  from assms(1) have "h < next_handle s' \<and> retries_left s' h \<le> retries_left s h"
  proof (cases rule: step_cases)
    case same
    with assms(2) show ?thesis by (simp add: retries_left_def)
  next
    case (issue d)
    with assms(2) show ?thesis by (simp add: retries_left_def)
  next
    case (remove g)
    with assms(2) show ?thesis by (simp add: retries_left_def)
  next
    case (retransmit g d)
    with False have "g \<noteq> h" by auto
    with retransmit assms(2) show ?thesis by (simp add: retries_left_def)
  next
    case (ack g d fd)
    with assms(2) show ?thesis by (auto simp: retries_left_def)
  next
    case reset
    with assms(2) show ?thesis by (simp add: retries_left_def split: option.splits)
  qed
  with False show ?thesis by auto
qed

lemma retransmissions_bounded:
  "h < next_handle s \<Longrightarrow> retransmissions pf h ins s \<le> retries_left s h"
proof (induction ins arbitrary: s)
  case Nil
  then show ?case by simp
next
  case (Cons i ins)
  show ?case
  proof (cases "step pf i s")
    case (Inl e)
    then show ?thesis by simp
  next
    case (Inr s1)
    from retries_step [OF Inr Cons.prems]
    have n: "h < next_handle s1"
      and r: "retries_left s1 h
             + (if i = Timer_expired h
                   \<and> (case heap s h of None \<Rightarrow> False | Some d \<Rightarrow> retry_count d > 0)
                then 1 else 0)
           \<le> retries_left s h"
      by simp_all
    from Cons.IH [OF n] have "retransmissions pf h ins s1 \<le> retries_left s1 h" .
    with r Inr show ?thesis by simp
  qed
qed

lemma noop_boot:
  "sl_cpc_system_cmd_noop (User_callback 0) 1 1000 boot = Inr after_noop"
  by (simp add: noop_ok after_noop_def noop_handle_def noop_frame_def)

lemma issuer_timers:
  "sl_cpc_system_cmd_noop cb rc rt s = Inr s' \<Longrightarrow>
     timer_setups s' = timer_setups s \<and> timer_fds s' = timer_fds s \<and> epoll_set s' = epoll_set s"
  "sl_cpc_system_cmd_reboot cb rc rt s = Inr s' \<Longrightarrow>
     timer_setups s' = timer_setups s \<and> timer_fds s' = timer_fds s \<and> epoll_set s' = epoll_set s"
  "sl_cpc_system_cmd_property_get pf cb pid rc rt s = Inr s' \<Longrightarrow>
     timer_setups s' = timer_setups s \<and> timer_fds s' = timer_fds s \<and> epoll_set s' = epoll_set s"
  by (auto simp: noop_ok reboot_ok property_get_ok timer_setups_def)

lemma reset_timers:
  "timer_setups (sl_cpc_system_reset_system_endpoint s) = timer_setups s"
  "timer_fds (sl_cpc_system_reset_system_endpoint s) = timer_fds s"
  "epoll_set (sl_cpc_system_reset_system_endpoint s) = epoll_set s"
  "commands (sl_cpc_system_reset_system_endpoint s) = []"
  by (simp_all add: reset_system_endpoint_eq timer_setups_def)

lemma step_timers:
  assumes "step pf i s = Inr s'" and "\<forall>c. i \<noteq> Poll_acknowledged c"
  shows "timer_setups s' = timer_setups s
         \<and> set (timer_fds s') \<subseteq> set (timer_fds s) \<and> set (epoll_set s') \<subseteq> set (epoll_set s)"
proof (cases i)
  case (Cmd_noop cb rc rt)
  with assms(1) show ?thesis using issuer_timers(1) [of cb rc rt s s'] by simp
next
  case (Cmd_reboot cb rc rt)
  with assms(1) show ?thesis using issuer_timers(2) [of cb rc rt s s'] by simp
next
  case (Cmd_property_get cb pid rc rt)
  with assms(1) show ?thesis using issuer_timers(3) [of pf cb pid rc rt s s'] by simp
next
  case (Cmd_property_set cb rc rt pid v n)
  with assms(1) have "sl_cpc_system_cmd_property_set pf cb rc rt pid v n s = Inr s'" by simp
  from property_set_effect [OF this] show ?thesis by auto
next
  case (Poll_acknowledged c)
  with assms(2) show ?thesis by simp
next
  case (Reply c n)
  with assms(1) have "on_reply pf c n s = Inr s'" by simp
  from on_reply_effect [OF this] show ?thesis by simp
next
  case (Unsolicited c n)
  with assms(1) have "on_unsolicited pf c n s = Inr s'" by simp
  from on_unsolicited_effect [OF this] show ?thesis by simp
next
  case (Timer_expired h)
  with assms(1) have "on_timer_expired pf h s = Inr s'" by simp
  from on_timer_expired_effect [OF this] show ?thesis by simp
next
  case Reset_system_endpoint
  with assms(1) show ?thesis by (auto simp: reset_timers)
next
  case (Register_last_status_callback cb)
  with assms(1) show ?thesis
    by (auto simp: sl_cpc_system_register_unsolicited_prop_last_status_callback_def
        timer_setups_def)
qed

lemma poll_acknowledged_first:
  assumes "find_command s (cmd_command_seq c) = Some h" and "heap s h = Some d"
    and "error_status d = SL_STATUS_OK"
  shows "sl_cpc_system_cmd_poll_acknowledged c s =
     (if timerfd_settime_fails (timeout_tv_nsec (retry_timeout_us d))
      then Inl (SyscallFailure,
                s\<lparr>timer_fds := timer_fds s @ [next_fd s], next_fd := Suc (next_fd s),
                  trace := trace s @ [Timerfd_create (next_fd s)]\<rparr>)
      else
        Inr (s\<lparr>timer_fds := timer_fds s @ [next_fd s], next_fd := Suc (next_fd s),
               heap := (heap s)(h \<mapsto> d\<lparr>file_descriptor := Some (next_fd s)\<rparr>),
               epoll_set := epoll_set s @ [h],
               trace := trace s @
                 [Timerfd_create (next_fd s),
                  Timerfd_settime (Some (next_fd s)) (retry_timeout_us d) 0,
                  Epoll_register h]\<rparr>))"
  using assms
  by (simp add: sl_cpc_system_cmd_poll_acknowledged_def timerfd_create_def epoll_register_def
      emit_def Let_def)

lemma poll_acknowledged_again:
  assumes "find_command s (cmd_command_seq c) = Some h" and "heap s h = Some d"
    and "error_status d = SL_STATUS_IN_PROGRESS"
  shows "sl_cpc_system_cmd_poll_acknowledged c s =
     (if timerfd_settime_fails (timeout_tv_nsec (retry_timeout_us d))
      then Inl (SyscallFailure, s)
      else Inr (s\<lparr>trace := trace s @
                   [Timerfd_settime (file_descriptor d) (retry_timeout_us d) 0]\<rparr>))"
  using assms
  by (simp add: sl_cpc_system_cmd_poll_acknowledged_def emit_def)

lemma poll_acknowledged_timer_setups:
  assumes "sl_cpc_system_cmd_poll_acknowledged c s = Inr s'"
  shows "timer_setups s' = timer_setups s
         \<or> (\<exists>h d. find_command s (cmd_command_seq c) = Some h \<and> heap s h = Some d
                \<and> error_status d = SL_STATUS_OK
                \<and> timer_setups s' = timer_setups s @ [Timerfd_create (next_fd s), Epoll_register h])"
proof (cases "find_command s (cmd_command_seq c)")
  case None
  with assms show ?thesis
    by (auto simp: sl_cpc_system_cmd_poll_acknowledged_def timer_setups_emit)
next
  case (Some h)
  then obtain d where d: "heap s h = Some d" using find_command_Some by blast
  consider (first) "error_status d = SL_STATUS_OK"
    | (again) "error_status d = SL_STATUS_IN_PROGRESS"
    | (other) "error_status d = SL_STATUS_TIMEOUT"
    by (cases "error_status d") auto
  then show ?thesis
  proof cases
    case first
    from assms poll_acknowledged_first [OF Some d first]
    have "timer_setups s' = timer_setups s @ [Timerfd_create (next_fd s), Epoll_register h]"
      by (auto simp: timer_setups_def split: if_splits)
    with Some d first show ?thesis by blast
  next
    case again
    from assms poll_acknowledged_again [OF Some d again]
    have "timer_setups s' = timer_setups s"
      by (auto simp: timer_setups_def split: if_splits)
    then show ?thesis ..
  next
    case other
    with assms Some d have "timer_setups s' = timer_setups s"
      by (auto simp: sl_cpc_system_cmd_poll_acknowledged_def timer_setups_emit)
    then show ?thesis ..
  qed
qed

text \<open>
  Claim C5. In the Information Poll implementation no input other than a poll
  acknowledgement creates a timer or registers one on the event loop: issuing a command
  leaves the timers as they were. \<^verbatim>\<open>sl_cpc_system_cmd_poll_acknowledged\<close> for the
  sequence number of a live descriptor creates, sets and registers a timer when the
  descriptor's status is \<^verbatim>\<open>SL_STATUS_OK\<close>; when the status is
  \<^verbatim>\<open>SL_STATUS_IN_PROGRESS\<close> it only sets the existing timer again. In both cases
  a retry timeout of a second or more makes \<^verbatim>\<open>timerfd_settime\<close> fail, which is
  fatal: then a created timer is not registered. A poll acknowledgement that returns
  creates and registers a timer only for the descriptor the table finds under the
  acknowledged sequence number, and only when its status is \<^verbatim>\<open>SL_STATUS_OK\<close>.
\<close>

theorem timer_set_up_by_poll_acknowledge_only:
  "((\<forall>c. i \<noteq> Poll_acknowledged c) \<and> step pf i s = Inr s' \<longrightarrow>
      timer_setups s' = timer_setups s
      \<and> set (timer_fds s') \<subseteq> set (timer_fds s) \<and> set (epoll_set s') \<subseteq> set (epoll_set s))
   \<and> (find_command s (cmd_command_seq c) = Some h \<and> heap s h = Some d
        \<and> error_status d = SL_STATUS_OK \<longrightarrow>
      sl_cpc_system_cmd_poll_acknowledged c s =
        (if 1000000 \<le> unat (retry_timeout_us d)
         then Inl (SyscallFailure,
                   s\<lparr>timer_fds := timer_fds s @ [next_fd s], next_fd := Suc (next_fd s),
                     trace := trace s @ [Timerfd_create (next_fd s)]\<rparr>)
         else
           Inr (s\<lparr>timer_fds := timer_fds s @ [next_fd s], next_fd := Suc (next_fd s),
                  heap := (heap s)(h \<mapsto> d\<lparr>file_descriptor := Some (next_fd s)\<rparr>),
                  epoll_set := epoll_set s @ [h],
                  trace := trace s @
                    [Timerfd_create (next_fd s),
                     Timerfd_settime (Some (next_fd s)) (retry_timeout_us d) 0,
                     Epoll_register h]\<rparr>)))
   \<and> (find_command s (cmd_command_seq c) = Some h \<and> heap s h = Some d
        \<and> error_status d = SL_STATUS_IN_PROGRESS \<longrightarrow>
      sl_cpc_system_cmd_poll_acknowledged c s =
        (if 1000000 \<le> unat (retry_timeout_us d)
         then Inl (SyscallFailure, s)
         else Inr (s\<lparr>trace := trace s @
                      [Timerfd_settime (file_descriptor d) (retry_timeout_us d) 0]\<rparr>)))
   \<and> (sl_cpc_system_cmd_poll_acknowledged c s = Inr s' \<longrightarrow>
        timer_setups s' = timer_setups s
        \<or> (\<exists>h d. find_command s (cmd_command_seq c) = Some h \<and> heap s h = Some d
               \<and> error_status d = SL_STATUS_OK
               \<and> timer_setups s' = timer_setups s @ [Timerfd_create (next_fd s), Epoll_register h]))
   \<and> timerfd_settime_fails (timeout_tv_nsec (retry_timeout_us d))
        = (1000000 \<le> unat (retry_timeout_us d))"
proof -
  have a: "find_command s (cmd_command_seq c) = Some h \<and> heap s h = Some d
        \<and> error_status d = SL_STATUS_OK \<longrightarrow>
      sl_cpc_system_cmd_poll_acknowledged c s =
        (if 1000000 \<le> unat (retry_timeout_us d)
         then Inl (SyscallFailure,
                   s\<lparr>timer_fds := timer_fds s @ [next_fd s], next_fd := Suc (next_fd s),
                     trace := trace s @ [Timerfd_create (next_fd s)]\<rparr>)
         else
           Inr (s\<lparr>timer_fds := timer_fds s @ [next_fd s], next_fd := Suc (next_fd s),
                  heap := (heap s)(h \<mapsto> d\<lparr>file_descriptor := Some (next_fd s)\<rparr>),
                  epoll_set := epoll_set s @ [h],
                  trace := trace s @
                    [Timerfd_create (next_fd s),
                     Timerfd_settime (Some (next_fd s)) (retry_timeout_us d) 0,
                     Epoll_register h]\<rparr>))"
    using poll_acknowledged_first [of s c h d] by simp
  have b: "find_command s (cmd_command_seq c) = Some h \<and> heap s h = Some d
        \<and> error_status d = SL_STATUS_IN_PROGRESS \<longrightarrow>
      sl_cpc_system_cmd_poll_acknowledged c s =
        (if 1000000 \<le> unat (retry_timeout_us d)
         then Inl (SyscallFailure, s)
         else Inr (s\<lparr>trace := trace s @
                      [Timerfd_settime (file_descriptor d) (retry_timeout_us d) 0]\<rparr>))"
    using poll_acknowledged_again [of s c h d] by simp
  have f: "timerfd_settime_fails (timeout_tv_nsec (retry_timeout_us d))
        = (1000000 \<le> unat (retry_timeout_us d))"
    by (rule timerfd_settime_fails_iff)
  from step_timers [of pf i s s'] poll_acknowledged_timer_setups [of c s s'] a b f
  show ?thesis by blast
qed

lemma find_command_after_noop: "find_command after_noop 0 = Some 0"
  by (simp add: find_command_def after_noop_def noop_handle_def)

lemma after_noop_fields:
  "heap after_noop 0 = Some noop_handle" "timer_fds after_noop = []" "epoll_set after_noop = []"
  "next_fd after_noop = 0" "timer_setups after_noop = []" "timer_setups boot = []"
  "commands after_noop = [0]" "next_handle after_noop = 1"
  by (simp_all add: after_noop_def timer_setups_def boot_defs)

lemma after_noop_retry_fields:
  "find_command after_noop_retry 0 = Some 0"
  "heap after_noop_retry 0
     = Some (noop_handle\<lparr>file_descriptor := Some 0, retry_count := 0,
                          error_status := SL_STATUS_IN_PROGRESS\<rparr>)"
  "timer_fds after_noop_retry = [0]" "epoll_set after_noop_retry = [0]"
  by (simp_all add: after_noop_retry_def noop_boot poll_acknowledged_first
      find_command_after_noop after_noop_fields noop_frame_def noop_handle_def
      on_timer_expired_def write_command_def sl_slist_remove_def sl_slist_push_back_def
      find_command_def)

text \<open>
  Claim C5 on a no-op: issued, acknowledged, and acknowledged again after a
  retransmission; and the acknowledgement of a no-op whose retry timeout is one second.
\<close>

theorem timer_set_up_by_poll_acknowledge_only_witness:
  "step little_endian_host (Cmd_noop (User_callback 0) 1 1000) boot = Inr after_noop
   \<and> timer_setups after_noop = timer_setups boot
   \<and> timer_fds after_noop = [] \<and> epoll_set after_noop = []
   \<and> find_command after_noop (cmd_command_seq noop_frame) = Some 0
   \<and> heap after_noop 0 = Some noop_handle
   \<and> error_status noop_handle = SL_STATUS_OK
   \<and> sl_cpc_system_cmd_poll_acknowledged noop_frame after_noop =
        Inr (after_noop
              \<lparr>timer_fds := [0], next_fd := 1,
               heap := [0 \<mapsto> noop_handle\<lparr>file_descriptor := Some 0\<rparr>],
               epoll_set := [0],
               trace := trace after_noop @
                 [Timerfd_create 0, Timerfd_settime (Some 0) 1000 0, Epoll_register 0]\<rparr>)
   \<and> find_command after_noop_retry (cmd_command_seq noop_frame) = Some 0
   \<and> sl_cpc_system_cmd_poll_acknowledged noop_frame after_noop_retry =
        Inr (after_noop_retry
              \<lparr>trace := trace after_noop_retry @ [Timerfd_settime (Some 0) 1000 0]\<rparr>)
   \<and> timer_setups (after_noop
              \<lparr>timer_fds := [0], next_fd := 1,
               heap := [0 \<mapsto> noop_handle\<lparr>file_descriptor := Some 0\<rparr>],
               epoll_set := [0],
               trace := trace after_noop @
                 [Timerfd_create 0, Timerfd_settime (Some 0) 1000 0, Epoll_register 0]\<rparr>)
       = timer_setups after_noop @ [Timerfd_create 0, Epoll_register 0]
   \<and> step little_endian_host (Cmd_noop (User_callback 0) 1 1000000) boot
       = Inr (after_noop\<lparr>heap := [0 \<mapsto> noop_handle\<lparr>retry_timeout_us := 1000000\<rparr>]\<rparr>)
   \<and> sl_cpc_system_cmd_poll_acknowledged noop_frame
         (after_noop\<lparr>heap := [0 \<mapsto> noop_handle\<lparr>retry_timeout_us := 1000000\<rparr>]\<rparr>) =
        Inl (SyscallFailure,
             after_noop
               \<lparr>heap := [0 \<mapsto> noop_handle\<lparr>retry_timeout_us := 1000000\<rparr>],
                timer_fds := [0], next_fd := 1,
                trace := trace after_noop @ [Timerfd_create 0]\<rparr>)"
proof -
  have q: "cmd_command_seq noop_frame = 0" by (simp add: noop_frame_def)
  let ?slow = "after_noop\<lparr>heap := [0 \<mapsto> noop_handle\<lparr>retry_timeout_us := 1000000\<rparr>]\<rparr>"
  have sl: "find_command ?slow (cmd_command_seq noop_frame) = Some 0"
    "heap ?slow 0 = Some (noop_handle\<lparr>retry_timeout_us := 1000000\<rparr>)"
    "error_status (noop_handle\<lparr>retry_timeout_us := 1000000\<rparr>) = SL_STATUS_OK"
    by (simp_all add: find_command_def after_noop_def noop_handle_def noop_frame_def)
  have st2: "step little_endian_host (Cmd_noop (User_callback 0) 1 1000000) boot = Inr ?slow"
    by (simp add: noop_ok after_noop_def noop_handle_def noop_frame_def)
  note C = timer_set_up_by_poll_acknowledge_only
             [where s = ?slow and c = noop_frame and h = 0
                and d = "noop_handle\<lparr>retry_timeout_us := 1000000\<rparr>"]
  from C sl have r4: "sl_cpc_system_cmd_poll_acknowledged noop_frame ?slow =
        Inl (SyscallFailure,
             after_noop
               \<lparr>heap := [0 \<mapsto> noop_handle\<lparr>retry_timeout_us := 1000000\<rparr>],
                timer_fds := [0], next_fd := 1,
                trace := trace after_noop @ [Timerfd_create 0]\<rparr>)"
    by (simp add: after_noop_fields)
  have st: "step little_endian_host (Cmd_noop (User_callback 0) 1 1000) boot = Inr after_noop"
    by (simp add: noop_boot)
  have n: "\<forall>c. Cmd_noop (User_callback 0) 1 1000 \<noteq> Poll_acknowledged c" by simp
  have ok: "error_status noop_handle = SL_STATUS_OK"
    "retry_timeout_us noop_handle = 1000"
    by (simp_all add: noop_handle_def)
  have ip: "error_status (noop_handle\<lparr>file_descriptor := Some 0, retry_count := 0,
                                      error_status := SL_STATUS_IN_PROGRESS\<rparr>)
            = SL_STATUS_IN_PROGRESS"
    by simp
  note S = timer_set_up_by_poll_acknowledge_only
             [where i = "Cmd_noop (User_callback 0) 1 1000" and pf = little_endian_host
                and s = boot and s' = after_noop]
  note A = timer_set_up_by_poll_acknowledge_only
             [where s = after_noop and c = noop_frame and h = 0 and d = noop_handle]
  note B = timer_set_up_by_poll_acknowledge_only
             [where s = after_noop_retry and c = noop_frame and h = 0
                and d = "noop_handle\<lparr>file_descriptor := Some 0, retry_count := 0,
                                      error_status := SL_STATUS_IN_PROGRESS\<rparr>"]
  from S st n have r1: "timer_setups after_noop = timer_setups boot" by blast
  from A ok find_command_after_noop after_noop_fields(1) q
  have r2: "sl_cpc_system_cmd_poll_acknowledged noop_frame after_noop =
        Inr (after_noop
              \<lparr>timer_fds := [0], next_fd := 1,
               heap := [0 \<mapsto> noop_handle\<lparr>file_descriptor := Some 0\<rparr>],
               epoll_set := [0],
               trace := trace after_noop @
                 [Timerfd_create 0, Timerfd_settime (Some 0) 1000 0, Epoll_register 0]\<rparr>)"
    by (simp add: after_noop_fields) (simp add: after_noop_def)
  from B ip after_noop_retry_fields(1,2) q
  have r3: "sl_cpc_system_cmd_poll_acknowledged noop_frame after_noop_retry =
        Inr (after_noop_retry
              \<lparr>trace := trace after_noop_retry @ [Timerfd_settime (Some 0) 1000 0]\<rparr>)"
    by (simp add: noop_handle_def)
  have r5: "timer_setups (after_noop
              \<lparr>timer_fds := [0], next_fd := 1,
               heap := [0 \<mapsto> noop_handle\<lparr>file_descriptor := Some 0\<rparr>],
               epoll_set := [0],
               trace := trace after_noop @
                 [Timerfd_create 0, Timerfd_settime (Some 0) 1000 0, Epoll_register 0]\<rparr>)
       = timer_setups after_noop @ [Timerfd_create 0, Epoll_register 0]"
    by (simp add: timer_setups_def)
  from st st2 r1 r2 r3 r4 r5 ok q find_command_after_noop after_noop_fields
    after_noop_retry_fields(1)
  show ?thesis by simp
qed

text \<open>
  Claim C4 fails on the drain of \<^verbatim>\<open>sl_cpc_system_reset_system_endpoint\<close>: after
  a no-op was issued and its poll acknowledged, the reset empties the command table and
  frees the handle, but the timer stays open and registered on the event loop; its expiry
  then reaches a freed handle.
\<close>

theorem reset_leaves_timer_registered:
  "\<exists>s. run little_endian_host
          [Cmd_noop (User_callback 0) 1 1000, Poll_acknowledged noop_frame,
           Reset_system_endpoint] boot = Inr s
      \<and> commands s = [] \<and> heap s 0 = None
      \<and> epoll_set s = [0] \<and> timer_fds s = [0]
      \<and> on_timer_expired little_endian_host 0 s = Inl (InvalidPointer, s)"
  by (simp add: noop_boot poll_acknowledged_first find_command_after_noop after_noop_fields
      noop_frame_def noop_handle_def reset_timers reset_system_endpoint_eq
      on_timer_expired_def)

subsection \<open>Timers that are set, and the descriptors they belong to\<close>

lemma armed_append:
  "trace s' = trace s @ es \<Longrightarrow> armed s' = foldl (\<lambda>a e. timer_event e a) (armed s) es"
  by (simp add: armed_def)

lemma armed_same: "trace s' = trace s \<Longrightarrow> armed s' = armed s"
  by (simp add: armed_def)

lemma foldl_timer_event_id:
  "(\<And>e. e \<in> set es \<Longrightarrow> timer_event e a = a) \<Longrightarrow> foldl (\<lambda>a e. timer_event e a) a es = a"
  by (induction es) auto

lemma on_reply_timer_effect:
  assumes "on_reply pf reply n s = Inr s'"
  shows "next_fd s' = next_fd s
         \<and> (commands s' = commands s \<and> heap s' = heap s \<and> armed s' = armed s
             \<or> (\<exists>h d. find_command s (cmd_command_seq reply) = Some h \<and> heap s h = Some d
                   \<and> commands s' = remove1 h (commands s)
                   \<and> heap s' = (heap s)(h := None)
                   \<and> armed s' = (case file_descriptor d of None \<Rightarrow> armed s
                                  | Some fd \<Rightarrow> (armed s)(fd := None))))"
proof (cases "find_command s (cmd_command_seq reply)")
  case None
  with assms show ?thesis
    by (auto simp: on_reply_def armed_def split: if_splits)
next
  case (Some h)
  then obtain d where d: "heap s h = Some d" using find_command_Some by blast
  from assms Some d
  have "next_fd s' = next_fd s \<and> commands s' = remove1 h (commands s)
        \<and> heap s' = (heap s)(h := None)
        \<and> armed s' = (case file_descriptor d of None \<Rightarrow> armed s
                       | Some fd \<Rightarrow> (armed s)(fd := None))"
    by (auto simp: on_reply_def on_final_noop_def on_final_reset_def on_final_property_is_def
        Let_def free_command_and_handle_def close_fd_def epoll_unregister_def
        sl_slist_remove_def armed_def emit_def
        split: if_splits option.splits sum.splits)
  with Some d show ?thesis by blast
qed


lemma find_append_found: "find P xs = Some h \<Longrightarrow> find P (xs @ ys) = Some h"
  by (induction xs) auto

lemma find_remove1_other:
  "find P xs = Some h \<Longrightarrow> h \<noteq> x \<Longrightarrow> find P (remove1 x xs) = Some h"
  by (induction xs) (auto split: if_splits)

lemma find_command_eq:
  assumes "\<And>x. x \<in> set (commands s) \<Longrightarrow>
             map_option command_seq (heap s' x) = map_option command_seq (heap s x)"
    and "commands s' = commands s"
  shows "find_command s' q = find_command s q"
proof -
  have "(case heap s' x of None \<Rightarrow> False | Some d \<Rightarrow> command_seq d = q)
          = (case heap s x of None \<Rightarrow> False | Some d \<Rightarrow> command_seq d = q)"
    if "x \<in> set (commands s)" for x
    using assms(1) [OF that] by (cases "heap s' x"; cases "heap s x") auto
  then show ?thesis
    unfolding find_command_def assms(2) by (intro find_cong) auto
qed

lemma timer_invD:
  assumes "timer_inv s" and "heap s h = Some d"
  shows "cmd_command_seq (command d) = command_seq d" and "issued_command (command d)"
    and "\<And>fd. file_descriptor d = Some fd \<Longrightarrow> fd < next_fd s"
    and "\<And>fd h' d'. file_descriptor d = Some fd \<Longrightarrow> heap s h' = Some d'
            \<Longrightarrow> file_descriptor d' = Some fd \<Longrightarrow> h' = h"
    and "\<And>fd. file_descriptor d = Some fd \<Longrightarrow> armed s fd \<noteq> None
            \<Longrightarrow> find_command s (command_seq d) = Some h"
  using assms unfolding timer_inv_def descriptor_ok_def by blast+

lemma timer_invI:
  assumes "well_formed s"
    and "\<And>h d. heap s h = Some d \<Longrightarrow>
           cmd_command_seq (command d) = command_seq d \<and> issued_command (command d)"
    and "\<And>h d fd. heap s h = Some d \<Longrightarrow> file_descriptor d = Some fd \<Longrightarrow> fd < next_fd s"
    and "\<And>h d fd h' d'. heap s h = Some d \<Longrightarrow> file_descriptor d = Some fd
           \<Longrightarrow> heap s h' = Some d' \<Longrightarrow> file_descriptor d' = Some fd \<Longrightarrow> h' = h"
    and "\<And>h d fd. heap s h = Some d \<Longrightarrow> file_descriptor d = Some fd
           \<Longrightarrow> armed s fd \<noteq> None \<Longrightarrow> find_command s (command_seq d) = Some h"
    and "\<And>fd i. armed s fd = Some i \<Longrightarrow> i = 0"
  shows "timer_inv s"
  unfolding timer_inv_def descriptor_ok_def
  using assms by blast

lemma timer_inv_one_shot: "timer_inv s \<Longrightarrow> armed s fd = Some i \<Longrightarrow> i = 0"
  by (simp add: timer_inv_def)

lemma timer_inv_wf: "timer_inv s \<Longrightarrow> well_formed s"
  by (simp add: timer_inv_def)

lemma timer_inv_same:
  assumes "timer_inv s" and "commands s' = commands s" and "heap s' = heap s"
    and "next_handle s' = next_handle s" and "next_fd s' = next_fd s" and "armed s' = armed s"
  shows "timer_inv s'"
proof -
  have "\<And>q. find_command s' q = find_command s q"
    using assms(2,3) by (simp add: find_command_def)
  with assms show ?thesis by (simp add: timer_inv_def descriptor_ok_def well_formed_def)
qed

lemma timer_inv_issue:
  assumes inv: "timer_inv s"
    and c: "commands s' = commands s @ [next_handle s]"
    and h: "heap s' = (heap s)(next_handle s \<mapsto> d)"
    and d: "cmd_command_seq (command d) = command_seq d" "issued_command (command d)"
      "file_descriptor d = None"
    and n: "next_handle s' = Suc (next_handle s)" "next_fd s' = next_fd s"
      "armed s' = armed s"
  shows "timer_inv s'"
proof (rule timer_invI)
  from inv have wf: "well_formed s" by (rule timer_inv_wf)
  then have nin: "next_handle s \<notin> set (commands s)"
    by (auto simp: well_formed_def list_all_iff)
  show "well_formed s'"
    using wf c h n(1) by (auto simp: well_formed_def list_all_iff less_Suc_eq)
  have fc: "find_command s' q = Some g" if a: "find_command s q = Some g" for q g
  proof -
    have "find (\<lambda>x. case heap s' x of None \<Rightarrow> False | Some d \<Rightarrow> command_seq d = q) (commands s)
          = find (\<lambda>x. case heap s x of None \<Rightarrow> False | Some d \<Rightarrow> command_seq d = q) (commands s)"
      using nin h by (intro find_cong) auto
    with a show ?thesis
      unfolding find_command_def c by (simp add: find_append_found)
  qed
  note D = timer_invD [OF inv]
  show "cmd_command_seq (command e) = command_seq e \<and> issued_command (command e)"
    if "heap s' g = Some e" for g e
    using that h d D(1,2) by (auto split: if_splits)
  have old: "heap s g = Some e" if "heap s' g = Some e" "file_descriptor e = Some fd" for g e fd
    using that h d(3) by (cases "g = next_handle s") auto
  show "fd < next_fd s'" if "heap s' g = Some e" "file_descriptor e = Some fd" for g e fd
    using D(3) [OF old [OF that] that(2)] n(2) by simp
  show "g' = g" if "heap s' g = Some e" "file_descriptor e = Some fd"
    "heap s' g' = Some e'" "file_descriptor e' = Some fd" for g e fd g' e'
    by (rule D(4) [OF old [OF that(1,2)] that(2) old [OF that(3,4)] that(4)])
  show "find_command s' (command_seq e) = Some g"
    if "heap s' g = Some e" "file_descriptor e = Some fd" "armed s' fd \<noteq> None" for g e fd
  proof -
    have "armed s fd \<noteq> None" using that(3) n(3) by simp
    from D(5) [OF old [OF that(1,2)] that(2) this] show ?thesis by (rule fc)
  qed
  show "i = 0" if "armed s' fd = Some i" for fd i
    using that n(3) timer_inv_one_shot [OF inv] by simp
qed


lemma timer_inv_remove:
  assumes inv: "timer_inv s"
    and h0: "heap s h0 = Some d0"
    and c: "commands s' = remove1 h0 (commands s)"
    and h: "heap s' = (heap s)(h0 := None)"
    and n: "next_handle s' = next_handle s" "next_fd s' = next_fd s"
    and a: "armed s' \<subseteq>\<^sub>m armed s"
  shows "timer_inv s'"
proof (rule timer_invI)
  from inv have wf: "well_formed s" by (rule timer_inv_wf)
  then have dist: "distinct (commands s)" by (simp add: well_formed_def)
  show "well_formed s'"
    using wf c h n(1) by (auto simp: well_formed_def list_all_iff)
  have old: "heap s g = Some e \<and> g \<noteq> h0" if "heap s' g = Some e" for g e
    using that h by (cases "g = h0") auto
  have arm: "armed s fd \<noteq> None" if "armed s' fd \<noteq> None" for fd
    using that a by (auto simp: map_le_def dom_def)
  have fc: "find_command s' q = Some g" if f: "find_command s q = Some g" and g: "g \<noteq> h0" for q g
  proof -
    have "find (\<lambda>x. case heap s' x of None \<Rightarrow> False | Some d \<Rightarrow> command_seq d = q)
               (remove1 h0 (commands s))
          = find (\<lambda>x. case heap s x of None \<Rightarrow> False | Some d \<Rightarrow> command_seq d = q)
               (remove1 h0 (commands s))"
      using dist h by (intro find_cong) auto
    also have "\<dots> = Some g"
      using f g unfolding find_command_def by (rule find_remove1_other)
    finally show ?thesis unfolding find_command_def c .
  qed
  note D = timer_invD [OF inv]
  show "cmd_command_seq (command e) = command_seq e \<and> issued_command (command e)"
    if "heap s' g = Some e" for g e
    using D(1,2) old [OF that] by blast
  show "fd < next_fd s'" if "heap s' g = Some e" "file_descriptor e = Some fd" for g e fd
    using D(3) old [OF that(1)] that(2) n(2) by auto
  show "g' = g" if "heap s' g = Some e" "file_descriptor e = Some fd"
    "heap s' g' = Some e'" "file_descriptor e' = Some fd" for g e fd g' e'
    using D(4) old [OF that(1)] old [OF that(3)] that(2,4) by blast
  show "find_command s' (command_seq e) = Some g"
    if "heap s' g = Some e" "file_descriptor e = Some fd" "armed s' fd \<noteq> None" for g e fd
  proof -
    from old [OF that(1)] have o: "heap s g = Some e" and ne: "g \<noteq> h0" by simp_all
    from D(5) [OF o that(2) arm [OF that(3)]] ne show ?thesis by (rule fc)
  qed
  show "i = 0" if "armed s' fd = Some i" for fd i
  proof -
    have "armed s fd = Some i" using that a by (auto simp: map_le_def dom_def)
    then show ?thesis by (rule timer_inv_one_shot [OF inv])
  qed
qed

lemma timer_inv_rotate:
  assumes inv: "timer_inv s"
    and h0: "heap s h0 = Some d0"
    and c: "commands s' = remove1 h0 (commands s) @ [h0]"
    and h: "heap s' = (heap s)(h0 \<mapsto> d1)"
    and d1: "command d1 = command d0" "command_seq d1 = command_seq d0"
      "file_descriptor d1 = file_descriptor d0"
    and n: "next_handle s' = next_handle s" "next_fd s' = next_fd s"
    and a: "armed s' \<subseteq>\<^sub>m armed s"
    and off: "\<And>fd. file_descriptor d0 = Some fd \<Longrightarrow> armed s' fd = None"
  shows "timer_inv s'"
proof (rule timer_invI)
  from inv have wf: "well_formed s" by (rule timer_inv_wf)
  then have dist: "distinct (commands s)" and hin: "h0 \<in> set (commands s)"
    using h0 by (auto simp: well_formed_def)
  show "well_formed s'"
    using wf c h n(1) hin by (auto simp: well_formed_def list_all_iff)
  note D = timer_invD [OF inv]
  have arm: "armed s fd \<noteq> None" if "armed s' fd \<noteq> None" for fd
    using that a by (auto simp: map_le_def dom_def)
  have fc: "find_command s' q = Some g" if f: "find_command s q = Some g" and g: "g \<noteq> h0" for q g
  proof -
    have "find (\<lambda>x. case heap s' x of None \<Rightarrow> False | Some d \<Rightarrow> command_seq d = q)
               (remove1 h0 (commands s) @ [h0])
          = find (\<lambda>x. case heap s x of None \<Rightarrow> False | Some d \<Rightarrow> command_seq d = q)
               (remove1 h0 (commands s) @ [h0])"
      using h h0 d1(2) by (intro find_cong) auto
    also have "\<dots> = Some g"
      using f g unfolding find_command_def
      by (intro find_append_found find_remove1_other)
    finally show ?thesis unfolding find_command_def c .
  qed
  have old: "g \<noteq> h0 \<and> heap s g = Some e \<or> g = h0 \<and> e = d1" if "heap s' g = Some e" for g e
    using that h by (cases "g = h0") auto
  show "cmd_command_seq (command e) = command_seq e \<and> issued_command (command e)"
    if "heap s' g = Some e" for g e
    using old [OF that] D(1,2) [OF h0] D(1,2) d1 by auto
  show "fd < next_fd s'" if "heap s' g = Some e" "file_descriptor e = Some fd" for g e fd
    using old [OF that(1)] that(2) D(3) [OF h0] D(3) d1 n(2) by auto
  show "g' = g" if "heap s' g = Some e" "file_descriptor e = Some fd"
    "heap s' g' = Some e'" "file_descriptor e' = Some fd" for g e fd g' e'
  proof -
    have x: "\<exists>e0. heap s g = Some e0 \<and> file_descriptor e0 = Some fd"
      using old [OF that(1)] that(2) h0 d1(3) by auto
    have y: "\<exists>e0. heap s g' = Some e0 \<and> file_descriptor e0 = Some fd"
      using old [OF that(3)] that(4) h0 d1(3) by auto
    from x y D(4) show ?thesis by blast
  qed
  show "find_command s' (command_seq e) = Some g"
    if "heap s' g = Some e" "file_descriptor e = Some fd" "armed s' fd \<noteq> None" for g e fd
  proof -
    from old [OF that(1)] show ?thesis
    proof
      assume "g \<noteq> h0 \<and> heap s g = Some e"
      then have o: "heap s g = Some e" and ne: "g \<noteq> h0" by simp_all
      from D(5) [OF o that(2) arm [OF that(3)]] ne show ?thesis by (rule fc)
    next
      assume "g = h0 \<and> e = d1"
      then have "file_descriptor d0 = Some fd" using that(2) d1(3) by simp
      from off [OF this] that(3) show ?thesis by simp
    qed
  qed
  show "i = 0" if "armed s' fd = Some i" for fd i
  proof -
    have "armed s fd = Some i" using that a by (auto simp: map_le_def dom_def)
    then show ?thesis by (rule timer_inv_one_shot [OF inv])
  qed
qed

lemma timer_inv_new_timer:
  assumes inv: "timer_inv s"
    and f0: "find_command s q = Some h0" and h0: "heap s h0 = Some d0"
    and c: "commands s' = commands s"
    and h: "heap s' = (heap s)(h0 \<mapsto> d0\<lparr>file_descriptor := Some (next_fd s)\<rparr>)"
    and n: "next_handle s' = next_handle s" "next_fd s' = Suc (next_fd s)"
    and a: "\<And>fd. fd \<noteq> next_fd s \<Longrightarrow> armed s' fd = armed s fd"
    and a0: "\<And>i. armed s' (next_fd s) = Some i \<Longrightarrow> i = 0"
  shows "timer_inv s'"
proof (rule timer_invI)
  from inv have wf: "well_formed s" by (rule timer_inv_wf)
  then have hin: "h0 \<in> set (commands s)" using h0 by (auto simp: well_formed_def)
  have "dom (heap s') = dom (heap s)" using h h0 by auto
  then show "well_formed s'"
    using wf c n(1) by (simp add: well_formed_def)
  have q0: "command_seq d0 = q" using find_command_Some [OF f0] h0 by auto
  have fc: "find_command s' q' = find_command s q'" for q'
    using h h0 c by (intro find_command_eq) auto
  have old: "g \<noteq> h0 \<and> heap s g = Some e
             \<or> g = h0 \<and> e = d0\<lparr>file_descriptor := Some (next_fd s)\<rparr>"
    if "heap s' g = Some e" for g e
    using that h by (cases "g = h0") auto
  have below: "fd < next_fd s" if "heap s g = Some e" "file_descriptor e = Some fd" for g e fd
    by (rule timer_invD(3) [OF inv that])
  have fresh: "g = h0 \<and> e = d0\<lparr>file_descriptor := Some (next_fd s)\<rparr>"
    if "heap s' g = Some e" "file_descriptor e = Some (next_fd s)" for g e
  proof -
    from old [OF that(1)] show ?thesis
    proof
      assume o: "g \<noteq> h0 \<and> heap s g = Some e"
      then have "next_fd s < next_fd s" using below that(2) by blast
      then show ?thesis by simp
    qed simp
  qed
  have stale: "g \<noteq> h0 \<and> heap s g = Some e"
    if "heap s' g = Some e" "file_descriptor e = Some fd" "fd \<noteq> next_fd s" for g e fd
    using old [OF that(1)] that(2,3) by auto
  show "cmd_command_seq (command e) = command_seq e \<and> issued_command (command e)"
    if "heap s' g = Some e" for g e
  proof -
    from old [OF that] show ?thesis
    proof
      assume "g \<noteq> h0 \<and> heap s g = Some e"
      then have o: "heap s g = Some e" by simp
      show ?thesis using timer_invD(1,2) [OF inv o] by simp
    next
      assume "g = h0 \<and> e = d0\<lparr>file_descriptor := Some (next_fd s)\<rparr>"
      then show ?thesis using timer_invD(1,2) [OF inv h0] by simp
    qed
  qed
  show "fd < next_fd s'" if "heap s' g = Some e" "file_descriptor e = Some fd" for g e fd
  proof (cases "fd = next_fd s")
    case True then show ?thesis by (simp add: n(2))
  next
    case False
    from stale [OF that False] have "heap s g = Some e" by simp
    from below [OF this that(2)] show ?thesis by (simp add: n(2))
  qed
  show "g' = g" if "heap s' g = Some e" "file_descriptor e = Some fd"
    "heap s' g' = Some e'" "file_descriptor e' = Some fd" for g e fd g' e'
  proof (cases "fd = next_fd s")
    case True
    have "g = h0" using fresh [of g e] that(1,2) True by simp
    moreover have "g' = h0" using fresh [of g' e'] that(3,4) True by simp
    ultimately show ?thesis by simp
  next
    case False
    have x: "heap s g = Some e" using stale [OF that(1,2) False] by simp
    have y: "heap s g' = Some e'" using stale [OF that(3,4) False] by simp
    show ?thesis by (rule timer_invD(4) [OF inv x that(2) y that(4)])
  qed
  show "find_command s' (command_seq e) = Some g"
    if "heap s' g = Some e" "file_descriptor e = Some fd" "armed s' fd \<noteq> None" for g e fd
  proof (cases "fd = next_fd s")
    case True
    have "g = h0 \<and> e = d0\<lparr>file_descriptor := Some (next_fd s)\<rparr>"
      using fresh [of g e] that(1,2) True by simp
    then show ?thesis using f0 q0 by (simp add: fc)
  next
    case False
    have o: "heap s g = Some e" using stale [OF that(1,2) False] by simp
    have "armed s fd \<noteq> None" using that(3) a [OF False] by simp
    from timer_invD(5) [OF inv o that(2) this] show ?thesis by (simp add: fc)
  qed
  show "i = 0" if "armed s' fd = Some i" for fd i
  proof (cases "fd = next_fd s")
    case True
    with that show ?thesis by (simp add: a0)
  next
    case False
    with that have "armed s fd = Some i" using a [OF False] by simp
    then show ?thesis by (rule timer_inv_one_shot [OF inv])
  qed
qed

lemma timer_inv_set_again:
  assumes inv: "timer_inv s"
    and f0: "find_command s q = Some h0" and h0: "heap s h0 = Some d0"
    and c: "commands s' = commands s" and h: "heap s' = heap s"
    and n: "next_handle s' = next_handle s" "next_fd s' = next_fd s"
    and a: "\<And>fd. file_descriptor d0 \<noteq> Some fd \<Longrightarrow> armed s' fd = armed s fd"
    and a0: "\<And>fd i. file_descriptor d0 = Some fd \<Longrightarrow> armed s' fd = Some i \<Longrightarrow> i = 0"
  shows "timer_inv s'"
proof (rule timer_invI)
  from inv have wf: "well_formed s" by (rule timer_inv_wf)
  show "well_formed s'" using wf c h n(1) by (simp add: well_formed_def)
  have q0: "command_seq d0 = q" using find_command_Some [OF f0] h0 by auto
  have fc: "find_command s' q' = find_command s q'" for q'
    using h c by (simp add: find_command_def)
  show "cmd_command_seq (command e) = command_seq e \<and> issued_command (command e)"
    if "heap s' g = Some e" for g e
  proof -
    have o: "heap s g = Some e" using that h by simp
    show ?thesis using timer_invD(1,2) [OF inv o] by simp
  qed
  show "fd < next_fd s'" if "heap s' g = Some e" "file_descriptor e = Some fd" for g e fd
  proof -
    have o: "heap s g = Some e" using that(1) h by simp
    show ?thesis using timer_invD(3) [OF inv o that(2)] n(2) by simp
  qed
  show "g' = g" if "heap s' g = Some e" "file_descriptor e = Some fd"
    "heap s' g' = Some e'" "file_descriptor e' = Some fd" for g e fd g' e'
  proof -
    have o: "heap s g = Some e" using that(1) h by simp
    have o': "heap s g' = Some e'" using that(3) h by simp
    show ?thesis by (rule timer_invD(4) [OF inv o that(2) o' that(4)])
  qed
  show "find_command s' (command_seq e) = Some g"
    if "heap s' g = Some e" "file_descriptor e = Some fd" "armed s' fd \<noteq> None" for g e fd
  proof (cases "file_descriptor d0 = Some fd")
    case True
    have o: "heap s g = Some e" using that(1) h by simp
    have "h0 = g" by (rule timer_invD(4) [OF inv o that(2) h0 True])
    with o h0 f0 q0 show ?thesis by (simp add: fc)
  next
    case False
    have o: "heap s g = Some e" using that(1) h by simp
    have "armed s' fd = armed s fd" by (rule a [OF False])
    then have "armed s fd \<noteq> None" using that(3) by simp
    from timer_invD(5) [OF inv o that(2) this] show ?thesis by (simp add: fc)
  qed
  show "i = 0" if "armed s' fd = Some i" for fd i
  proof (cases "file_descriptor d0 = Some fd")
    case True
    from a0 [OF True that] show ?thesis .
  next
    case False
    have "armed s' fd = armed s fd" by (rule a [OF False])
    with that have "armed s fd = Some i" by simp
    then show ?thesis by (rule timer_inv_one_shot [OF inv])
  qed
qed

lemma timer_inv_reset:
  assumes inv: "timer_inv s"
    and c: "commands s' = []"
    and h: "heap s' = (\<lambda>x. if x \<in> set (commands s) then None else heap s x)"
    and n: "next_handle s' = next_handle s" "next_fd s' = next_fd s"
    and a: "armed s' = armed s"
  shows "timer_inv s'"
proof -
  from inv have wf: "well_formed s" by (rule timer_inv_wf)
  then have "heap s' = Map.empty"
    using h by (auto simp: well_formed_def fun_eq_iff dom_def)
  with c a inv show ?thesis
    by (simp add: timer_inv_def well_formed_def)
qed


lemma timer_event_timeout [simp]: "timer_event (timeout_event pf h d) a = a"
  by (simp add: timeout_event_def)

lemma foldl_timer_last_status:
  "foldl (\<lambda>a e. timer_event e a) a (map (\<lambda>cb. Last_status_callback cb w) cbs) = a"
  by (rule foldl_timer_event_id) auto

lemma foldl_timer_drain:
  "foldl (\<lambda>a e. timer_event e a) a (concat (map (\<lambda>h. [Warn m, Free_handle h]) cs)) = a"
  by (induction cs) simp_all

lemma timer_inv_issued:
  assumes inv: "timer_inv s"
    and s': "s' = s\<lparr>next_command_seq := q, commands := commands s @ [next_handle s],
                     heap := (heap s)(next_handle s \<mapsto> d),
                     next_handle := Suc (next_handle s),
                     trace := trace s @ [Core_write ep bs fl]\<rparr>"
    and d: "cmd_command_seq (command d) = command_seq d" "issued_command (command d)"
      "file_descriptor d = None"
  shows "timer_inv s'"
  by (rule timer_inv_issue [OF inv _ _ d]) (simp_all add: s' armed_def)

lemma timer_inv_noop:
  assumes "timer_inv s" and "sl_cpc_system_cmd_noop cb rc rt s = Inr s'"
  shows "timer_inv s'"
proof -
  from assms(2) have s': "s' = s\<lparr>next_command_seq := next_command_seq s + 1,
            commands := commands s @ [next_handle s],
            heap := (heap s)(next_handle s \<mapsto>
              \<lparr>command = \<lparr>cmd_command_id = CMD_SYSTEM_NOOP,
                           cmd_command_seq = next_command_seq s,
                           cmd_length = 0, cmd_payload = []\<rparr>,
               on_final = cb, retry_count = rc, retry_timeout_us = rt,
               error_status = SL_STATUS_OK, command_seq = next_command_seq s,
               file_descriptor = None\<rparr>),
            next_handle := Suc (next_handle s),
            trace := trace s @
              [Core_write SL_CPC_ENDPOINT_SYSTEM [CMD_SYSTEM_NOOP, next_command_seq s, 0]
                 SL_CPC_FLAG_INFORMATION_POLL]\<rparr>"
    by (simp add: noop_ok)
  show ?thesis
    by (rule timer_inv_issued [OF assms(1) s']) (simp_all add: issued_command_def)
qed

lemma timer_inv_reboot:
  assumes "timer_inv s" and "sl_cpc_system_cmd_reboot cb rc rt s = Inr s'"
  shows "timer_inv s'"
proof -
  from assms(2) have s': "s' = s\<lparr>next_command_seq := next_command_seq s + 1,
            commands := commands s @ [next_handle s],
            heap := (heap s)(next_handle s \<mapsto>
              \<lparr>command = \<lparr>cmd_command_id = CMD_SYSTEM_RESET,
                           cmd_command_seq = next_command_seq s,
                           cmd_length = 0, cmd_payload = []\<rparr>,
               on_final = cb, retry_count = rc, retry_timeout_us = rt,
               error_status = SL_STATUS_OK, command_seq = next_command_seq s,
               file_descriptor = None\<rparr>),
            next_handle := Suc (next_handle s),
            trace := trace s @
              [Core_write SL_CPC_ENDPOINT_SYSTEM [CMD_SYSTEM_RESET, next_command_seq s, 0]
                 SL_CPC_FLAG_INFORMATION_POLL]\<rparr>"
    by (simp add: reboot_ok)
  show ?thesis
    by (rule timer_inv_issued [OF assms(1) s']) (simp_all add: issued_command_def)
qed

lemma timer_inv_property_get:
  assumes "timer_inv s" and "sl_cpc_system_cmd_property_get pf cb pid rc rt s = Inr s'"
  shows "timer_inv s'"
proof -
  from assms(2) have s': "s' = s\<lparr>next_command_seq := next_command_seq s + 1,
            commands := commands s @ [next_handle s],
            heap := (heap s)(next_handle s \<mapsto>
              \<lparr>command = \<lparr>cmd_command_id = CMD_SYSTEM_PROP_VALUE_GET,
                           cmd_command_seq = next_command_seq s,
                           cmd_length = 4, cmd_payload = le_bytes 4 (unat pid)\<rparr>,
               on_final = cb, retry_count = rc, retry_timeout_us = rt,
               error_status = SL_STATUS_OK, command_seq = next_command_seq s,
               file_descriptor = None\<rparr>),
            next_handle := Suc (next_handle s),
            trace := trace s @
              [Core_write SL_CPC_ENDPOINT_SYSTEM
                 ([CMD_SYSTEM_PROP_VALUE_GET, next_command_seq s, 4] @ le_bytes 4 (unat pid))
                 SL_CPC_FLAG_INFORMATION_POLL]\<rparr>"
    by (simp add: property_get_ok)
  show ?thesis
    by (rule timer_inv_issued [OF assms(1) s'])
       (simp_all add: issued_command_def sizeof_sl_cpc_property_id_t_def)
qed

lemma timer_inv_property_set:
  assumes "timer_inv s" and "sl_cpc_system_cmd_property_set pf cb rc rt pid v n s = Inr s'"
  shows "timer_inv s'"
proof -
  from assms(2) property_set_ok [OF property_set_Inr [OF assms(2)], of pf rc rt pid s]
  have s': "s' = s\<lparr>next_command_seq := next_command_seq s + 1,
            commands := commands s @ [next_handle s],
            heap := (heap s)(next_handle s \<mapsto>
              \<lparr>command =
                 \<lparr>cmd_command_id = CMD_SYSTEM_PROP_VALUE_SET,
                  cmd_command_seq = next_command_seq s,
                  cmd_length = of_nat (4 + unat n),
                  cmd_payload = le_bytes 4 (unat pid)
                     @ property_set_value (host_big_endian pf) v (unat n)\<rparr>,
               on_final = cb, retry_count = rc, retry_timeout_us = rt,
               error_status = SL_STATUS_OK, command_seq = next_command_seq s,
               file_descriptor = None\<rparr>),
            next_handle := Suc (next_handle s),
            trace := trace s @
              [Core_write SL_CPC_ENDPOINT_SYSTEM
                 (command_bytes
                    \<lparr>cmd_command_id = CMD_SYSTEM_PROP_VALUE_SET,
                     cmd_command_seq = next_command_seq s,
                     cmd_length = of_nat (4 + unat n),
                     cmd_payload = le_bytes 4 (unat pid)
                        @ property_set_value (host_big_endian pf) v (unat n)\<rparr>)
                 SL_CPC_FLAG_INFORMATION_POLL]\<rparr>"
    by simp
  show ?thesis
    by (rule timer_inv_issued [OF assms(1) s'])
       (simp_all add: issued_command_def sizeof_sl_cpc_property_id_t_def)
qed

lemma timer_inv_unsolicited:
  assumes inv: "timer_inv s" and "on_unsolicited pf reply m s = Inr s'"
  shows "timer_inv s'"
proof -
  have core: "timer_inv (core_set_endpoint_in_error ep r s)" for ep r
    by (rule timer_inv_same [OF inv])
       (simp_all add: core_set_endpoint_in_error_def emit_def armed_def)
  have ls: "timer_inv s''" if "last_status_dispatch be p s = Inr s''" for be p s''
  proof (rule timer_inv_same [OF inv])
    from that show "armed s'' = armed s"
      by (auto simp: last_status_dispatch_def armed_def emit_def foldl_timer_last_status
          split: if_splits)
  qed (use that in \<open>auto simp: last_status_dispatch_def emit_def split: if_splits\<close>)
  from assms(2) inv show ?thesis
    by (auto simp: on_unsolicited_def Let_def core
        split: if_splits intro: ls timer_inv_property_set [OF core] timer_inv_property_set [OF inv])
qed

lemma timer_inv_poll_acknowledged:
  assumes inv: "timer_inv s" and "sl_cpc_system_cmd_poll_acknowledged c s = Inr s'"
  shows "timer_inv s'"
proof (cases "find_command s (cmd_command_seq c)")
  case None
  with assms(2) have "s' = emit [Warn ''Received a system poll ack for which no pending poll is registered''] s"
    by (simp add: sl_cpc_system_cmd_poll_acknowledged_def)
  then show ?thesis
    by (intro timer_inv_same [OF inv]) (simp_all add: emit_def armed_def)
next
  case (Some h)
  then obtain d where d: "heap s h = Some d" using find_command_Some by blast
  consider (first) "error_status d = SL_STATUS_OK"
    | (again) "error_status d = SL_STATUS_IN_PROGRESS"
    | (other) "error_status d = SL_STATUS_TIMEOUT"
    by (cases "error_status d") auto
  then show ?thesis
  proof cases
    case first
    from assms(2) poll_acknowledged_first [OF Some d first]
    have s': "s' = s\<lparr>timer_fds := timer_fds s @ [next_fd s], next_fd := Suc (next_fd s),
            heap := (heap s)(h \<mapsto> d\<lparr>file_descriptor := Some (next_fd s)\<rparr>),
            epoll_set := epoll_set s @ [h],
            trace := trace s @
              [Timerfd_create (next_fd s),
               Timerfd_settime (Some (next_fd s)) (retry_timeout_us d) 0,
               Epoll_register h]\<rparr>"
      by (simp split: if_splits)
    show ?thesis
      by (rule timer_inv_new_timer [OF inv Some d])
         (simp_all add: s' armed_def split: if_splits)
  next
    case again
    from assms(2) poll_acknowledged_again [OF Some d again]
    have s': "s' = s\<lparr>trace := trace s @
              [Timerfd_settime (file_descriptor d) (retry_timeout_us d) 0]\<rparr>"
      by (simp split: if_splits)
    show ?thesis
    proof (rule timer_inv_set_again [OF inv Some d])
      show "armed s' fd = armed s fd" if "file_descriptor d \<noteq> Some fd" for fd
        using that by (cases "file_descriptor d") (simp_all add: s' armed_def)
      show "i = 0" if "file_descriptor d = Some fd" "armed s' fd = Some i" for fd i
        using that by (simp add: s' armed_def split: if_splits)
    qed (simp_all add: s')
  next
    case other
    with assms(2) Some d
    have "s' = emit [Warn ''Received ACK on a command that timed out or is processed.. ignoring''] s"
      by (simp add: sl_cpc_system_cmd_poll_acknowledged_def)
    then show ?thesis
      by (intro timer_inv_same [OF inv]) (simp_all add: emit_def armed_def)
  qed
qed

lemma timer_inv_reply:
  assumes inv: "timer_inv s" and "on_reply pf reply n s = Inr s'"
  shows "timer_inv s'"
proof -
  from on_reply_timer_effect [OF assms(2)]
  have nf: "next_fd s' = next_fd s"
    and alt: "commands s' = commands s \<and> heap s' = heap s \<and> armed s' = armed s
       \<or> (\<exists>h d. find_command s (cmd_command_seq reply) = Some h \<and> heap s h = Some d
             \<and> commands s' = remove1 h (commands s)
             \<and> heap s' = (heap s)(h := None)
             \<and> armed s' = (case file_descriptor d of None \<Rightarrow> armed s
                            | Some fd \<Rightarrow> (armed s)(fd := None)))"
    by simp_all
  from on_reply_effect [OF assms(2)] have nh: "next_handle s' = next_handle s" by simp
  from alt show ?thesis
  proof
    assume "commands s' = commands s \<and> heap s' = heap s \<and> armed s' = armed s"
    then show ?thesis using nf nh by (intro timer_inv_same [OF inv]) simp_all
  next
    assume "\<exists>h d. find_command s (cmd_command_seq reply) = Some h \<and> heap s h = Some d
             \<and> commands s' = remove1 h (commands s)
             \<and> heap s' = (heap s)(h := None)
             \<and> armed s' = (case file_descriptor d of None \<Rightarrow> armed s
                            | Some fd \<Rightarrow> (armed s)(fd := None))"
    then obtain h d where hd: "heap s h = Some d" "commands s' = remove1 h (commands s)"
      "heap s' = (heap s)(h := None)"
      "armed s' = (case file_descriptor d of None \<Rightarrow> armed s
                   | Some fd \<Rightarrow> (armed s)(fd := None))"
      by blast
    have "armed s' \<subseteq>\<^sub>m armed s"
      by (cases "file_descriptor d") (simp_all add: hd(4) map_le_def)
    from timer_inv_remove [OF inv hd(1,2,3) nh nf this] show ?thesis .
  qed
qed

lemma timer_may_fireD:
  assumes "timer_may_fire s h"
  obtains d fd where "heap s h = Some d" "file_descriptor d = Some fd" "armed s fd \<noteq> None"
    "h \<in> set (epoll_set s)"
  using assms by (auto simp: timer_may_fire_def split: option.splits)

lemma timer_inv_resolves:
  assumes inv: "timer_inv s" and "timer_may_fire s h" and d: "heap s h = Some d"
  shows "find_command s (cmd_command_seq (command d)) = Some h" and "issued_command (command d)"
proof -
  from assms(2) d obtain fd where fd: "file_descriptor d = Some fd" "armed s fd \<noteq> None"
    by (auto elim: timer_may_fireD)
  from timer_invD(5) [OF inv d fd] timer_invD(1) [OF inv d]
  show "find_command s (cmd_command_seq (command d)) = Some h" by simp
  from timer_invD(2) [OF inv d] show "issued_command (command d)" .
qed

lemma timer_inv_timer_expired:
  assumes inv: "timer_inv s" and fire: "timer_may_fire s h"
    and st: "on_timer_expired pf h s = Inr s'"
  shows "timer_inv s'"
proof -
  from fire obtain d fd where d: "heap s h = Some d" and fd: "file_descriptor d = Some fd"
    and ar: "armed s fd \<noteq> None"
    by (rule timer_may_fireD)
  from ar obtain i where "armed s fd = Some i" by auto
  with timer_inv_one_shot [OF inv this] have a0: "armed s fd = Some 0" by simp
  show ?thesis
  proof (cases "retry_count d > 0")
    case True
    from st on_timer_expired_retry [OF d True, of pf]
    have s': "s' = s\<lparr>commands := remove1 h (commands s) @ [h],
            heap := (heap s)(h \<mapsto> d\<lparr>retry_count := retry_count d - 1,
                                       error_status := SL_STATUS_IN_PROGRESS\<rparr>),
            trace := trace s @
              [Timerfd_read (file_descriptor d),
               Core_write SL_CPC_ENDPOINT_SYSTEM (command_bytes (command d))
                 SL_CPC_FLAG_INFORMATION_POLL]\<rparr>"
      by simp
    have a': "armed s' = (armed s)(fd := None)"
      by (simp add: s' armed_def fd) (simp add: a0 [unfolded armed_def])
    show ?thesis
    proof (rule timer_inv_rotate [OF inv d, where ?d1.0 = "d\<lparr>retry_count := retry_count d - 1,
                                       error_status := SL_STATUS_IN_PROGRESS\<rparr>"])
      show "armed s' \<subseteq>\<^sub>m armed s" by (simp add: a' map_le_def)
      show "armed s' fd' = None" if "file_descriptor d = Some fd'" for fd'
        using that fd by (simp add: a')
    qed (simp_all add: s')
  next
    case False
    then have r0: "retry_count d = 0" by (simp add: word_gt_0)
    from st on_timer_expired_final [OF d r0 timer_inv_resolves [OF inv fire d], of pf]
    have s': "s' = s\<lparr>commands := remove1 h (commands s),
            heap := (heap s)(h := None),
            timer_fds := (case file_descriptor d of None \<Rightarrow> timer_fds s
                          | Some n \<Rightarrow> removeAll n (timer_fds s)),
            epoll_set := removeAll h (epoll_set s),
            trace := trace s @
              [Timerfd_read (file_descriptor d), Epoll_unregister h,
               Close_fd (file_descriptor d), timeout_event pf h d,
               Free_command h, Free_handle h]\<rparr>"
      by simp
    have a': "armed s' = (armed s)(fd := None)"
      by (simp add: s' armed_def fd)
    show ?thesis
    proof (rule timer_inv_remove [OF inv d])
      show "armed s' \<subseteq>\<^sub>m armed s" by (simp add: a' map_le_def)
    qed (simp_all add: s')
  qed
qed

lemma timer_inv_reset_system_endpoint:
  assumes inv: "timer_inv s"
  shows "timer_inv (sl_cpc_system_reset_system_endpoint s)"
  by (rule timer_inv_reset [OF inv])
     (simp_all add: reset_system_endpoint_eq armed_def foldl_timer_drain)

lemma timer_inv_step:
  assumes inv: "timer_inv s" and st: "step pf i s = Inr s'"
    and fire: "\<And>h. i = Timer_expired h \<Longrightarrow> timer_may_fire s h"
  shows "timer_inv s'"
proof (cases i)
  case (Cmd_noop cb rc rt)
  with st show ?thesis using timer_inv_noop [OF inv] by simp
next
  case (Cmd_reboot cb rc rt)
  with st show ?thesis using timer_inv_reboot [OF inv] by simp
next
  case (Cmd_property_get cb pid rc rt)
  with st show ?thesis using timer_inv_property_get [OF inv] by simp
next
  case (Cmd_property_set cb rc rt pid v n)
  with st show ?thesis using timer_inv_property_set [OF inv] by simp
next
  case (Poll_acknowledged c)
  with st show ?thesis using timer_inv_poll_acknowledged [OF inv] by simp
next
  case (Reply c n)
  with st show ?thesis using timer_inv_reply [OF inv] by simp
next
  case (Unsolicited c n)
  with st show ?thesis using timer_inv_unsolicited [OF inv] by simp
next
  case (Timer_expired h)
  with st have "on_timer_expired pf h s = Inr s'" by simp
  from timer_inv_timer_expired [OF inv fire [OF Timer_expired] this] show ?thesis .
next
  case Reset_system_endpoint
  with st show ?thesis using timer_inv_reset_system_endpoint [OF inv] by auto
next
  case (Register_last_status_callback cb)
  with st have "s' = sl_cpc_system_register_unsolicited_prop_last_status_callback cb s" by simp
  then show ?thesis
    by (intro timer_inv_same [OF inv])
       (simp_all add: sl_cpc_system_register_unsolicited_prop_last_status_callback_def armed_def)
qed

lemma timer_inv_run:
  "timer_inv s \<Longrightarrow> timers_fire_when_set pf ins s \<Longrightarrow> run pf ins s = Inr s' \<Longrightarrow> timer_inv s'"
proof (induction ins arbitrary: s)
  case Nil
  then show ?case by simp
next
  case (Cons i ins)
  from Cons.prems(3) obtain s1 where s1: "step pf i s = Inr s1" and r: "run pf ins s1 = Inr s'"
    by (auto split: sum.splits)
  from Cons.prems(2) s1 have f: "\<And>h. i = Timer_expired h \<Longrightarrow> timer_may_fire s h"
    and f': "timers_fire_when_set pf ins s1"
    by auto
  from timer_inv_step [OF Cons.prems(1) s1 f] have "timer_inv s1" .
  from Cons.IH [OF this f' r] show ?case .
qed

lemma timer_inv_init: "timer_inv (sl_cpc_system_init es le)"
  by (simp add: timer_inv_def well_formed_def sl_cpc_system_init_def
      sl_cpc_system_open_endpoint_def emit_def armed_def)

lemma expiring_timer_resolves:
  assumes "run pf ins (sl_cpc_system_init es le) = Inr s"
    and "timers_fire_when_set pf ins (sl_cpc_system_init es le)"
    and "timer_may_fire s h" and "heap s h = Some d"
  shows "find_command s (cmd_command_seq (command d)) = Some h \<and> issued_command (command d)"
  using timer_inv_resolves [OF timer_inv_run [OF timer_inv_init assms(2,1)] assms(3,4)]
  by simp

lemma after_noop_acked:
  "sl_cpc_system_cmd_poll_acknowledged noop_frame after_noop =
     Inr (after_noop
           \<lparr>timer_fds := [0], next_fd := 1,
            heap := [0 \<mapsto> noop_handle\<lparr>file_descriptor := Some 0\<rparr>],
            epoll_set := [0],
            trace := trace after_noop @
              [Timerfd_create 0, Timerfd_settime (Some 0) 1000 0, Epoll_register 0]\<rparr>)"
proof -
  have f: "find_command after_noop (cmd_command_seq noop_frame) = Some 0"
    by (simp add: noop_frame_def find_command_after_noop)
  have e: "error_status noop_handle = SL_STATUS_OK" "retry_timeout_us noop_handle = 1000"
    by (simp_all add: noop_handle_def)
  show ?thesis
    unfolding poll_acknowledged_first [OF f after_noop_fields(1) e(1)]
    by (simp add: after_noop_fields e after_noop_def)
qed

lemma rearm_run: "run little_endian_host rearm_inputs boot = Inr after_noop_rearmed"
proof -
  let ?s2 = "after_noop
           \<lparr>timer_fds := [0], next_fd := 1,
            heap := [0 \<mapsto> noop_handle\<lparr>file_descriptor := Some 0\<rparr>],
            epoll_set := [0],
            trace := trace after_noop @
              [Timerfd_create 0, Timerfd_settime (Some 0) 1000 0, Epoll_register 0]\<rparr>"
  let ?d2 = "noop_handle\<lparr>file_descriptor := Some 0\<rparr>"
  let ?d3 = "?d2\<lparr>retry_count := retry_count ?d2 - 1, error_status := SL_STATUS_IN_PROGRESS\<rparr>"
  let ?s3 = "?s2\<lparr>commands := remove1 0 (commands ?s2) @ [0],
            heap := (heap ?s2)(0 \<mapsto> ?d3),
            trace := trace ?s2 @
              [Timerfd_read (file_descriptor ?d2),
               Core_write SL_CPC_ENDPOINT_SYSTEM (command_bytes (command ?d2))
                 SL_CPC_FLAG_INFORMATION_POLL]\<rparr>"
  have h2: "heap ?s2 0 = Some ?d2" by simp
  have r2: "retry_count ?d2 > 0" by (simp add: noop_handle_def)
  have t: "on_timer_expired little_endian_host 0 ?s2 = Inr ?s3"
    by (rule on_timer_expired_retry [OF h2 r2])
  have f3: "find_command ?s3 (cmd_command_seq noop_frame) = Some 0"
    by (simp add: find_command_def noop_frame_def noop_handle_def after_noop_fields)
  have h3: "heap ?s3 0 = Some ?d3" by simp
  have e3: "error_status ?d3 = SL_STATUS_IN_PROGRESS" by simp
  have p: "sl_cpc_system_cmd_poll_acknowledged noop_frame ?s3 = Inr after_noop_rearmed"
    unfolding poll_acknowledged_again [OF f3 h3 e3]
    by (simp add: after_noop_rearmed_def after_noop_fields noop_handle_def noop_frame_def
        command_bytes_def)
  show ?thesis
    by (simp only: rearm_inputs_def run.simps step.simps noop_boot after_noop_acked t p
        sum.case)
qed

lemma after_noop_rearmed_fields:
  "heap after_noop_rearmed 0
     = Some (noop_handle\<lparr>retry_count := 0, error_status := SL_STATUS_IN_PROGRESS,
                          file_descriptor := Some 0\<rparr>)"
  "commands after_noop_rearmed = [0]" "timer_fds after_noop_rearmed = [0]"
  "epoll_set after_noop_rearmed = [0]"
  by (simp_all add: after_noop_rearmed_def)

lemma armed_after_noop: "armed after_noop = Map.empty"
  by (simp add: armed_def after_noop_def boot_defs)

lemma rearm_fire: "timer_may_fire after_noop_rearmed 0"
  using armed_after_noop
  by (simp add: timer_may_fire_def after_noop_rearmed_def armed_def)

lemma rearm_timers: "timers_fire_when_set little_endian_host rearm_inputs boot"
proof -
  let ?s2 = "after_noop
           \<lparr>timer_fds := [0], next_fd := 1,
            heap := [0 \<mapsto> noop_handle\<lparr>file_descriptor := Some 0\<rparr>],
            epoll_set := [0],
            trace := trace after_noop @
              [Timerfd_create 0, Timerfd_settime (Some 0) 1000 0, Epoll_register 0]\<rparr>"
  have "timer_may_fire ?s2 0"
    using armed_after_noop by (simp add: timer_may_fire_def armed_def)
  then show ?thesis
    by (simp only: rearm_inputs_def timers_fire_when_set.simps step.simps noop_boot
        after_noop_acked input.case sum.case simp_thms split: sum.split)
qed

text \<open>
  Claim C1. For the descriptor \<open>d\<close> at the handle \<open>h\<close> whose timer expires:
  with retries left, \<^verbatim>\<open>on_timer_expired\<close> takes it out of the command table,
  decrements \<open>retry_count\<close>, sets \<open>error_status\<close> to
  \<^verbatim>\<open>SL_STATUS_IN_PROGRESS\<close> and puts it back at the tail through
  \<^verbatim>\<open>write_command\<close>, which sends the unchanged buffer (the same sequence number).
  With no retries left, for an issued command that the table finds under its sequence
  number, it unregisters and closes the timer, removes the descriptor, calls the final
  handler exactly once, with \<^verbatim>\<open>SL_STATUS_TIMEOUT\<close>, and frees the buffer and
  the handle. Along any sequence of inputs the number of retransmissions of the descriptor
  is at most its \<open>retry_count\<close> at the start. In every state that a run from
  \<^verbatim>\<open>sl_cpc_system_init\<close> reaches, with timers expiring only when they are set, a
  descriptor whose timer can expire holds an issued command that the table finds under
  its sequence number.
\<close>

theorem timer_expiry_retries_then_times_out:
  assumes "heap s h = Some d"
  shows "(retry_count d > 0 \<longrightarrow>
           on_timer_expired pf h s =
             Inr (s\<lparr>commands := remove1 h (commands s) @ [h],
                    heap := (heap s)(h \<mapsto> d\<lparr>retry_count := retry_count d - 1,
                                               error_status := SL_STATUS_IN_PROGRESS\<rparr>),
                    trace := trace s @
                      [Timerfd_read (file_descriptor d),
                       Core_write SL_CPC_ENDPOINT_SYSTEM (command_bytes (command d))
                         SL_CPC_FLAG_INFORMATION_POLL]\<rparr>))
       \<and> (retry_count d = 0 \<and> find_command s (cmd_command_seq (command d)) = Some h
            \<and> issued_command (command d) \<longrightarrow>
           on_timer_expired pf h s =
             Inr (s\<lparr>commands := remove1 h (commands s),
                    heap := (heap s)(h := None),
                    timer_fds := (case file_descriptor d of None \<Rightarrow> timer_fds s
                                  | Some n \<Rightarrow> removeAll n (timer_fds s)),
                    epoll_set := removeAll h (epoll_set s),
                    trace := trace s @
                      [Timerfd_read (file_descriptor d), Epoll_unregister h,
                       Close_fd (file_descriptor d), timeout_event pf h d,
                       Free_command h, Free_handle h]\<rparr>)
           \<and> List.map_filter final_handler_call
                 [Timerfd_read (file_descriptor d), Epoll_unregister h,
                  Close_fd (file_descriptor d), timeout_event pf h d,
                  Free_command h, Free_handle h]
               = [(on_final d, h, SL_STATUS_TIMEOUT)])
       \<and> (h < next_handle s \<longrightarrow> (\<forall>ins. retransmissions pf h ins s \<le> unat (retry_count d)))
       \<and> (\<forall>ins es le.
             run pf ins (sl_cpc_system_init es le) = Inr s
             \<and> timers_fire_when_set pf ins (sl_cpc_system_init es le)
             \<and> timer_may_fire s h \<longrightarrow>
             find_command s (cmd_command_seq (command d)) = Some h
             \<and> issued_command (command d))"
proof -
  have r: "\<forall>ins es le.
             run pf ins (sl_cpc_system_init es le) = Inr s
             \<and> timers_fire_when_set pf ins (sl_cpc_system_init es le)
             \<and> timer_may_fire s h \<longrightarrow>
             find_command s (cmd_command_seq (command d)) = Some h
             \<and> issued_command (command d)"
    using expiring_timer_resolves [of pf _ _ _ s h d] assms by blast
  have c: "h < next_handle s \<longrightarrow> (\<forall>ins. retransmissions pf h ins s \<le> unat (retry_count d))"
    using retransmissions_bounded [of h s pf] assms by (simp add: retries_left_def)
  have e: "List.map_filter final_handler_call
                 [Timerfd_read (file_descriptor d), Epoll_unregister h,
                  Close_fd (file_descriptor d), timeout_event pf h d,
                  Free_command h, Free_handle h]
               = [(on_final d, h, SL_STATUS_TIMEOUT)]"
    by (simp add: List.map_filter_def timeout_event_def)
  from on_timer_expired_retry [OF assms, of pf] on_timer_expired_final [OF assms, of pf] c e r
  show ?thesis by blast
qed

text \<open>
  Claim C1 on a no-op with one retry (retransmission, and at most one retransmission
  over three expirations), on a property-get without retries (terminal timeout), and on
  the no-op after its retransmission was acknowledged (terminal timeout in a state
  reached by a run).
\<close>

theorem timer_expiry_retries_then_times_out_witness:
  "heap after_noop 0 = Some noop_handle
   \<and> retry_count noop_handle > 0
   \<and> on_timer_expired little_endian_host 0 after_noop =
        Inr (after_noop
              \<lparr>commands := [0],
               heap := [0 \<mapsto> noop_handle\<lparr>retry_count := 0,
                                           error_status := SL_STATUS_IN_PROGRESS\<rparr>],
               trace := trace after_noop @
                 [Timerfd_read None,
                  Core_write SL_CPC_ENDPOINT_SYSTEM [CMD_SYSTEM_NOOP, 0, 0]
                    SL_CPC_FLAG_INFORMATION_POLL]\<rparr>)
   \<and> 0 < next_handle after_noop
   \<and> retransmissions little_endian_host 0
        [Timer_expired 0, Timer_expired 0, Timer_expired 0] after_noop \<le> 1
   \<and> heap after_property_get 0 = Some property_get_handle
   \<and> retry_count property_get_handle = 0
   \<and> find_command after_property_get (cmd_command_seq (command property_get_handle)) = Some 0
   \<and> issued_command (command property_get_handle)
   \<and> on_timer_expired big_endian_host 0 after_property_get =
        Inr (after_property_get
              \<lparr>commands := [], heap := Map.empty,
               trace := trace after_property_get @
                 [Timerfd_read None, Epoll_unregister 0, Close_fd None,
                  Property_callback (User_callback 0) 0 0x0A000000 None 0 SL_STATUS_TIMEOUT,
                  Free_command 0, Free_handle 0]\<rparr>)
   \<and> run little_endian_host rearm_inputs boot = Inr after_noop_rearmed
   \<and> timers_fire_when_set little_endian_host rearm_inputs boot
   \<and> timer_may_fire after_noop_rearmed 0
   \<and> on_timer_expired little_endian_host 0 after_noop_rearmed =
        Inr (after_noop_rearmed
              \<lparr>commands := [], heap := Map.empty, timer_fds := [], epoll_set := [],
               trace := trace after_noop_rearmed @
                 [Timerfd_read (Some 0), Epoll_unregister 0, Close_fd (Some 0),
                  Noop_callback (User_callback 0) 0 SL_STATUS_TIMEOUT,
                  Free_command 0, Free_handle 0]\<rparr>)"
proof -
  let ?d = "noop_handle\<lparr>retry_count := 0, error_status := SL_STATUS_IN_PROGRESS,
                         file_descriptor := Some 0\<rparr>"
  have g: "heap after_noop_rearmed 0 = Some ?d" "retry_count ?d = 0"
    "file_descriptor ?d = Some 0"
    "timeout_event little_endian_host 0 ?d
       = Noop_callback (User_callback 0) 0 SL_STATUS_TIMEOUT"
    by (simp_all add: after_noop_rearmed_fields timeout_event_def noop_handle_def noop_frame_def)
  have k: "run little_endian_host rearm_inputs
             (sl_cpc_system_init (\<lambda>ep. SL_CPC_STATE_OPEN) (\<lambda>ep. False)) = Inr after_noop_rearmed"
    "timers_fire_when_set little_endian_host rearm_inputs
             (sl_cpc_system_init (\<lambda>ep. SL_CPC_STATE_OPEN) (\<lambda>ep. False))"
    "timer_may_fire after_noop_rearmed 0"
    using rearm_run rearm_timers rearm_fire by (simp_all add: boot_def)
  note C = timer_expiry_retries_then_times_out [OF g(1), of little_endian_host]
  from C k have res: "find_command after_noop_rearmed (cmd_command_seq (command ?d)) = Some 0"
    "issued_command (command ?d)"
    by blast+
  from C g(2) res have "on_timer_expired little_endian_host 0 after_noop_rearmed =
             Inr (after_noop_rearmed\<lparr>commands := remove1 0 (commands after_noop_rearmed),
                    heap := (heap after_noop_rearmed)(0 := None),
                    timer_fds := (case file_descriptor ?d of None \<Rightarrow> timer_fds after_noop_rearmed
                                  | Some n \<Rightarrow> removeAll n (timer_fds after_noop_rearmed)),
                    epoll_set := removeAll 0 (epoll_set after_noop_rearmed),
                    trace := trace after_noop_rearmed @
                      [Timerfd_read (file_descriptor ?d), Epoll_unregister 0,
                       Close_fd (file_descriptor ?d), timeout_event little_endian_host 0 ?d,
                       Free_command 0, Free_handle 0]\<rparr>)"
    by blast
  then have r4: "on_timer_expired little_endian_host 0 after_noop_rearmed =
        Inr (after_noop_rearmed
              \<lparr>commands := [], heap := Map.empty, timer_fds := [], epoll_set := [],
               trace := trace after_noop_rearmed @
                 [Timerfd_read (Some 0), Epoll_unregister 0, Close_fd (Some 0),
                  Noop_callback (User_callback 0) 0 SL_STATUS_TIMEOUT,
                  Free_command 0, Free_handle 0]\<rparr>)"
    unfolding g(3,4) by (simp add: after_noop_rearmed_def)
  have a: "heap after_noop 0 = Some noop_handle" "retry_count noop_handle > 0"
    "0 < next_handle after_noop" "unat (retry_count noop_handle) = 1"
    "commands after_noop = [0]" "file_descriptor noop_handle = None"
    "command_bytes (command noop_handle) = [CMD_SYSTEM_NOOP, 0, 0]"
    by (simp_all add: after_noop_def noop_handle_def noop_frame_def command_bytes_def)
  have b: "heap after_property_get 0 = Some property_get_handle"
    "retry_count property_get_handle = 0"
    "find_command after_property_get (cmd_command_seq (command property_get_handle)) = Some 0"
    "issued_command (command property_get_handle)"
    by (simp_all add: after_property_get_def property_get_handle_def find_command_def
        issued_command_def sizeof_sl_cpc_property_id_t_def)
  have ld: "load True [0x0A, 0x00, 0x00, 0x00 :: u8] = (0x0A000000 :: u32)"
    by (simp add: load_def host_value_def)
  have ev: "timeout_event big_endian_host 0 property_get_handle
            = Property_callback (User_callback 0) 0 0x0A000000 None 0 SL_STATUS_TIMEOUT"
    by (simp add: timeout_event_def property_get_handle_def big_endian_host_def ld
        sizeof_sl_cpc_property_id_t_def CMD_SYSTEM_NOOP_def CMD_SYSTEM_RESET_def
        CMD_SYSTEM_PROP_VALUE_GET_def)
  have f: "file_descriptor property_get_handle = None" "commands after_property_get = [0]"
    "timer_fds after_property_get = []" "epoll_set after_property_get = []"
    by (simp_all add: property_get_handle_def after_property_get_def)
  note A = timer_expiry_retries_then_times_out [OF a(1), of little_endian_host]
  note B = timer_expiry_retries_then_times_out [OF b(1), of big_endian_host]
  from A a have r1: "on_timer_expired little_endian_host 0 after_noop =
        Inr (after_noop
              \<lparr>commands := [0],
               heap := [0 \<mapsto> noop_handle\<lparr>retry_count := 0,
                                           error_status := SL_STATUS_IN_PROGRESS\<rparr>],
               trace := trace after_noop @
                 [Timerfd_read None,
                  Core_write SL_CPC_ENDPOINT_SYSTEM [CMD_SYSTEM_NOOP, 0, 0]
                    SL_CPC_FLAG_INFORMATION_POLL]\<rparr>)"
    by (simp add: after_noop_def noop_handle_def)
  from A a have r2: "retransmissions little_endian_host 0
        [Timer_expired 0, Timer_expired 0, Timer_expired 0] after_noop \<le> 1"
    by (metis)
  from B b have r3: "on_timer_expired big_endian_host 0 after_property_get =
        Inr (after_property_get
              \<lparr>commands := [], heap := Map.empty,
               trace := trace after_property_get @
                 [Timerfd_read None, Epoll_unregister 0, Close_fd None,
                  Property_callback (User_callback 0) 0 0x0A000000 None 0 SL_STATUS_TIMEOUT,
                  Free_command 0, Free_handle 0]\<rparr>)"
    by (simp add: ev f) (simp add: after_property_get_def)
  from a b r1 r2 r3 r4 rearm_run rearm_timers rearm_fire show ?thesis by simp
qed

end
